(* ===== verification/Prelude.thy ===== *)
theory Prelude
  imports Complex_Main
begin

text \<open>
  Shared vocabulary of the development.

  \<^item> \<open>ustr\<close>: a Python \<open>str\<close> as the list of its code points. Literals are written
    \<open>asc ''...''\<close> for ASCII text.
  \<^item> \<open>exn\<close>: the exceptions the code raises or lets through. The project's own exceptions
    carry the text they are built with; library exceptions carry none, since no code path
    reads it except the job log, which gets it through a rendering parameter.
  \<^item> \<open>'a res = exn + 'a\<close>: a computation that returns (\<open>Inr\<close>) or raises (\<open>Inl\<close>), with
    its sequencing operator \<open>bindR\<close>.
  \<^item> \<open>find_first\<close>, \<open>one_or_none\<close>, \<open>update_where\<close>: the list operations that stand for
    a table read or an in-place row update.
\<close>

type_synonym ustr = "nat list"

type_synonym uuid = nat

definition asc :: "string \<Rightarrow> ustr" where
  "asc s = map of_char s"

text \<open>Exceptions. \<open>app/application/exceptions.py\<close> and \<open>app/domain/exceptions.py\<close> declare the
  first group, the services and \<open>app.core.crypto\<close> the second; the rest come from the language,
  its standard library and SQLAlchemy.\<close>

datatype exn =
    ApplicationError ustr
  | EntityNotFoundError ustr
  | ProviderUnavailableError ustr
  | DomainError ustr
  | MissingCredentialError ustr
  | CredentialEncryptionError ustr
  | HTTPException nat
  | IntegrityError
  | ProgrammingError
  | StaleDataError
  | MultipleResultsFound
  | PendingRollbackError
  | ZeroDivisionError
  | InvalidOperation
  | DecimalOverflow
  | OverflowError
  | TypeError
  | ValueError
  | KeyError
  | IndexError
  | AttributeError
  | AssertionError
  | RuntimeError ustr

type_synonym 'a res = "exn + 'a"

named_theorems res_simps

fun bindR :: "'a res \<Rightarrow> ('a \<Rightarrow> 'b res) \<Rightarrow> 'b res" where
  "bindR (Inl e) f = Inl e"
| "bindR (Inr x) f = f x"

lemma bindR_eq_Inr [res_simps]:
  "bindR m f = Inr y \<longleftrightarrow> (\<exists>x. m = Inr x \<and> f x = Inr y)"
  by (cases m) auto

lemma bindR_eq_Inl [res_simps]:
  "bindR m f = Inl e \<longleftrightarrow> m = Inl e \<or> (\<exists>x. m = Inr x \<and> f x = Inl e)"
  by (cases m) auto

lemma bindR_assoc: "bindR (bindR m f) g = bindR m (\<lambda>x. bindR (f x) g)"
  by (cases m) auto

fun is_err :: "'a res \<Rightarrow> bool" where
  "is_err (Inl e) = True"
| "is_err (Inr x) = False"

subsection \<open>Python truthiness of an optional string\<close>

text \<open>\<open>not s\<close> for an optional string: both \<open>None\<close> and the empty string are false.\<close>

fun str_falsy :: "ustr option \<Rightarrow> bool" where
  "str_falsy None = True"
| "str_falsy (Some s) = (s = [])"

definition str_or :: "ustr option \<Rightarrow> ustr option \<Rightarrow> ustr option" where
  "str_or a b = (if str_falsy a then b else a)"

subsection \<open>Rows of a table\<close>

definition find_first :: "('a \<Rightarrow> bool) \<Rightarrow> 'a list \<Rightarrow> 'a option" where
  "find_first p xs = (case filter p xs of [] \<Rightarrow> None | x # _ \<Rightarrow> Some x)"

text \<open>SQLAlchemy's \<open>scalar_one_or_none\<close>: none, the one row, or \<open>MultipleResultsFound\<close>.\<close>

fun one_or_none :: "'a list \<Rightarrow> 'a option res" where
  "one_or_none [] = Inr None"
| "one_or_none [x] = Inr (Some x)"
| "one_or_none (x # y # xs) = Inl MultipleResultsFound"

definition update_where :: "('a \<Rightarrow> bool) \<Rightarrow> ('a \<Rightarrow> 'a) \<Rightarrow> 'a list \<Rightarrow> 'a list" where
  "update_where p f xs = map (\<lambda>x. if p x then f x else x) xs"

lemma find_first_SomeD: "find_first p xs = Some x \<Longrightarrow> x \<in> set xs \<and> p x"
proof -
  assume "find_first p xs = Some x"
  then obtain ys where "filter p xs = x # ys"
    by (auto simp: find_first_def split: list.splits)
  then have "x \<in> set (filter p xs)" by simp
  then show ?thesis by simp
qed

lemma find_first_NoneD: "find_first p xs = None \<Longrightarrow> x \<in> set xs \<Longrightarrow> \<not> p x"
  by (auto simp: find_first_def filter_empty_conv split: list.splits)

lemma one_or_none_NoneD: "one_or_none (filter p xs) = Inr None \<Longrightarrow> x \<in> set xs \<Longrightarrow> \<not> p x"
  by (cases "filter p xs" rule: one_or_none.cases) (auto simp: filter_empty_conv)

lemma one_or_none_SomeD: "one_or_none xs = Inr (Some x) \<Longrightarrow> xs = [x]"
  by (cases xs rule: one_or_none.cases) auto

lemma one_or_none_filterD:
  "one_or_none (filter p xs) = Inr (Some x) \<Longrightarrow> x \<in> set xs \<and> p x"
proof -
  assume "one_or_none (filter p xs) = Inr (Some x)"
  then have "filter p xs = [x]" by (rule one_or_none_SomeD)
  then have "x \<in> set (filter p xs)" by simp
  then show ?thesis by simp
qed

lemma one_or_none_filter_only:
  assumes "one_or_none (filter p xs) = Inr (Some x)" and "y \<in> set xs" and "p y"
  shows "y = x"
proof -
  have "y \<in> set (filter p xs)" using assms(2,3) by simp
  with one_or_none_SomeD [OF assms(1)] show ?thesis by simp
qed

lemma one_or_none_filter_ex:
  assumes "one_or_none (filter p xs) = Inr found"
  shows "(\<exists>x \<in> set xs. p x \<and> q x) \<longleftrightarrow> (\<exists>x. found = Some x \<and> q x)"
proof (cases found)
  case None
  with one_or_none_NoneD [OF assms [unfolded None]] show ?thesis by simp
next
  case (Some y)
  note y = one_or_none_filterD [OF assms [unfolded Some]]
  have "x = y" if "x \<in> set xs" "p x" for x
    using one_or_none_filter_only [OF assms [unfolded Some] that] .
  with y Some show ?thesis by blast
qed

lemma one_or_none_err: "one_or_none xs = Inl e \<Longrightarrow> e = MultipleResultsFound"
  by (cases xs rule: one_or_none.cases) auto

text \<open>A list with distinct keys has at most one row per key, so \<open>scalar_one_or_none\<close> on a
  unique key never raises.\<close>

lemma filter_key_length:
  "distinct (map k xs) \<Longrightarrow> length (filter (\<lambda>x. k x = a) xs) \<le> 1"
proof (induction xs)
  case Nil
  then show ?case by simp
next
  case (Cons x xs)
  show ?case
  proof (cases "k x = a")
    case True
    with Cons.prems have "\<forall>y \<in> set xs. k y \<noteq> a" by (auto simp: image_iff)
    then have "filter (\<lambda>x. k x = a) xs = []" by (simp add: filter_empty_conv)
    with True show ?thesis by simp
  next
    case False
    with Cons show ?thesis by simp
  qed
qed

lemma one_or_none_short: "length xs \<le> 1 \<Longrightarrow> \<exists>r. one_or_none xs = Inr r"
  by (cases xs rule: one_or_none.cases) auto

lemma set_update_where: "set (update_where p f xs) = (\<lambda>x. if p x then f x else x) ` set xs"
  by (simp add: update_where_def)

lemma length_update_where [simp]: "length (update_where p f xs) = length xs"
  by (simp add: update_where_def)

lemma map_update_where:
  "(\<And>x. x \<in> set xs \<Longrightarrow> p x \<Longrightarrow> k (f x) = k x) \<Longrightarrow> map k (update_where p f xs) = map k xs"
  by (simp add: update_where_def)

lemma filter_update_where_frame:
  assumes "\<And>x. x \<in> set xs \<Longrightarrow> p x \<Longrightarrow> \<not> q x"
    and "\<And>x. x \<in> set xs \<Longrightarrow> p x \<Longrightarrow> \<not> q (f x)"
  shows "filter q (update_where p f xs) = filter q xs"
  using assms unfolding update_where_def
  by (induction xs) auto

end
