(* ===== verification/PyText.thy ===== *)
theory PyText
  imports Prelude
begin

text \<open>
  Python's \<open>str\<close> operations the program uses, on lists of code points: the white-space test
  behind \<open>strip\<close> and \<open>\s\<close>, the decimal-digit class \<open>\d\<close> of the \<open>re\<close> module (Unicode category
  Nd), the wider class of \<open>str.isdigit\<close>, \<open>strip\<close> and \<open>startswith\<close>. The code point tables are
  those of Unicode 15, the version of the Python the project asks for.
\<close>

definition in_ranges :: "(nat \<times> nat) list \<Rightarrow> nat \<Rightarrow> bool" where
  "in_ranges rs c \<longleftrightarrow> list_ex (\<lambda>(lo, hi). lo \<le> c \<and> c \<le> hi) rs"

definition space_ranges :: "(nat \<times> nat) list" where
  "space_ranges =
   [
    (9, 13), (28, 32), (133, 133), (160, 160), (5760, 5760), (8192, 8202), (8232, 8233),
    (8239, 8239), (8287, 8287), (12288, 12288)]"

definition nd_ranges :: "(nat \<times> nat) list" where
  "nd_ranges =
   [
    (48, 57), (1632, 1641), (1776, 1785), (1984, 1993), (2406, 2415), (2534, 2543), (2662, 2671),
    (2790, 2799), (2918, 2927), (3046, 3055), (3174, 3183), (3302, 3311), (3430, 3439),
    (3558, 3567), (3664, 3673), (3792, 3801), (3872, 3881), (4160, 4169), (4240, 4249),
    (6112, 6121), (6160, 6169), (6470, 6479), (6608, 6617), (6784, 6793), (6800, 6809),
    (6992, 7001), (7088, 7097), (7232, 7241), (7248, 7257), (42528, 42537), (43216, 43225),
    (43264, 43273), (43472, 43481), (43504, 43513), (43600, 43609), (44016, 44025),
    (65296, 65305), (66720, 66729), (68912, 68921), (69734, 69743), (69872, 69881),
    (69942, 69951), (70096, 70105), (70384, 70393), (70736, 70745), (70864, 70873),
    (71248, 71257), (71360, 71369), (71472, 71481), (71904, 71913), (72016, 72025),
    (72784, 72793), (73040, 73049), (73120, 73129), (73552, 73561), (92768, 92777),
    (92864, 92873), (93008, 93017), (120782, 120831), (123200, 123209), (123632, 123641),
    (124144, 124153), (125264, 125273), (130032, 130041)]"

text \<open>Digits that are not decimal digits: superscripts, circled digits and the like.\<close>

definition other_digit_ranges :: "(nat \<times> nat) list" where
  "other_digit_ranges =
   [
    (178, 179), (185, 185), (4969, 4977), (6618, 6618), (8304, 8304), (8308, 8313), (8320, 8329),
    (9312, 9320), (9332, 9340), (9352, 9360), (9450, 9450), (9461, 9469), (9471, 9471),
    (10102, 10110), (10112, 10120), (10122, 10130), (68160, 68163), (69216, 69224),
    (69714, 69722), (127232, 127242)]"

definition is_space :: "nat \<Rightarrow> bool" where
  "is_space c = in_ranges space_ranges c"

definition is_nd :: "nat \<Rightarrow> bool" where
  "is_nd c = in_ranges nd_ranges c"

text \<open>\<open>s.isdigit()\<close>: not empty, and every character a digit.\<close>

definition is_digit_char :: "nat \<Rightarrow> bool" where
  "is_digit_char c \<longleftrightarrow> is_nd c \<or> in_ranges other_digit_ranges c"

definition py_isdigit :: "ustr \<Rightarrow> bool" where
  "py_isdigit s \<longleftrightarrow> s \<noteq> [] \<and> list_all is_digit_char s"

definition py_strip :: "ustr \<Rightarrow> ustr" where
  "py_strip s = rev (dropWhile is_space (rev (dropWhile is_space s)))"

definition py_startswith :: "ustr \<Rightarrow> ustr \<Rightarrow> bool" where
  "py_startswith s pre \<longleftrightarrow> take (length pre) s = pre"

lemma dropWhile_none: "(\<And>c. c \<in> set s \<Longrightarrow> \<not> p c) \<Longrightarrow> dropWhile p s = s"
  by (cases s) auto

lemma py_strip_no_space: "(\<And>c. c \<in> set s \<Longrightarrow> \<not> is_space c) \<Longrightarrow> py_strip s = s"
  using dropWhile_none [of s is_space] dropWhile_none [of "rev s" is_space]
  by (simp add: py_strip_def)

text \<open>The ten ASCII digits are decimal digits.\<close>

lemma is_nd_ascii: "48 \<le> c \<Longrightarrow> c \<le> 57 \<Longrightarrow> is_nd c"
  by (simp add: is_nd_def in_ranges_def nd_ranges_def)

subsection \<open>str.format\<close>

lemma dropWhile_Cons_length: "dropWhile p xs = y # ys \<Longrightarrow> length ys < length xs"
  using length_dropWhile_le [of p xs] by simp

text \<open>
  \<open>template.format(**args)\<close> for templates with plain named fields: a field in braces is replaced
  by the text of its argument, a doubled brace stands for itself, an unknown field raises
  \<open>KeyError\<close> and an unbalanced brace \<open>ValueError\<close>. The inserted text is not scanned again.
\<close>

function py_format :: "ustr \<Rightarrow> (ustr \<times> ustr) list \<Rightarrow> ustr res" where
  "py_format [] args = Inr []"
| "py_format (c # cs) args =
     (if c = 123 then
        (case cs of
           [] \<Rightarrow> Inl ValueError
         | d # ds \<Rightarrow>
             if d = 123 then bindR (py_format ds args) (\<lambda>r. Inr (123 # r))
             else
               (case dropWhile (\<lambda>x. x \<noteq> 125) cs of
                  [] \<Rightarrow> Inl ValueError
                | e # es \<Rightarrow>
                    (case map_of args (takeWhile (\<lambda>x. x \<noteq> 125) cs) of
                       None \<Rightarrow> Inl KeyError
                     | Some v \<Rightarrow> bindR (py_format es args) (\<lambda>r. Inr (v @ r)))))
      else if c = 125 then
        (case cs of
           [] \<Rightarrow> Inl ValueError
         | d # ds \<Rightarrow>
             if d = 125 then bindR (py_format ds args) (\<lambda>r. Inr (125 # r))
             else Inl ValueError)
      else bindR (py_format cs args) (\<lambda>r. Inr (c # r)))"
  by pat_completeness auto

termination
  by (relation "measure (\<lambda>(t, args). length t)") (auto dest!: dropWhile_Cons_length split: if_splits)

lemma py_format_plain:
  "(\<And>c. c \<in> set t \<Longrightarrow> c \<noteq> 123 \<and> c \<noteq> 125) \<Longrightarrow> py_format t args = Inr t"
  by (induction t) auto

lemma py_format_text:
  "(\<And>c. c \<in> set t \<Longrightarrow> c \<noteq> 123 \<and> c \<noteq> 125) \<Longrightarrow>
     py_format (t @ rest) args = bindR (py_format rest args) (\<lambda>r. Inr (t @ r))"
proof (induction t)
  case Nil
  then show ?case by (cases "py_format rest args") simp_all
next
  case (Cons c t)
  then show ?case by (simp add: bindR_assoc)
qed

lemma py_format_field:
  assumes "\<And>c. c \<in> set k \<Longrightarrow> c \<noteq> 123 \<and> c \<noteq> 125" "k \<noteq> []" "map_of args k = Some v"
  shows "py_format ([123] @ k @ [125] @ rest) args =
    bindR (py_format rest args) (\<lambda>r. Inr (v @ r))"
proof -
  have "dropWhile (\<lambda>x. x \<noteq> 125) (k @ 125 # rest) = 125 # rest"
    "takeWhile (\<lambda>x. x \<noteq> 125) (k @ 125 # rest) = k"
    using assms(1) by (auto simp: dropWhile_append takeWhile_append dropWhile_eq_Nil_conv)
  moreover obtain d ds where k: "k = d # ds" using assms(2) by (cases k) auto
  moreover have "d \<noteq> 123" using assms(1) k by auto
  ultimately show ?thesis using assms(3) by simp
qed

end
