(* ===== verification/PyDecimal.thy ===== *)
theory PyDecimal
  imports Prelude
begin

text \<open>
  The part of Python's \<open>decimal\<close> the program uses, in the default context: precision 28, half-even
  rounding, exponents between -999999 and 999999, and traps for \<open>InvalidOperation\<close> and
  \<open>Overflow\<close>. A number keeps its sign, coefficient and exponent, because \<open>str\<close> and \<open>normalize\<close>
  show them; \<open>dval\<close> is its rational value.
\<close>

datatype decimal = Fin bool nat int | Inf bool | QNaN | SNaN

definition prec :: int where "prec = 28"

definition emax :: int where "emax = 999999"

definition emin :: int where "emin = -999999"

definition etiny :: int where "etiny = emin - prec + 1"

definition etop :: int where "etop = emax - prec + 1"

fun sgn_int :: "bool \<Rightarrow> int" where
  "sgn_int True = -1"
| "sgn_int False = 1"

definition pow10 :: "int \<Rightarrow> rat" where
  "pow10 e = (if 0 \<le> e then 10 ^ nat e else 1 / 10 ^ nat (- e))"

fun dval :: "decimal \<Rightarrow> rat" where
  "dval (Fin s c e) = of_int (sgn_int s * int c) * pow10 e"
| "dval _ = 0"

fun is_finite :: "decimal \<Rightarrow> bool" where
  "is_finite (Fin s c e) = True"
| "is_finite _ = False"

definition dec_zero :: decimal where "dec_zero = Fin False 0 0"

text \<open>The number of decimal digits of a coefficient, \<open>len(str(c))\<close>.\<close>

fun ndigits :: "nat \<Rightarrow> nat" where
  "ndigits c = (if c < 10 then 1 else Suc (ndigits (c div 10)))"

declare ndigits.simps [simp del]

subsection \<open>Rounding to the context\<close>

text \<open>\<open>c\<close> without its last \<open>k\<close> digits, rounded half to even.\<close>

definition half_even :: "nat \<Rightarrow> nat \<Rightarrow> nat" where
  "half_even c k =
     (let q = c div 10 ^ k; r = c mod 10 ^ k
      in if 2 * r > 10 ^ k \<or> (2 * r = 10 ^ k \<and> odd q) then q + 1 else q)"

text \<open>\<open>Decimal._fix\<close>: at most 28 digits and an exponent in range.\<close>

definition dec_fix :: "bool \<Rightarrow> nat \<Rightarrow> int \<Rightarrow> decimal res" where
  "dec_fix s c e =
     (if c = 0 then Inr (Fin s 0 (min (max e etiny) emax))
      else
        (let e0 = int (ndigits c) + e - prec in
         if e0 > etop then Inl DecimalOverflow
         else
           (let emn = max e0 etiny in
            if e < emn then
              (let q = half_even c (nat (emn - e)) in
               if int (ndigits q) > prec
               then (if emn + 1 > etop then Inl DecimalOverflow
                     else Inr (Fin s (q div 10) (emn + 1)))
               else Inr (Fin s q emn))
            else Inr (Fin s c e))))"

subsection \<open>Arithmetic and comparison\<close>

definition scaled :: "bool \<Rightarrow> nat \<Rightarrow> int \<Rightarrow> int \<Rightarrow> int" where
  "scaled s c e m = sgn_int s * int c * 10 ^ nat (e - m)"

fun dec_add :: "decimal \<Rightarrow> decimal \<Rightarrow> decimal res" where
  "dec_add (Fin s1 c1 e1) (Fin s2 c2 e2) =
     (let m = min e1 e2; a = scaled s1 c1 e1 m + scaled s2 c2 e2 m
      in if a = 0 then dec_fix (c1 = 0 \<and> c2 = 0 \<and> s1 \<and> s2) 0 m
         else dec_fix (a < 0) (nat \<bar>a\<bar>) m)"
| "dec_add SNaN _ = Inl InvalidOperation"
| "dec_add _ SNaN = Inl InvalidOperation"
| "dec_add QNaN _ = Inr QNaN"
| "dec_add _ QNaN = Inr QNaN"
| "dec_add (Inf s) (Inf s') = (if s = s' then Inr (Inf s) else Inl InvalidOperation)"
| "dec_add (Inf s) (Fin _ _ _) = Inr (Inf s)"
| "dec_add (Fin _ _ _) (Inf s) = Inr (Inf s)"

fun dec_neg :: "decimal \<Rightarrow> decimal" where
  "dec_neg (Fin s c e) = Fin (\<not> s) c e"
| "dec_neg (Inf s) = Inf (\<not> s)"
| "dec_neg QNaN = QNaN"
| "dec_neg SNaN = SNaN"

definition dec_sub :: "decimal \<Rightarrow> decimal \<Rightarrow> decimal res" where
  "dec_sub a b = dec_add a (dec_neg b)"

text \<open>\<open>a < b\<close>: a comparison with a NaN raises \<open>InvalidOperation\<close>.\<close>

fun dec_lt :: "decimal \<Rightarrow> decimal \<Rightarrow> bool res" where
  "dec_lt (Fin s1 c1 e1) (Fin s2 c2 e2) =
     (let m = min e1 e2 in Inr (scaled s1 c1 e1 m < scaled s2 c2 e2 m))"
| "dec_lt QNaN _ = Inl InvalidOperation"
| "dec_lt SNaN _ = Inl InvalidOperation"
| "dec_lt _ QNaN = Inl InvalidOperation"
| "dec_lt _ SNaN = Inl InvalidOperation"
| "dec_lt (Inf s) (Inf s') = Inr (s \<and> \<not> s')"
| "dec_lt (Inf s) (Fin _ _ _) = Inr s"
| "dec_lt (Fin _ _ _) (Inf s) = Inr (\<not> s)"

subsection \<open>quantize, normalize and str\<close>

text \<open>\<open>_rescale(e, ROUND_CEILING)\<close> of a finite number.\<close>

definition rescale_ceiling :: "bool \<Rightarrow> nat \<Rightarrow> int \<Rightarrow> int \<Rightarrow> nat" where
  "rescale_ceiling s c e e' =
     (if e' \<le> e then c * 10 ^ nat (e - e')
      else (let k = nat (e' - e); q = c div 10 ^ k
            in if \<not> s \<and> c mod 10 ^ k \<noteq> 0 then q + 1 else q))"

text \<open>\<open>x.quantize(Decimal with exponent e', rounding=ROUND_CEILING)\<close>.\<close>

fun dec_quantize_ceiling :: "decimal \<Rightarrow> int \<Rightarrow> decimal res" where
  "dec_quantize_ceiling (Fin s c e) e' =
     (if \<not> (etiny \<le> e' \<and> e' \<le> emax) then Inl InvalidOperation
      else if c = 0 then dec_fix s 0 e'
      else if int (ndigits c) + e - 1 > emax then Inl InvalidOperation
      else if int (ndigits c) + e - 1 - e' + 1 > prec then Inl InvalidOperation
      else
        (let q = rescale_ceiling s c e e'
         in if int (ndigits q) + e' - 1 > emax then Inl InvalidOperation
            else if int (ndigits q) > prec then Inl InvalidOperation
            else dec_fix s q e'))"
| "dec_quantize_ceiling (Inf s) e' = Inl InvalidOperation"
| "dec_quantize_ceiling QNaN e' = Inr QNaN"
| "dec_quantize_ceiling SNaN e' = Inl InvalidOperation"

text \<open>Dropping trailing zeros while the exponent stays below \<open>emax\<close>.\<close>

fun strip_zeros :: "nat \<Rightarrow> int \<Rightarrow> nat \<times> int" where
  "strip_zeros c e =
     (if c = 0 then (0, 0)
      else if c mod 10 = 0 \<and> e < emax then strip_zeros (c div 10) (e + 1)
      else (c, e))"

declare strip_zeros.simps [simp del]

fun dec_normalize :: "decimal \<Rightarrow> decimal res" where
  "dec_normalize (Fin s c e) =
     bindR (dec_fix s c e) (\<lambda>d. case d of
       Fin s' c' e' \<Rightarrow> (case strip_zeros c' e' of (c'', e'') \<Rightarrow> Inr (Fin s' c'' e''))
     | x \<Rightarrow> Inr x)"
| "dec_normalize (Inf s) = Inr (Inf s)"
| "dec_normalize QNaN = Inr QNaN"
| "dec_normalize SNaN = Inl InvalidOperation"

fun digits_of :: "nat \<Rightarrow> ustr" where
  "digits_of c = (if c < 10 then [48 + c] else digits_of (c div 10) @ [48 + c mod 10])"

declare digits_of.simps [simp del]

definition int_str :: "int \<Rightarrow> ustr" where
  "int_str i = (if i < 0 then asc ''-'' @ digits_of (nat (- i)) else digits_of (nat i))"

text \<open>\<open>Decimal.__str__\<close>, scientific notation included.\<close>

fun dec_str :: "decimal \<Rightarrow> ustr" where
  "dec_str (Fin s c e) =
     (let ds = digits_of c;
          n = int (length ds);
          left = e + n;
          dot = (if e \<le> 0 \<and> left > -6 then left else 1);
          body = (if dot \<le> 0 then asc ''0.'' @ replicate (nat (- dot)) 48 @ ds
                  else if n \<le> dot then ds @ replicate (nat (dot - n)) 48
                  else take (nat dot) ds @ asc ''.'' @ drop (nat dot) ds);
          ex = (if left = dot then []
                else asc ''E'' @ (if left - dot < 0 then [] else asc ''+'') @ int_str (left - dot))
      in (if s then asc ''-'' else []) @ body @ ex)"
| "dec_str (Inf s) = (if s then asc ''-Infinity'' else asc ''Infinity'')"
| "dec_str QNaN = asc ''NaN''"
| "dec_str SNaN = asc ''sNaN''"

subsection \<open>Values\<close>

named_theorems dec_simps

lemma pow10_pos [simp]: "0 < pow10 e"
  by (simp add: pow10_def)

lemma pow10_eq_powi: "pow10 e = 10 powi e"
  by (simp add: pow10_def power_int_def inverse_eq_divide power_one_over)

lemma pow10_add: "pow10 (a + b) = pow10 a * pow10 b"
  by (simp add: pow10_eq_powi power_int_add)

lemma pow10_nat: "pow10 (int n) = 10 ^ n"
  by (simp add: pow10_def)

lemma scaled_value:
  assumes "m \<le> e"
  shows "of_int (scaled s c e m) * pow10 m = dval (Fin s c e)"
proof -
  define k where "k = nat (e - m)"
  have e: "e = int k + m" using assms by (simp add: k_def)
  show ?thesis by (simp add: e scaled_def pow10_add pow10_nat)
qed

lemma dec_lt_value:
  "dec_lt (Fin s1 c1 e1) (Fin s2 c2 e2) = Inr (dval (Fin s1 c1 e1) < dval (Fin s2 c2 e2))"
proof -
  define m where "m = min e1 e2"
  define a where "a = scaled s1 c1 e1 m"
  define b where "b = scaled s2 c2 e2 m"
  have a: "dval (Fin s1 c1 e1) = of_int a * pow10 m"
    using scaled_value [of m e1 s1 c1] by (simp add: m_def a_def)
  have b: "dval (Fin s2 c2 e2) = of_int b * pow10 m"
    using scaled_value [of m e2 s2 c2] by (simp add: m_def b_def)
  have "dval (Fin s1 c1 e1) < dval (Fin s2 c2 e2) \<longleftrightarrow> a < b"
    unfolding a b by (simp only: mult_less_cancel_right_pos pow10_pos of_int_less_iff)
  then show ?thesis by (simp add: Let_def a_def b_def m_def)
qed

lemma dec_lt_finite [dec_simps]:
  "is_finite a \<Longrightarrow> is_finite b \<Longrightarrow> dec_lt a b = Inr (dval a < dval b)"
  by (cases a; cases b) (auto simp only: dec_lt_value is_finite.simps)

text \<open>Every coefficient has at least one digit and is below the next power of ten.\<close>

lemma ndigits_pos [simp]: "0 < ndigits c"
  by (subst ndigits.simps) simp

lemma less_pow_ndigits: "c < 10 ^ ndigits c"
proof (induction c rule: ndigits.induct)
  case (1 c)
  show ?case
  proof (cases "c < 10")
    case True
    then show ?thesis by (subst ndigits.simps) simp
  next
    case False
    with 1 have "c div 10 < 10 ^ ndigits (c div 10)" by simp
    then have "c < 10 * 10 ^ ndigits (c div 10)" by linarith
    with False show ?thesis by (subst ndigits.simps) simp
  qed
qed

lemma pow_ndigits_le: "0 < c \<Longrightarrow> 10 ^ (ndigits c - 1) \<le> c"
proof (induction c rule: ndigits.induct)
  case (1 c)
  show ?case
  proof (cases "c < 10")
    case True
    with 1(2) show ?thesis by (subst ndigits.simps) simp
  next
    case False
    with 1 have ih: "10 ^ (ndigits (c div 10) - 1) \<le> c div 10" by simp
    have "10 ^ ndigits (c div 10) = 10 * (10::nat) ^ (ndigits (c div 10) - 1)"
      using ndigits_pos [of "c div 10"] by (cases "ndigits (c div 10)") simp_all
    also have "\<dots> \<le> 10 * (c div 10)" using ih by simp
    also have "\<dots> \<le> c" by simp
    finally show ?thesis using False by (subst ndigits.simps) simp
  qed
qed

text \<open>A number of at most 28 digits and an exponent in the middle of the range is unchanged.\<close>

lemma dec_fix_exact:
  assumes "int (ndigits c) \<le> prec" "etiny \<le> e" "e \<le> etop"
  shows "dec_fix s c e = Inr (Fin s c e)"
proof (cases "c = 0")
  case True
  with assms show ?thesis by (simp add: dec_fix_def etop_def prec_def)
next
  case False
  have "\<not> e < max (int (ndigits c) + e - prec) etiny" and "\<not> int (ndigits c) + e - prec > etop"
    using assms by simp_all
  with False show ?thesis by (simp add: dec_fix_def Let_def)
qed

lemma dval_zero_coeff [simp]: "dval (Fin s 0 e) = 0"
  by simp

text \<open>The exact sum, before it is rounded to the context.\<close>

lemma scaled_sum_value:
  "of_int (scaled s1 c1 e1 (min e1 e2) + scaled s2 c2 e2 (min e1 e2)) * pow10 (min e1 e2) =
     dval (Fin s1 c1 e1) + dval (Fin s2 c2 e2)"
  using scaled_value [of "min e1 e2" e1 s1 c1] scaled_value [of "min e1 e2" e2 s2 c2]
  by (simp add: distrib_right)

lemma dval_signed: "dval (Fin (a < 0) (nat \<bar>a\<bar>) m) = of_int a * pow10 m"
  by (cases "a < 0") simp_all

text \<open>Addition is exact when the exact sum fits the context.\<close>

lemma dec_add_exact:
  assumes "int (ndigits (nat \<bar>scaled s1 c1 e1 (min e1 e2) + scaled s2 c2 e2 (min e1 e2)\<bar>)) \<le> prec"
    and "etiny \<le> min e1 e2" "min e1 e2 \<le> etop"
  shows "\<exists>d. dec_add (Fin s1 c1 e1) (Fin s2 c2 e2) = Inr d \<and> is_finite d \<and>
           dval d = dval (Fin s1 c1 e1) + dval (Fin s2 c2 e2)"
proof -
  define m where "m = min e1 e2"
  define a where "a = scaled s1 c1 e1 m + scaled s2 c2 e2 m"
  have v: "of_int a * pow10 m = dval (Fin s1 c1 e1) + dval (Fin s2 c2 e2)"
    unfolding a_def m_def by (rule scaled_sum_value)
  show ?thesis
  proof (cases "a = 0")
    case True
    then show ?thesis using v by (simp add: Let_def a_def m_def dec_fix_def)
  next
    case False
    have "dec_fix (a < 0) (nat \<bar>a\<bar>) m = Inr (Fin (a < 0) (nat \<bar>a\<bar>) m)"
      by (rule dec_fix_exact) (use assms in \<open>simp_all add: a_def m_def\<close>)
    with False show ?thesis
      using v dval_signed [of a m] by (simp add: Let_def a_def m_def)
  qed
qed

subsection \<open>Ordinary numbers\<close>

text \<open>
  Amounts of at most forty digits with an exponent between -40 and 40: every
  \<open>Numeric(30, 8)\<close> column and any amount an exchange reports. On these the context neither
  overflows nor underflows, so a sum returns and a positive difference stays positive, however
  many digits rounding drops.
\<close>

fun ordinary :: "decimal \<Rightarrow> bool" where
  "ordinary (Fin s c e) \<longleftrightarrow> c < 10 ^ 40 \<and> -40 \<le> e \<and> e \<le> 40"
| "ordinary _ = False"

lemma ordinary_finite: "ordinary d \<Longrightarrow> is_finite d"
  by (cases d) auto

lemma ndigits_le: "c < 10 ^ k \<Longrightarrow> 0 < k \<Longrightarrow> ndigits c \<le> k"
proof -
  assume c: "c < 10 ^ k" and k: "0 < k"
  show ?thesis
  proof (cases "c = 0")
    case True
    with k show ?thesis by (simp add: ndigits.simps)
  next
    case False
    then have "(10::nat) ^ (ndigits c - 1) \<le> c" by (intro pow_ndigits_le) simp
    from this c have "(10::nat) ^ (ndigits c - 1) < 10 ^ k" by (rule le_less_trans)
    then have "ndigits c - 1 < k" by (rule power_less_imp_less_exp [rotated]) simp
    then show ?thesis by simp
  qed
qed

lemma half_even_pos: "10 ^ k \<le> c \<Longrightarrow> 0 < half_even c k"
proof -
  assume "10 ^ k \<le> c"
  then have "0 < c div 10 ^ k" by (simp add: div_greater_zero_iff)
  then show ?thesis by (simp add: half_even_def Let_def)
qed

lemma dec_fix_pos:
  assumes "0 < c" "int (ndigits c) + e \<le> 900000" "etiny \<le> e"
  shows "\<exists>c' e'. dec_fix s c e = Inr (Fin s c' e') \<and> 0 < c'"
proof -
  define e0 where "e0 = int (ndigits c) + e - prec"
  have e0: "\<not> e0 > etop" "\<not> max e0 etiny + 1 > etop"
    using assms by (simp_all add: e0_def etop_def emax_def prec_def etiny_def emin_def)
  show ?thesis
  proof (cases "e < max e0 etiny")
    case False
    with assms e0 show ?thesis by (simp add: dec_fix_def Let_def e0_def)
  next
    case True
    define k where "k = nat (max e0 etiny - e)"
    define q where "q = half_even c k"
    have "k \<le> ndigits c - 1"
      using True assms by (simp add: k_def e0_def prec_def)
    then have "(10::nat) ^ k \<le> 10 ^ (ndigits c - 1)" by (rule power_increasing) simp
    also have "\<dots> \<le> c" using assms(1) by (rule pow_ndigits_le)
    finally have q: "0 < q" unfolding q_def by (rule half_even_pos)
    have "10 \<le> q" if "int (ndigits q) > prec"
      using that by (cases "q < 10") (simp_all add: ndigits.simps prec_def)
    then have "int (ndigits q) > prec \<Longrightarrow> 0 < q div 10"
      by (simp add: div_greater_zero_iff)
    then show ?thesis
      using True assms(1) e0 q
      by (cases "int (ndigits q) > prec")
        (simp_all add: dec_fix_def Let_def flip: e0_def k_def q_def)
  qed
qed

lemma ordinary_scaled:
  assumes "ordinary (Fin s c e)" "m \<le> e" "-40 \<le> m"
  shows "\<bar>scaled s c e m\<bar> < 10 ^ 120"
proof -
  have "10 ^ nat (e - m) \<le> (10::int) ^ 80"
    by (rule power_increasing) (use assms in auto)
  moreover have "int c < int (10 ^ 40)"
    using assms(1) by (simp only: ordinary.simps of_nat_less_iff)
  then have "int c < 10 ^ 40" by simp
  ultimately have "int c * 10 ^ nat (e - m) < 10 ^ 40 * 10 ^ 80"
    by (intro mult_less_le_imp_less) simp_all
  also have "(10::int) ^ 40 * 10 ^ 80 = 10 ^ 120" by (simp flip: power_add)
  finally show ?thesis by (cases s) (simp_all add: scaled_def abs_mult)
qed

lemma dec_sub_ordinary_pos:
  assumes a: "ordinary a" and b: "ordinary b" and lt: "dval b < dval a"
  shows "\<exists>d. dec_sub a b = Inr d \<and> is_finite d \<and> 0 < dval d"
proof -
  obtain s1 c1 e1 where a': "a = Fin s1 c1 e1" using a by (cases a) auto
  obtain s2 c2 e2 where b': "b = Fin s2 c2 e2" using b by (cases b) auto
  define m where "m = min e1 e2"
  define x where "x = scaled s1 c1 e1 m + scaled (\<not> s2) c2 e2 m"
  have m: "m \<le> e1" "m \<le> e2" "-40 \<le> m" "m \<le> 40" using a b by (auto simp: m_def a' b')
  have "ordinary (Fin (\<not> s2) c2 e2)" using b by (simp add: b')
  then have "\<bar>x\<bar> < 2 * 10 ^ 120"
    using ordinary_scaled [of s1 c1 e1 m] ordinary_scaled [of "\<not> s2" c2 e2 m] a m
    unfolding x_def a' by linarith
  also have "(2::int) * 10 ^ 120 \<le> 10 * 10 ^ 120" by simp
  also have "(10::int) * 10 ^ 120 = 10 ^ 121" by (simp flip: power_Suc)
  finally have "nat \<bar>x\<bar> < 10 ^ 121"
    by (simp add: nat_less_iff)
  then have n: "ndigits (nat \<bar>x\<bar>) \<le> 121" by (rule ndigits_le) simp
  have "of_int x * pow10 m = dval a - dval b"
    using scaled_sum_value [of s1 c1 e1 e2 "\<not> s2" c2]
    by (cases s2) (simp_all add: a' b' m_def x_def)
  with lt have "0 < of_int x * pow10 m" by simp
  then have "(0::rat) < of_int x" by (rule zero_less_mult_pos2) (rule pow10_pos)
  then have x: "0 < x" by simp
  obtain c' e' where "dec_fix False (nat \<bar>x\<bar>) m = Inr (Fin False c' e')" "0 < c'"
    using dec_fix_pos [of "nat \<bar>x\<bar>" m False] x n m by (auto simp: etiny_def emin_def prec_def)
  then have "dec_sub a b = Inr (Fin False c' e') \<and> 0 < dval (Fin False c' e')"
    using x by (simp add: dec_sub_def a' b' Let_def flip: m_def x_def)
  then show ?thesis by (intro exI [of _ "Fin False c' e'"]) simp
qed

end
