(* ===== verification/Messages.thy ===== *)
theory Messages
  imports PyText PyDecimal
begin

text \<open>
  \<open>app/domain/messages.py\<close>: the bot's texts, as the code points of the source's literals, and
  the formatting of amounts.
\<close>

definition WELCOME :: ustr where
  "WELCOME =
   [
    1587, 1604, 1575, 1605, 32, 123, 110, 97, 109, 101, 125, 32, 128075, 10, 10, 1576, 1585,
    1575, 1740, 32, 1583, 1587, 1578, 1585, 1587, 1740, 32, 1576, 1607, 32, 1705, 1575, 1606,
    1575, 1604, 32, 86, 73, 80, 1548, 32, 1575, 1586, 32, 1591, 1585, 1740, 1602, 32, 1604, 1740,
    1606, 1705, 32, 1586, 1740, 1585, 32, 1583, 1585, 32, 1589, 1585, 1575, 1601, 1740, 32, 1579,
    1576, 1578, 8204, 1606, 1575, 1605, 32, 1705, 1606, 1740, 1583, 32, 1608, 32, 1587, 1662,
    1587, 32, 85, 73, 68, 32, 1581, 1587, 1575, 1576, 32, 1582, 1608, 1583, 32, 1585, 1575, 32,
    1607, 1605, 1740, 1606, 8204, 1580, 1575, 32, 1576, 1601, 1585, 1587, 1578, 1740, 1583, 58,
    10, 10, 123, 114, 101, 102, 101, 114, 114, 97, 108, 95, 108, 105, 110, 107, 125, 10, 10, 85,
    73, 68, 32, 1740, 1705, 32, 1593, 1583, 1583, 32, 1785, 32, 1585, 1602, 1605, 1740, 32, 1575,
    1587, 1578, 46]"

definition CHOOSE_MARKET :: ustr where
  "CHOOSE_MARKET =
   [
    1705, 1583, 1575, 1605, 32, 1576, 1575, 1586, 1575, 1585, 32, 1585, 1575, 32, 1605, 1740,
    8204, 1582, 1608, 1575, 1607, 1740, 1583, 1567]"

definition ASK_FOR_UID :: ustr where
  "ASK_FOR_UID =
   [
    1604, 1591, 1601, 1575, 1611, 32, 85, 73, 68, 32, 1581, 1587, 1575, 1576, 32, 1589, 1585,
    1575, 1601, 1740, 32, 1582, 1608, 1583, 32, 1585, 1575, 32, 1576, 1601, 1585, 1587, 1578,
    1740, 1583, 32, 40, 1740, 1705, 32, 1593, 1583, 1583, 32, 1785, 32, 1585, 1602, 1605, 1740,
    41, 46]"

definition MSG_INVALID_UID :: ustr where
  "MSG_INVALID_UID =
   [
    1575, 1740, 1606, 32, 85, 73, 68, 32, 1605, 1593, 1578, 1576, 1585, 32, 1606, 1740, 1587,
    1578, 46, 32, 85, 73, 68, 32, 1740, 1705, 32, 1593, 1583, 1583, 32, 1785, 32, 1585, 1602,
    1605, 1740, 32, 1575, 1587, 1578, 32, 8212, 32, 1604, 1591, 1601, 1575, 1611, 32, 1583, 1608,
    1576, 1575, 1585, 1607, 32, 1576, 1585, 1585, 1587, 1740, 32, 1705, 1606, 1740, 1583, 32,
    1608, 32, 1576, 1601, 1585, 1587, 1578, 1740, 1583, 46]"

definition UID_CLAIMED :: ustr where
  "UID_CLAIMED =
   [
    1575, 1740, 1606, 32, 85, 73, 68, 32, 1602, 1576, 1604, 1575, 1611, 32, 1576, 1585, 1575,
    1740, 32, 1705, 1575, 1585, 1576, 1585, 32, 1583, 1740, 1711, 1585, 1740, 32, 1579, 1576,
    1578, 32, 1588, 1583, 1607, 32, 1575, 1587, 1578, 46, 10, 1575, 1711, 1585, 32, 1601, 1705,
    1585, 32, 1605, 1740, 8204, 1705, 1606, 1740, 1583, 32, 1575, 1588, 1578, 1576, 1575, 1607,
    1740, 32, 1585, 1582, 32, 1583, 1575, 1583, 1607, 1548, 32, 1576, 1575, 32, 1662, 1588, 1578,
    1740, 1576, 1575, 1606, 1740, 32, 1578, 1605, 1575, 1587, 32, 1576, 1711, 1740, 1585, 1740,
    1583, 46]"

definition MSG_NOT_REGISTERED :: ustr where
  "MSG_NOT_REGISTERED =
   [
    1581, 1587, 1575, 1576, 32, 1588, 1605, 1575, 32, 1586, 1740, 1585, 1605, 1580, 1605, 1608,
    1593, 1607, 32, 1585, 1601, 1585, 1575, 1604, 32, 1605, 1575, 32, 1606, 1740, 1587, 1578, 46,
    10, 10, 1576, 1585, 1575, 1740, 32, 1608, 1575, 1580, 1583, 32, 1588, 1585, 1575, 1740, 1591,
    32, 1588, 1583, 1606, 32, 1576, 1575, 1740, 1583, 32, 1575, 1586, 32, 1591, 1585, 1740, 1602,
    32, 1604, 1740, 1606, 1705, 32, 1586, 1740, 1585, 32, 1579, 1576, 1578, 8204, 1606, 1575,
    1605, 32, 1705, 1606, 1740, 1583, 58, 10, 123, 114, 101, 102, 101, 114, 114, 97, 108, 95,
    108, 105, 110, 107, 125, 10, 10, 1575, 1711, 1585, 32, 1578, 1575, 1586, 1607, 32, 1579,
    1576, 1578, 8204, 1606, 1575, 1605, 32, 1705, 1585, 1583, 1607, 8204, 1575, 1740, 1583, 1548,
    32, 1670, 1606, 1583, 32, 1583, 1602, 1740, 1602, 1607, 32, 1589, 1576, 1585, 32, 1705, 1606,
    1740, 1583, 32, 1608, 32, 1583, 1608, 1576, 1575, 1585, 1607, 32, 1575, 1605, 1578, 1581,
    1575, 1606, 32, 1705, 1606, 1740, 1583, 46]"

definition MSG_INSUFFICIENT_BALANCE :: ustr where
  "MSG_INSUFFICIENT_BALANCE =
   [
    1581, 1587, 1575, 1576, 32, 1588, 1605, 1575, 32, 1578, 1571, 1740, 1740, 1583, 32, 1588,
    1583, 1548, 32, 1575, 1605, 1575, 32, 1605, 1608, 1580, 1608, 1583, 1740, 32, 1608, 1575,
    1585, 1740, 1586, 1740, 32, 1705, 1575, 1601, 1740, 32, 1606, 1740, 1587, 1578, 46, 10, 10,
    1581, 1583, 1575, 1602, 1604, 32, 1604, 1575, 1586, 1605, 58, 32, 123, 109, 105, 110, 105,
    109, 117, 109, 125, 32, 1583, 1604, 1575, 1585, 10, 1605, 1608, 1580, 1608, 1583, 1740, 32,
    1601, 1593, 1604, 1740, 32, 1588, 1605, 1575, 58, 32, 123, 98, 97, 108, 97, 110, 99, 101,
    125, 32, 1583, 1604, 1575, 1585, 10, 1705, 1587, 1585, 1740, 58, 32, 123, 115, 104, 111, 114,
    116, 102, 97, 108, 108, 125, 32, 1583, 1604, 1575, 1585, 10, 10, 1662, 1587, 32, 1575, 1586,
    32, 1608, 1575, 1585, 1740, 1586, 1548, 32, 1583, 1608, 1576, 1575, 1585, 1607, 32, 85, 73,
    68, 32, 1582, 1608, 1583, 32, 1585, 1575, 32, 1576, 1601, 1585, 1587, 1578, 1740, 1583, 46]"

definition MSG_PROVIDER_UNAVAILABLE :: ustr where
  "MSG_PROVIDER_UNAVAILABLE =
   [
    1583, 1585, 32, 1581, 1575, 1604, 32, 1581, 1575, 1590, 1585, 32, 1575, 1605, 1705, 1575,
    1606, 32, 1576, 1585, 1585, 1587, 1740, 32, 1581, 1587, 1575, 1576, 32, 1588, 1605, 1575, 32,
    1608, 1580, 1608, 1583, 32, 1606, 1583, 1575, 1585, 1583, 46, 10, 1575, 1740, 1606, 32, 1605,
    1588, 1705, 1604, 32, 1575, 1586, 32, 1587, 1605, 1578, 32, 1605, 1575, 1587, 1578, 1548, 32,
    1606, 1607, 32, 1588, 1605, 1575, 32, 8212, 32, 1604, 1591, 1601, 1575, 1611, 32, 1670, 1606,
    1583, 32, 1583, 1602, 1740, 1602, 1607, 32, 1583, 1740, 1711, 1585, 32, 1583, 1608, 1576,
    1575, 1585, 1607, 32, 1578, 1604, 1575, 1588, 32, 1705, 1606, 1740, 1583, 46]"

definition MSG_NOT_CONFIGURED :: ustr where
  "MSG_NOT_CONFIGURED =
   [
    1575, 1740, 1606, 32, 1576, 1582, 1588, 32, 1607, 1606, 1608, 1586, 32, 1585, 1575, 1607,
    8204, 1575, 1606, 1583, 1575, 1586, 1740, 32, 1606, 1588, 1583, 1607, 32, 1575, 1587, 1578,
    46, 32, 1604, 1591, 1601, 1575, 1611, 32, 1576, 1575, 32, 1662, 1588, 1578, 1740, 1576, 1575,
    1606, 1740, 32, 1578, 1605, 1575, 1587, 32, 1576, 1711, 1740, 1585, 1740, 1583, 46]"

definition MSG_INVITED :: ustr where
  "MSG_INVITED =
   [
    1578, 1576, 1585, 1740, 1705, 32, 127881, 32, 1583, 1587, 1578, 1585, 1587, 1740, 32, 1588,
    1605, 1575, 32, 1578, 1571, 1740, 1740, 1583, 32, 1588, 1583, 46, 10, 10, 1576, 1575, 32,
    1604, 1740, 1606, 1705, 32, 1586, 1740, 1585, 32, 1576, 1607, 32, 1705, 1575, 1606, 1575,
    1604, 32, 86, 73, 80, 32, 1576, 1662, 1740, 1608, 1606, 1583, 1740, 1583, 58, 10, 123, 105,
    110, 118, 105, 116, 101, 95, 108, 105, 110, 107, 125, 10, 10, 1575, 1740, 1606, 32, 1604,
    1740, 1606, 1705, 32, 1740, 1705, 8204, 1576, 1575, 1585, 1605, 1589, 1585, 1601, 32, 1575,
    1587, 1578, 32, 1608, 32, 1601, 1602, 1591, 32, 1576, 1585, 1575, 1740, 32, 1588, 1605, 1575,
    32, 1705, 1575, 1585, 32, 1605, 1740, 8204, 1705, 1606, 1583, 46]"

definition MSG_ALREADY_MEMBER :: ustr where
  "MSG_ALREADY_MEMBER =
   [
    1588, 1605, 1575, 32, 1607, 1605, 1670, 1606, 1575, 1606, 32, 1593, 1590, 1608, 32, 1601,
    1593, 1575, 1604, 32, 1705, 1575, 1606, 1575, 1604, 32, 86, 73, 80, 32, 1607, 1587, 1578,
    1740, 1583, 46, 10, 10, 1575, 1711, 1585, 32, 1576, 1607, 32, 1604, 1740, 1606, 1705, 32,
    1606, 1740, 1575, 1586, 32, 1583, 1575, 1585, 1740, 1583, 58, 10, 123, 105, 110, 118, 105,
    116, 101, 95, 108, 105, 110, 107, 125]"

definition COMPLIANCE_WARNING :: ustr where
  "COMPLIANCE_WARNING =
   [
    9888, 65039, 32, 1607, 1588, 1583, 1575, 1585, 32, 123, 119, 97, 114, 110, 105, 110, 103, 95,
    110, 117, 109, 98, 101, 114, 125, 32, 1575, 1586, 32, 123, 109, 97, 120, 95, 119, 97, 114,
    110, 105, 110, 103, 115, 125, 10, 10, 1588, 1585, 1575, 1740, 1591, 32, 1593, 1590, 1608,
    1740, 1578, 32, 1588, 1605, 1575, 32, 1583, 1585, 32, 1705, 1575, 1606, 1575, 1604, 32, 86,
    73, 80, 32, 1583, 1740, 1711, 1585, 32, 1576, 1585, 1602, 1585, 1575, 1585, 32, 1606, 1740,
    1587, 1578, 46, 10, 123, 114, 101, 97, 115, 111, 110, 95, 116, 101, 120, 116, 125, 10, 10,
    1583, 1585, 32, 1589, 1608, 1585, 1578, 32, 1593, 1583, 1605, 32, 1585, 1601, 1593, 1548, 32,
    1583, 1587, 1578, 1585, 1587, 1740, 32, 1588, 1605, 1575, 32, 1604, 1594, 1608, 32, 1582,
    1608, 1575, 1607, 1583, 32, 1588, 1583, 46]"

definition MEMBERSHIP_REVOKED :: ustr where
  "MEMBERSHIP_REVOKED =
   [
    1583, 1587, 1578, 1585, 1587, 1740, 32, 1588, 1605, 1575, 32, 1576, 1607, 32, 1705, 1575,
    1606, 1575, 1604, 32, 86, 73, 80, 32, 1604, 1594, 1608, 32, 1588, 1583, 46, 10, 10, 123, 114,
    101, 97, 115, 111, 110, 95, 116, 101, 120, 116, 125, 10, 10, 1662, 1587, 32, 1575, 1586, 32,
    1585, 1601, 1593, 32, 1588, 1585, 1575, 1740, 1591, 1548, 32, 1605, 1740, 8204, 1578, 1608,
    1575, 1606, 1740, 1583, 32, 1583, 1608, 1576, 1575, 1585, 1607, 32, 85, 73, 68, 32, 1582,
    1608, 1583, 32, 1585, 1575, 32, 1576, 1601, 1585, 1587, 1578, 1740, 1583, 32, 1578, 1575, 32,
    1576, 1585, 1585, 1587, 1740, 32, 1588, 1608, 1583, 46]"

definition MEMBERSHIP_RESTORED :: ustr where
  "MEMBERSHIP_RESTORED =
   [
    9989, 32, 1588, 1585, 1575, 1740, 1591, 32, 1593, 1590, 1608, 1740, 1578, 32, 1588, 1605,
    1575, 32, 1583, 1608, 1576, 1575, 1585, 1607, 32, 1576, 1585, 1602, 1585, 1575, 1585, 32,
    1588, 1583, 46, 32, 1607, 1588, 1583, 1575, 1585, 1607, 1575, 1740, 32, 1602, 1576, 1604,
    1740, 32, 1662, 1575, 1705, 32, 1588, 1583, 1606, 1583, 46]"

definition REASON_NOT_REGISTERED :: ustr where
  "REASON_NOT_REGISTERED =
   [
    1581, 1587, 1575, 1576, 32, 1588, 1605, 1575, 32, 1583, 1740, 1711, 1585, 32, 1586, 1740,
    1585, 1605, 1580, 1605, 1608, 1593, 1607, 32, 1585, 1601, 1585, 1575, 1604, 32, 1605, 1575,
    32, 1606, 1740, 1587, 1578, 46]"

definition REASON_INSUFFICIENT_BALANCE :: ustr where
  "REASON_INSUFFICIENT_BALANCE =
   [
    1605, 1608, 1580, 1608, 1583, 1740, 32, 1608, 1575, 1585, 1740, 1586, 1740, 32, 1588, 1605,
    1575, 32, 1576, 1607, 32, 1586, 1740, 1585, 32, 1581, 1583, 32, 1605, 1580, 1575, 1586, 32,
    1585, 1587, 1740, 1583, 1607, 32, 1575, 1587, 1578, 46]"

definition REASON_INSUFFICIENT_TRADING :: ustr where
  "REASON_INSUFFICIENT_TRADING =
   [
    1583, 1585, 32, 1583, 1608, 1585, 1607, 32, 1575, 1582, 1740, 1585, 32, 1605, 1593, 1575,
    1605, 1604, 1607, 32, 1608, 1575, 1580, 1583, 32, 1588, 1585, 1575, 1740, 1591, 32, 1579,
    1576, 1578, 32, 1606, 1588, 1583, 1607, 32, 1575, 1587, 1578, 46]"

definition REASON_TEXT :: "ustr \<rightharpoonup> ustr" where
  "REASON_TEXT = map_of
     [(asc ''NOT_REGISTERED'', REASON_NOT_REGISTERED),
      (asc ''INSUFFICIENT_BALANCE'', REASON_INSUFFICIENT_BALANCE),
      (asc ''INSUFFICIENT_TRADING'', REASON_INSUFFICIENT_TRADING)]"

text \<open>\<open>Decimal(1).scaleb(-places)\<close>, then \<open>value.quantize(quantum, ROUND_CEILING)\<close>, \<open>normalize\<close>
  and \<open>str\<close>. Quantising only looks at the exponent of the quantum.\<close>

definition scaleb_one :: "int \<Rightarrow> decimal res" where
  "scaleb_one n = (if \<bar>n\<bar> \<le> 2 * (emax + prec) then dec_fix False 1 n else Inl InvalidOperation)"

fun exponent_of :: "decimal \<Rightarrow> int" where
  "exponent_of (Fin s c e) = e"
| "exponent_of _ = 0"

definition format_amount :: "decimal \<Rightarrow> int \<Rightarrow> ustr res" where
  "format_amount v places =
     bindR (scaleb_one (- places)) (\<lambda>quantum.
     bindR (dec_quantize_ceiling v (exponent_of quantum)) (\<lambda>q.
     bindR (dec_normalize q) (\<lambda>n. Inr (dec_str n))))"

subsection \<open>Trailing zeros\<close>

lemma strip_zeros_pos:
  assumes "0 < c" "e \<le> emax" "strip_zeros c e = (c', e')"
  shows "0 < c' \<and> e \<le> e' \<and> e' \<le> emax \<and> c = c' * 10 ^ nat (e' - e) \<and>
    (c' mod 10 = 0 \<longrightarrow> e' = emax)"
  using assms
proof (induction c e rule: strip_zeros.induct)
  case (1 c e)
  show ?case
  proof (cases "c mod 10 = 0 \<and> e < emax")
    case True
    then have c: "c = c div 10 * 10" "0 < c div 10" using 1(2) by auto
    have "strip_zeros (c div 10) (e + 1) = (c', e')"
      using 1(4) True 1(2) by (subst (asm) strip_zeros.simps) simp
    from 1(1) [OF _ True c(2) _ this] True 1(2)
    have ih: "0 < c'" "e + 1 \<le> e'" "e' \<le> emax" "c div 10 = c' * 10 ^ nat (e' - (e + 1))"
        "c' mod 10 = 0 \<longrightarrow> e' = emax"
      by auto
    have "nat (e' - e) = Suc (nat (e' - (e + 1)))" using ih(2) by simp
    then have "c' * 10 ^ nat (e' - e) = c' * 10 ^ nat (e' - (e + 1)) * 10"
      by simp
    also have "\<dots> = c" using ih(4) c(1) by simp
    finally show ?thesis using ih by simp
  next
    case False
    then have "(c', e') = (c, e)" using 1(2,4) by (subst (asm) strip_zeros.simps) auto
    with False 1(2,3) show ?thesis by auto
  qed
qed

lemma normalize_fixed:
  assumes "dec_normalize (Fin s c e) = Inr d" "0 < c" "dec_fix s c e = Inr (Fin s c e)" "e \<le> emax"
  shows "\<exists>c' e'. d = Fin s c' e' \<and> 0 < c' \<and> e \<le> e' \<and> e' \<le> emax \<and> c = c' * 10 ^ nat (e' - e) \<and>
    (c' mod 10 = 0 \<longrightarrow> e' = emax)"
proof -
  obtain c' e' where st: "strip_zeros c e = (c', e')" by (cases "strip_zeros c e")
  have "dec_normalize (Fin s c e) = Inr (Fin s c' e')"
    unfolding dec_normalize.simps assms(3) by (simp add: st)
  with assms(1) have "d = Fin s c' e'" by simp
  from conjI [OF this strip_zeros_pos [OF assms(2,4) st]] show ?thesis by (intro exI)
qed

text \<open>Quantising to cents rounds up, by less than one cent.\<close>

lemma rescale_ceiling_bounds:
  assumes "e < e'"
  shows "of_int (sgn_int s * int c) * pow10 e \<le> of_int (sgn_int s * int (rescale_ceiling s c e e')) * pow10 e'"
    and "of_int (sgn_int s * int (rescale_ceiling s c e e')) * pow10 e' <
         of_int (sgn_int s * int c) * pow10 e + pow10 e'"
proof -
  define k where "k = nat (e' - e)"
  define q where "q = c div 10 ^ k"
  define r where "r = c mod 10 ^ k"
  have e': "e' = int k + e" using assms by (simp add: k_def)
  have c: "c = q * 10 ^ k + r"
    unfolding q_def r_def by (rule div_mult_mod_eq [symmetric])
  have r: "r < 10 ^ k" by (simp add: r_def)
  have rat_c: "(of_nat c :: rat) = of_nat q * 10 ^ k + of_nat r" by (subst c) simp
  have rat_r: "(of_nat r :: rat) < 10 ^ k"
    using r by (metis of_nat_less_iff of_nat_numeral of_nat_power)
  have rc: "rescale_ceiling s c e e' = (if \<not> s \<and> r \<noteq> 0 then q + 1 else q)"
    using assms by (simp add: rescale_ceiling_def k_def q_def r_def Let_def)
  have p: "pow10 e' = 10 ^ k * pow10 e" by (simp add: e' pow10_add pow10_nat)
  have le: "of_int (sgn_int s * int c) \<le>
      of_int (sgn_int s * int (rescale_ceiling s c e e')) * (10 ^ k :: rat)"
    unfolding rc using rat_r by (cases s) (auto simp: rat_c algebra_simps)
  have lt: "of_int (sgn_int s * int (rescale_ceiling s c e e')) * (10 ^ k :: rat) <
      of_int (sgn_int s * int c) + 10 ^ k"
    unfolding rc using rat_r by (cases s) (auto simp: rat_c algebra_simps)
  have "of_int (sgn_int s * int c) * pow10 e \<le>
      of_int (sgn_int s * int (rescale_ceiling s c e e')) * 10 ^ k * pow10 e"
    by (rule mult_right_mono [OF le]) (simp add: less_imp_le)
  then show "of_int (sgn_int s * int c) * pow10 e \<le>
      of_int (sgn_int s * int (rescale_ceiling s c e e')) * pow10 e'"
    by (simp add: p mult.assoc)
  have "of_int (sgn_int s * int (rescale_ceiling s c e e')) * 10 ^ k * pow10 e <
      (of_int (sgn_int s * int c) + 10 ^ k) * pow10 e"
    by (rule mult_strict_right_mono [OF lt]) simp
  then show "of_int (sgn_int s * int (rescale_ceiling s c e e')) * pow10 e' <
      of_int (sgn_int s * int c) * pow10 e + pow10 e'"
    by (simp add: p mult.assoc distrib_right)
qed

lemma scaleb_cents: "scaleb_one (- 2) = Inr (Fin False 1 (-2))"
  by (simp add: scaleb_one_def dec_fix_def ndigits.simps prec_def etop_def emax_def etiny_def
      emin_def)

lemma format_amount_cents:
  "format_amount v 2 =
     bindR (dec_quantize_ceiling v (-2)) (\<lambda>q. bindR (dec_normalize q) (\<lambda>n. Inr (dec_str n)))"
  by (simp add: format_amount_def scaleb_cents)

lemma pow10_cents: "pow10 (-2) = 1 / 100"
  by (simp add: pow10_def)

lemma pow10_shift_cents: "pow10 (int k - 2) = 10 ^ k / 100"
  using pow10_add [of "int k" "-2"] by (simp add: pow10_nat pow10_cents)

lemma fix_cents: "int (ndigits c) \<le> prec \<Longrightarrow> dec_fix s c (-2) = Inr (Fin s c (-2))"
  by (rule dec_fix_exact) (simp_all add: etiny_def emin_def prec_def etop_def emax_def)

lemma quantize_cents:
  assumes "dec_quantize_ceiling (Fin s c e) (-2) = Inr q"
  shows "\<exists>c'. q = Fin s c' (-2) \<and> int (ndigits c') \<le> prec \<and>
    dval (Fin s c e) \<le> dval q \<and> dval q < dval (Fin s c e) + 1 / 100"
proof (cases "c = 0")
  case True
  have "int (ndigits 0) \<le> prec" by (simp add: ndigits.simps prec_def)
  with assms True fix_cents [of 0 s] show ?thesis by (auto split: if_splits)
next
  case False
  define c' where "c' = rescale_ceiling s c e (-2)"
  have n: "int (ndigits c') \<le> prec" and q: "q = Fin s c' (-2)"
    using assms False fix_cents [of c' s] by (auto simp: Let_def simp flip: c'_def split: if_splits)
  have "dval (Fin s c e) \<le> dval q \<and> dval q < dval (Fin s c e) + 1 / 100"
  proof (cases "e < -2")
    case True
    then show ?thesis
      using rescale_ceiling_bounds [OF True, of s c] by (simp add: q c'_def pow10_cents)
  next
    case False
    define k where "k = nat (e + 2)"
    have e: "e = int k + -2" using False by (simp add: k_def)
    have "c' = c * 10 ^ k" using False by (simp add: c'_def rescale_ceiling_def k_def)
    then have "dval q = dval (Fin s c e)"
      unfolding q e by (simp add: pow10_shift_cents pow10_cents)
    then show ?thesis by simp
  qed
  with n q show ?thesis by blast
qed

lemma normalize_cents:
  assumes "dec_normalize (Fin s c (-2)) = Inr d" "int (ndigits c) \<le> prec"
  shows "\<exists>c' e'. d = Fin s c' e' \<and> dval d = dval (Fin s c (-2)) \<and>
    (0 < c \<longrightarrow> -2 \<le> e' \<and> (c' mod 10 = 0 \<longrightarrow> e' = emax))"
proof (cases "c = 0")
  case True
  with assms fix_cents [of 0 s] show ?thesis by (auto simp: strip_zeros.simps)
next
  case False
  have "-2 \<le> emax" by (simp add: emax_def)
  then obtain c' e' where d: "d = Fin s c' e'" "-2 \<le> e'" "c = c' * 10 ^ nat (e' - -2)"
      "c' mod 10 = 0 \<longrightarrow> e' = emax"
    using normalize_fixed [OF assms(1) _ fix_cents [OF assms(2)]] False by auto
  define k where "k = nat (e' - -2)"
  have "e' = int k + -2" using d(2) by (simp add: k_def)
  then have "dval d = dval (Fin s c (-2))"
    unfolding d(1,3) k_def [symmetric] by (simp add: pow10_shift_cents pow10_cents)
  with d(1,2,4) show ?thesis by (intro exI [of _ c'] exI [of _ e']) simp
qed

lemma digits_of_nonempty: "digits_of c \<noteq> []"
  by (subst digits_of.simps) simp

lemma dec_str_scientific: "0 < e \<Longrightarrow> 69 \<in> set (dec_str (Fin s c e))"
proof -
  assume e: "0 < e"
  have "0 < length (digits_of c)" using digits_of_nonempty [of c] by simp
  with e have "e + int (length (digits_of c)) \<noteq> 1" by linarith
  with e show ?thesis by (simp add: Let_def asc_def)
qed

declare dec_str.simps [simp del]

text \<open>The equations that evaluate an amount's text on concrete numbers.\<close>

lemmas format_eval = format_amount_cents rescale_ceiling_def fix_cents etiny_def emin_def etop_def
  emax_def prec_def ndigits.simps strip_zeros.simps dec_str.simps digits_of.simps int_str_def
  asc_def Let_def dec_fix_def half_even_def

subsection \<open>Properties\<close>

text \<open>C23. An amount shown to a member is never below the true amount and less than one cent above it:
  the shown text is the decimal text of a number in that range.\<close>

theorem format_amount_rounds_up:
  assumes "is_finite v" "format_amount v 2 = Inr t"
  shows "\<exists>q. t = dec_str q \<and> is_finite q \<and> dval v \<le> dval q \<and> dval q < dval v + 1 / 100"
proof -
  obtain s c e where v: "v = Fin s c e" using assms(1) by (cases v) auto
  obtain q n where qn: "dec_quantize_ceiling (Fin s c e) (-2) = Inr q" "dec_normalize q = Inr n"
      "t = dec_str n"
    using assms(2) by (auto simp: format_amount_cents v res_simps)
  from quantize_cents [OF qn(1)] obtain c' where
    q: "q = Fin s c' (-2)" "int (ndigits c') \<le> prec" "dval v \<le> dval q" "dval q < dval v + 1 / 100"
    unfolding v by blast
  from normalize_cents [OF qn(2) [unfolded q(1)] q(2)] obtain c2 e2 where
    n: "n = Fin s c2 e2" "dval n = dval q"
    unfolding q(1) by (elim exE conjE) simp
  have "t = dec_str n \<and> is_finite n \<and> dval v \<le> dval n \<and> dval n < dval v + 1 / 100"
    using qn(3) q(3,4) n(1) unfolding n(2) by simp
  then show ?thesis by blast
qed

theorem format_amount_rounds_up_witness:
  "\<exists>t. format_amount (Fin False 100001 (-3)) 2 = Inr t \<and> t = asc ''100.01''"
proof -
  have t: "format_amount (Fin False 100001 (-3)) 2 = Inr (asc ''100.01'')"
    by (simp add: format_eval)
  then show ?thesis using format_amount_rounds_up [OF _ t] by simp
qed

text \<open>C24. The amounts a member sees most are shown in scientific notation: every positive multiple of
  ten, such as the default minimum of 300, is printed with an exponent (300 as 3E+2), because
  normalising drops the zeros before the text is made.\<close>

theorem format_amount_multiple_of_ten_is_scientific:
  assumes "is_finite v" "format_amount v 2 = Inr t" "dval v = 10 * of_nat k" "0 < k"
  shows "69 \<in> set t"
proof -
  obtain s c e where v: "v = Fin s c e" using assms(1) by (cases v) auto
  obtain q n where qn: "dec_quantize_ceiling (Fin s c e) (-2) = Inr q" "dec_normalize q = Inr n"
      "t = dec_str n"
    using assms(2) by (auto simp: format_amount_cents v res_simps)
  from quantize_cents [OF qn(1)] obtain c' where
    q: "q = Fin s c' (-2)" "int (ndigits c') \<le> prec" "dval v \<le> dval q" "dval q < dval v + 1 / 100"
    unfolding v by blast
  have "0 < dval v" using assms(3,4) by simp
  with q(3) have "0 < of_int (sgn_int s * int c') * pow10 (-2)" unfolding q(1) by simp
  then have "(0::rat) < of_int (sgn_int s * int c')" by (rule zero_less_mult_pos2) (rule pow10_pos)
  then have pos: "\<not> s" "0 < c'" by (cases s; simp)+
  have "of_nat c' \<ge> (of_nat (1000 * k) :: rat)" "of_nat c' < (of_nat (1000 * k + 1) :: rat)"
    using q assms(3) pos by (simp_all add: pow10_cents field_simps)
  then have c': "c' = 1000 * k" by (simp only: of_nat_le_iff of_nat_less_iff)
  from normalize_cents [OF qn(2) [unfolded q(1)] q(2)] pos(2) obtain c2 e2 where
    n: "n = Fin s c2 e2" "dval n = dval (Fin s c' (-2))" "-2 \<le> e2"
      "c2 mod 10 = 0 \<longrightarrow> e2 = emax"
    by (elim exE conjE) simp
  have "0 < e2"
  proof (rule ccontr)
    assume "\<not> 0 < e2"
    define j where "j = nat (e2 + 2)"
    have e2: "e2 = int j + -2" using n(3) by (simp add: j_def)
    have j: "j \<le> 2" using \<open>\<not> 0 < e2\<close> by (simp add: j_def)
    have "(of_nat (c2 * 10 ^ j) :: rat) = of_nat c'"
      using n(2) pos unfolding n(1) e2
      by (simp add: pow10_shift_cents pow10_cents)
    then have "c2 * 10 ^ j = 1000 * k" by (simp only: of_nat_eq_iff c')
    moreover have "j = 0 \<or> j = 1 \<or> j = 2" using j by arith
    ultimately have "c2 mod 10 = 0" by auto
    with n(4) \<open>\<not> 0 < e2\<close> show False by (simp add: emax_def)
  qed
  then show ?thesis using dec_str_scientific n(1) qn(3) by simp
qed

theorem format_amount_multiple_of_ten_is_scientific_witness:
  "format_amount (Fin False 300 0) 2 = Inr (asc ''3E+2'') \<and> 69 \<in> set (asc ''3E+2'')"
proof -
  have t: "format_amount (Fin False 300 0) 2 = Inr (asc ''3E+2'')"
    by (simp add: format_eval)
  have "dval (Fin False 300 0) = 10 * of_nat 30" by (simp add: pow10_def)
  then show ?thesis
    using t format_amount_multiple_of_ten_is_scientific [OF _ t, of 30] by simp
qed

end
