(* ===== verification/Enums.thy ===== *)
theory Enums
  imports Prelude
begin

text \<open>
  The domain vocabulary of \<open>app/domain/enums.py\<close>, and the enumerations of the two rule modules
  and of the provider ports. A member shared by two enumerations of the source carries the
  initials of its enumeration here. The \<open>_value\<close> functions give a member's string, where the
  code stores or prints it.
\<close>

datatype market = CRYPTO | FOREX

datatype access_type = AT_REFERRAL | AT_PAID | AT_TRIAL

datatype subscription_status = SS_PENDING | SS_ACTIVE | SS_EXPIRED | SS_CANCELLED

datatype membership_status =
  MS_PENDING | MS_INVITED | MS_ACTIVE | MS_SUSPENDED | MS_EXPIRED | MS_REVOKED

datatype referral_account_status = UNVERIFIED | VERIFIED | REJECTED

datatype compliance_state =
    CS_COMPLIANT | CS_WARNING | CS_NON_COMPLIANT | CS_SUSPENDED | CS_REVOKED
  | CS_PROVIDER_UNAVAILABLE | CS_VERIFICATION_PENDING

datatype provider_type = BITUNIX | EPLANET | TELEGRAM

datatype job_run_state = RUNNING | SUCCEEDED | FAILED

datatype chat_member_status =
  CREATOR | ADMINISTRATOR | MEMBER | RESTRICTED | LEFT | KICKED

datatype eligibility_reason =
    ELIGIBLE | NOT_REGISTERED | INSUFFICIENT_BALANCE | INSUFFICIENT_TRADING
  | ER_PROVIDER_UNAVAILABLE

datatype compliance_action = NONE | WARN | REVOKE | RESTORE

datatype compliance_skip_reason =
    STILL_COMPLIANT | CSR_PROVIDER_UNAVAILABLE | ONBOARDING_GRACE
  | WARNING_INTERVAL_NOT_ELAPSED | NOT_AN_ACTIVE_MEMBERSHIP

fun market_value :: "market \<Rightarrow> ustr" where
  "market_value CRYPTO = asc ''CRYPTO''"
| "market_value FOREX = asc ''FOREX''"

text \<open>\<open>Market(raw)\<close>: the member with that value, or \<open>ValueError\<close>.\<close>

definition market_of :: "ustr \<Rightarrow> market res" where
  "market_of raw =
     (if raw = market_value CRYPTO then Inr CRYPTO
      else if raw = market_value FOREX then Inr FOREX
      else Inl ValueError)"

fun provider_type_value :: "provider_type \<Rightarrow> ustr" where
  "provider_type_value BITUNIX = asc ''BITUNIX''"
| "provider_type_value EPLANET = asc ''EPLANET''"
| "provider_type_value TELEGRAM = asc ''TELEGRAM''"

fun eligibility_reason_value :: "eligibility_reason \<Rightarrow> ustr" where
  "eligibility_reason_value ELIGIBLE = asc ''ELIGIBLE''"
| "eligibility_reason_value NOT_REGISTERED = asc ''NOT_REGISTERED''"
| "eligibility_reason_value INSUFFICIENT_BALANCE = asc ''INSUFFICIENT_BALANCE''"
| "eligibility_reason_value INSUFFICIENT_TRADING = asc ''INSUFFICIENT_TRADING''"
| "eligibility_reason_value ER_PROVIDER_UNAVAILABLE = asc ''PROVIDER_UNAVAILABLE''"

text \<open>\<open>ChatMemberStatus.is_present\<close>, and the member with a given Telegram value.\<close>

definition is_present :: "chat_member_status \<Rightarrow> bool" where
  "is_present s \<longleftrightarrow> s \<in> {CREATOR, ADMINISTRATOR, MEMBER, RESTRICTED}"

fun chat_member_status_value :: "chat_member_status \<Rightarrow> ustr" where
  "chat_member_status_value CREATOR = asc ''creator''"
| "chat_member_status_value ADMINISTRATOR = asc ''administrator''"
| "chat_member_status_value MEMBER = asc ''member''"
| "chat_member_status_value RESTRICTED = asc ''restricted''"
| "chat_member_status_value LEFT = asc ''left''"
| "chat_member_status_value KICKED = asc ''kicked''"

definition all_chat_member_statuses :: "chat_member_status list" where
  "all_chat_member_statuses = [CREATOR, ADMINISTRATOR, MEMBER, RESTRICTED, LEFT, KICKED]"

definition chat_member_status_of :: "ustr \<Rightarrow> chat_member_status res" where
  "chat_member_status_of raw =
     (case find_first (\<lambda>s. chat_member_status_value s = raw) all_chat_member_statuses of
        None \<Rightarrow> Inl ValueError
      | Some s \<Rightarrow> Inr s)"

text \<open>The order Python's \<open>sorted\<close> gives the markets: by their string values.\<close>

instantiation market :: linorder
begin

definition less_eq_market :: "market \<Rightarrow> market \<Rightarrow> bool" where
  "less_eq_market a b \<longleftrightarrow> a = CRYPTO \<or> b = FOREX"

definition less_market :: "market \<Rightarrow> market \<Rightarrow> bool" where
  "less_market a b \<longleftrightarrow> a = CRYPTO \<and> b = FOREX"

instance
proof
  fix x y z :: market
  show "x < y \<longleftrightarrow> x \<le> y \<and> \<not> y \<le> x"
    by (cases x; cases y) (auto simp: less_eq_market_def less_market_def)
  show "x \<le> x" by (cases x) (auto simp: less_eq_market_def)
  show "x \<le> y \<Longrightarrow> y \<le> z \<Longrightarrow> x \<le> z"
    by (cases x; cases y; cases z) (auto simp: less_eq_market_def)
  show "x \<le> y \<Longrightarrow> y \<le> x \<Longrightarrow> x = y"
    by (cases x; cases y) (auto simp: less_eq_market_def)
  show "x \<le> y \<or> y \<le> x" by (cases x; cases y) (auto simp: less_eq_market_def)
qed

end

lemma market_of_value [simp]: "market_of (market_value m) = Inr m"
  by (cases m) (simp_all add: market_of_def asc_def)

lemma market_of_Inr: "market_of raw = Inr m \<Longrightarrow> raw = market_value m"
  by (auto simp: market_of_def split: if_splits)

lemma chat_member_status_of_value [simp]:
  "chat_member_status_of (chat_member_status_value s) = Inr s"
  by (cases s)
    (simp_all add: chat_member_status_of_def all_chat_member_statuses_def find_first_def asc_def)

end
