(* ===== verification/PyTime.thy ===== *)
theory PyTime
  imports Prelude
begin

text \<open>
  The part of Python's \<open>datetime\<close> the program uses. A moment is a number of microseconds since
  1970-01-01T00:00; it is aware (its time zone is UTC, as every moment made by \<open>utcnow\<close> is) or
  naive. Comparing a naive moment with an aware one raises \<open>TypeError\<close>, and a sum outside the
  years 1 to 9999 raises \<open>OverflowError\<close>, as in Python. A \<open>timedelta\<close> is its number of
  microseconds.
\<close>

datatype datetime = Naive int | Aware int

fun micros :: "datetime \<Rightarrow> int" where
  "micros (Naive t) = t"
| "micros (Aware t) = t"

fun is_aware :: "datetime \<Rightarrow> bool" where
  "is_aware (Naive t) = False"
| "is_aware (Aware t) = True"

definition datetime_min :: int where "datetime_min = -62135596800000000"

definition datetime_max :: int where "datetime_max = 253402300799999999"

definition micros_per_second :: int where "micros_per_second = 1000000"

definition micros_per_day :: int where "micros_per_day = 86400000000"

definition in_range :: "int \<Rightarrow> bool" where
  "in_range t \<longleftrightarrow> datetime_min \<le> t \<and> t \<le> datetime_max"

text \<open>\<open>timedelta(days=d)\<close>: the magnitude is at most 999999999 days.\<close>

definition timedelta_days :: "int \<Rightarrow> int res" where
  "timedelta_days d = (if \<bar>d\<bar> \<le> 999999999 then Inr (d * micros_per_day) else Inl OverflowError)"

fun dt_add :: "datetime \<Rightarrow> int \<Rightarrow> datetime res" where
  "dt_add (Naive t) d = (if in_range (t + d) then Inr (Naive (t + d)) else Inl OverflowError)"
| "dt_add (Aware t) d = (if in_range (t + d) then Inr (Aware (t + d)) else Inl OverflowError)"

fun dt_lt :: "datetime \<Rightarrow> datetime \<Rightarrow> bool res" where
  "dt_lt (Naive s) (Naive t) = Inr (s < t)"
| "dt_lt (Aware s) (Aware t) = Inr (s < t)"
| "dt_lt _ _ = Inl TypeError"

fun dt_le :: "datetime \<Rightarrow> datetime \<Rightarrow> bool res" where
  "dt_le (Naive s) (Naive t) = Inr (s \<le> t)"
| "dt_le (Aware s) (Aware t) = Inr (s \<le> t)"
| "dt_le _ _ = Inl TypeError"

text \<open>\<open>moment if moment.tzinfo is not None else moment.replace(tzinfo=UTC)\<close>, used in
  several places: a naive moment is read as UTC.\<close>

fun as_utc :: "datetime \<Rightarrow> datetime" where
  "as_utc (Naive t) = Aware t"
| "as_utc (Aware t) = Aware t"

lemma as_utc_aware [simp]: "is_aware (as_utc m)" by (cases m) auto

lemma micros_as_utc [simp]: "micros (as_utc m) = micros m" by (cases m) auto

lemma as_utc_idem [simp]: "as_utc (as_utc m) = as_utc m" by (cases m) auto

lemma as_utc_eq: "as_utc m = Aware (micros m)" by (cases m) auto

lemma dt_add_Inr:
  "dt_add m d = Inr m' \<longleftrightarrow> in_range (micros m + d) \<and> micros m' = micros m + d \<and>
     is_aware m' = is_aware m"
  by (cases m; cases m') auto

lemma dt_lt_aware: "is_aware a \<Longrightarrow> is_aware b \<Longrightarrow> dt_lt a b = Inr (micros a < micros b)"
  by (cases a; cases b) auto

lemma dt_le_aware: "is_aware a \<Longrightarrow> is_aware b \<Longrightarrow> dt_le a b = Inr (micros a \<le> micros b)"
  by (cases a; cases b) auto

lemma dt_lt_Inr:
  "dt_lt a b = Inr r \<longleftrightarrow> is_aware a = is_aware b \<and> r = (micros a < micros b)"
  by (cases a; cases b) auto

lemma dt_le_Inr:
  "dt_le a b = Inr r \<longleftrightarrow> is_aware a = is_aware b \<and> r = (micros a \<le> micros b)"
  by (cases a; cases b) auto

end
