(* ===== verification/Models.thy ===== *)
theory Models
  imports Enums PyTime PyDecimal
begin

text \<open>
  The persistent rows of \<open>app/adapters/persistence/models\<close>. \<open>entity\<close> is \<open>TimestampedEntity\<close> and
  \<open>scoped\<close> adds the \<open>tenant_id\<close> column of \<open>TenantScoped\<close>; every tenant-scoped model extends
  \<open>scoped\<close>, so an operation written for \<open>'a scoped_scheme\<close> works on every such table, as the
  generic repository does. Columns that several tables share carry a short prefix. The
  \<open>updated_at\<close> column, which nothing decides on, is left out, as are column widths and types.
\<close>

record entity =
  row_id :: uuid
  created_at :: datetime

record scoped = entity +
  tenant_id :: uuid

record tenant = entity +
  tenant_name :: ustr
  slug :: ustr
  tenant_is_active :: bool

record telegram_user = scoped +
  telegram_user_id :: int
  pending_market :: "market option"
  username :: "ustr option"
  first_name :: "ustr option"
  language_code :: "ustr option"

record referral_account = scoped +
  acc_user_id :: uuid
  acc_provider_type :: provider_type
  acc_market :: market
  uid :: ustr
  acc_status :: referral_account_status
  compliance_state :: compliance_state
  last_known_balance :: "decimal option"
  last_checked_at :: "datetime option"
  verified_at :: "datetime option"
  rejection_reason :: "ustr option"

record subscription = scoped +
  sub_user_id :: uuid
  sub_market :: market
  access_type :: access_type
  plan_code :: ustr
  sub_status :: subscription_status
  starts_at :: "datetime option"
  ends_at :: "datetime option"
  source_reference :: "ustr option"

record vip_membership = scoped +
  mem_user_id :: uuid
  channel_id :: uuid
  subscription_id :: "uuid option"
  mem_status :: membership_status
  invite_link :: "ustr option"
  invite_issued_at :: "datetime option"
  joined_at :: "datetime option"
  revoked_at :: "datetime option"
  revocation_reason :: "ustr option"
  warnings_sent :: int
  last_warning_at :: "datetime option"

record trading_activity_snapshot = scoped +
  referral_account_id :: uuid
  snap_period_start :: datetime
  snap_period_end :: datetime
  snap_qualifying_trades :: int
  snap_balance :: "decimal option"
  still_under_referral :: "bool option"
  provider_state :: compliance_state

record job_execution = scoped +
  job_name :: ustr
  job_period_start :: datetime
  job_state :: job_run_state
  started_at :: "datetime option"
  finished_at :: "datetime option"
  job_processed :: int
  job_warned :: int
  job_revoked :: int
  job_skipped_unavailable :: int
  job_error :: "ustr option"

record referral_program_config = scoped +
  cfg_provider_type :: provider_type
  cfg_market :: market
  referral_link :: ustr
  ib_id :: "ustr option"
  cfg_minimum_balance :: decimal
  cfg_minimum_trades_per_period :: int
  cfg_trade_period_days :: int
  compliance_grace_period_days :: int
  cfg_is_active :: bool

record telegram_channel = scoped +
  ch_market :: market
  chat_id :: int
  title :: "ustr option"
  ch_is_active :: bool

record telegram_bot_config = scoped +
  credential_id :: uuid
  bot_username :: "ustr option"
  bot_verified_at :: "datetime option"

record provider_credential = scoped +
  cred_provider_type :: provider_type
  credential_name :: ustr
  encrypted_secret :: ustr
  cred_last_four :: "ustr option"
  cred_verified_at :: "datetime option"

record payment_record = scoped +
  pay_user_id :: uuid
  tx_hash :: ustr
  amount :: decimal
  currency :: ustr
  pay_status :: ustr

record webhook_route = entity +
  token :: ustr
  route_tenant_id :: uuid
  provider :: ustr

end
