(* ===== verification/Effects.thy ===== *)
theory Effects
  imports Prelude
begin

text \<open>
  Effectful code: an action takes the world and returns a result or an exception together with
  the world it leaves behind. An exception does not undo what happened before it, as in Python;
  only a database rollback undoes database writes.

  \<open>keeps R m\<close> says that the action \<open>m\<close> relates the world before to the world after by \<open>R\<close>, on
  every path, exceptions included. The locale \<open>world_relation\<close> gives, for any reflexive and
  transitive \<open>R\<close>, the rules that carry it through the combinators; it is interpreted for each
  such \<open>R\<close> the components need (no other tenant's row changes, unique keys stay unique, nothing is
  sent).
\<close>

type_synonym ('w, 'a) action = "'w \<Rightarrow> 'a res \<times> 'w"

definition retA :: "'a \<Rightarrow> ('w, 'a) action" where
  "retA x = (\<lambda>w. (Inr x, w))"

definition raiseA :: "exn \<Rightarrow> ('w, 'a) action" where
  "raiseA e = (\<lambda>w. (Inl e, w))"

definition liftR :: "'a res \<Rightarrow> ('w, 'a) action" where
  "liftR r = (\<lambda>w. (r, w))"

definition bindA :: "('w, 'a) action \<Rightarrow> ('a \<Rightarrow> ('w, 'b) action) \<Rightarrow> ('w, 'b) action" where
  "bindA m f = (\<lambda>w. case m w of (Inl e, w') \<Rightarrow> (Inl e, w') | (Inr x, w') \<Rightarrow> f x w')"

definition thenA :: "('w, 'a) action \<Rightarrow> ('w, 'b) action \<Rightarrow> ('w, 'b) action" where
  "thenA m n = bindA m (\<lambda>_. n)"

definition readA :: "('w \<Rightarrow> 'a) \<Rightarrow> ('w, 'a) action" where
  "readA f = (\<lambda>w. (Inr (f w), w))"

definition writeA :: "('w \<Rightarrow> 'w) \<Rightarrow> ('w, unit) action" where
  "writeA f = (\<lambda>w. (Inr (), f w))"

text \<open>\<open>try: m except ...\<close>: the handler gives the action for an exception it catches, \<open>None\<close> for
  one it lets through.\<close>

definition tryA ::
  "('w, 'a) action \<Rightarrow> (exn \<Rightarrow> ('w, 'a) action option) \<Rightarrow> ('w, 'a) action" where
  "tryA m h = (\<lambda>w. case m w of
      (Inl e, w') \<Rightarrow> (case h e of None \<Rightarrow> (Inl e, w') | Some k \<Rightarrow> k w')
    | (Inr x, w') \<Rightarrow> (Inr x, w'))"

text \<open>\<open>for x in xs: f(x)\<close> with a loop state threaded through.\<close>

fun foldA :: "('a \<Rightarrow> 's \<Rightarrow> ('w, 's) action) \<Rightarrow> 'a list \<Rightarrow> 's \<Rightarrow> ('w, 's) action" where
  "foldA f [] s = retA s"
| "foldA f (x # xs) s = bindA (f x s) (foldA f xs)"

definition whenA :: "bool \<Rightarrow> ('w, unit) action \<Rightarrow> ('w, unit) action" where
  "whenA b m = (if b then m else retA ())"

subsection \<open>Running\<close>

lemma retA_run [simp]: "retA x w = (Inr x, w)"
  by (simp add: retA_def)

lemma raiseA_run [simp]: "raiseA e w = (Inl e, w)"
  by (simp add: raiseA_def)

lemma liftR_run [simp]: "liftR r w = (r, w)"
  by (simp add: liftR_def)

lemma readA_run [simp]: "readA f w = (Inr (f w), w)"
  by (simp add: readA_def)

lemma writeA_run [simp]: "writeA f w = (Inr (), f w)"
  by (simp add: writeA_def)

lemma bindA_Inr: "m w = (Inr x, w') \<Longrightarrow> bindA m f w = f x w'"
  by (simp add: bindA_def)

lemma bindA_Inl: "m w = (Inl e, w') \<Longrightarrow> bindA m f w = (Inl e, w')"
  by (simp add: bindA_def)

lemma bindA_eq_Inr:
  "bindA m f w = (Inr y, w'') \<longleftrightarrow> (\<exists>x w'. m w = (Inr x, w') \<and> f x w' = (Inr y, w''))"
  by (auto simp: bindA_def split: prod.splits sum.splits)

lemma bindA_eq_Inl:
  "bindA m f w = (Inl e, w'') \<longleftrightarrow>
     m w = (Inl e, w'') \<or> (\<exists>x w'. m w = (Inr x, w') \<and> f x w' = (Inl e, w''))"
  by (auto simp: bindA_def split: prod.splits sum.splits)

lemma thenA_run: "thenA m n w = bindA m (\<lambda>_. n) w"
  by (simp add: thenA_def)

lemma tryA_Inr: "m w = (Inr x, w') \<Longrightarrow> tryA m h w = (Inr x, w')"
  by (simp add: tryA_def)

lemma tryA_Inl:
  "m w = (Inl e, w') \<Longrightarrow> tryA m h w = (case h e of None \<Rightarrow> (Inl e, w') | Some k \<Rightarrow> k w')"
  by (simp add: tryA_def)

lemma whenA_run [simp]: "whenA b m w = (if b then m w else (Inr (), w))"
  by (simp add: whenA_def)

lemma bindA_retA [simp]: "bindA (retA x) f = f x"
  by (simp add: bindA_def retA_def)

lemma bindA_raiseA [simp]: "bindA (raiseA e) f = raiseA e"
  by (simp add: bindA_def raiseA_def)

lemma bindA_assoc: "bindA (bindA m f) g = bindA m (\<lambda>x. bindA (f x) g)"
  by (auto simp: bindA_def fun_eq_iff split: prod.splits sum.splits)

lemma bindA_liftR: "bindA (liftR r) f = (case r of Inl e \<Rightarrow> raiseA e | Inr x \<Rightarrow> f x)"
  by (auto simp: bindA_def fun_eq_iff split: sum.splits)

subsection \<open>Relations kept on every path\<close>

definition keeps :: "('w \<Rightarrow> 'w \<Rightarrow> bool) \<Rightarrow> ('w, 'a) action \<Rightarrow> bool" where
  "keeps R m \<longleftrightarrow> (\<forall>w. R w (snd (m w)))"

lemma keepsI: "(\<And>w r w'. m w = (r, w') \<Longrightarrow> R w w') \<Longrightarrow> keeps R m"
  by (metis keeps_def prod.collapse)

lemma keepsD: "keeps R m \<Longrightarrow> m w = (r, w') \<Longrightarrow> R w w'"
  by (metis keeps_def snd_conv)

text \<open>The same, only for runs that return a result of which \<open>P\<close> holds.\<close>

definition keeps_when :: "('a \<Rightarrow> bool) \<Rightarrow> ('w \<Rightarrow> 'w \<Rightarrow> bool) \<Rightarrow> ('w, 'a) action \<Rightarrow> bool" where
  "keeps_when P R m \<longleftrightarrow> (\<forall>w x w'. m w = (Inr x, w') \<longrightarrow> P x \<longrightarrow> R w w')"

lemma keeps_whenD: "keeps_when P R m \<Longrightarrow> m w = (Inr x, w') \<Longrightarrow> P x \<Longrightarrow> R w w'"
  by (simp add: keeps_when_def)

lemma keeps_whenI: "keeps R m \<Longrightarrow> keeps_when P R m"
  by (auto simp: keeps_when_def dest: keepsD)

subsection \<open>What is returned\<close>

definition returns :: "('a \<Rightarrow> bool) \<Rightarrow> ('w, 'a) action \<Rightarrow> bool" where
  "returns P m \<longleftrightarrow> (\<forall>w x w'. m w = (Inr x, w') \<longrightarrow> P x)"

named_theorems returns_rules

lemma returnsD: "returns P m \<Longrightarrow> m w = (Inr x, w') \<Longrightarrow> P x"
  unfolding returns_def by blast

lemma returns_retA [returns_rules]: "P x \<Longrightarrow> returns P (retA x)"
  by (simp add: returns_def)

lemma returns_raiseA [returns_rules]: "returns P (raiseA e)"
  by (simp add: returns_def)

lemma returns_bindA [returns_rules]: "(\<And>x. returns P (f x)) \<Longrightarrow> returns P (bindA m f)"
  unfolding returns_def bindA_eq_Inr by blast

lemma returns_thenA [returns_rules]: "returns P n \<Longrightarrow> returns P (thenA m n)"
  by (simp add: thenA_def returns_bindA)

lemma returns_if [returns_rules]:
  "(b \<Longrightarrow> returns P m) \<Longrightarrow> (\<not> b \<Longrightarrow> returns P n) \<Longrightarrow> returns P (if b then m else n)"
  by simp

lemma returns_case_option [returns_rules]:
  "(x = None \<Longrightarrow> returns P m) \<Longrightarrow> (\<And>y. x = Some y \<Longrightarrow> returns P (n y)) \<Longrightarrow>
     returns P (case x of None \<Rightarrow> m | Some y \<Rightarrow> n y)"
  by (cases x) simp_all

lemma returns_case_list [returns_rules]:
  "(x = [] \<Longrightarrow> returns P m) \<Longrightarrow> (\<And>y ys. x = y # ys \<Longrightarrow> returns P (n y ys)) \<Longrightarrow>
     returns P (case x of [] \<Rightarrow> m | y # ys \<Rightarrow> n y ys)"
  by (cases x) simp_all

text \<open>The rules below, for every relation that is interpreted, and the rules of the session's and the
  repositories' operations.\<close>

named_theorems keeps_rules

locale world_relation =
  fixes R :: "'w \<Rightarrow> 'w \<Rightarrow> bool"
  assumes rel_refl: "R w w"
    and rel_trans: "R u v \<Longrightarrow> R v w \<Longrightarrow> R u w"
begin

lemma keeps_retA [keeps_rules]: "keeps R (retA x)"
  by (simp add: keeps_def rel_refl)

lemma keeps_raiseA [keeps_rules]: "keeps R (raiseA e)"
  by (simp add: keeps_def rel_refl)

lemma keeps_liftR [keeps_rules]: "keeps R (liftR r)"
  by (simp add: keeps_def rel_refl)

lemma keeps_readA [keeps_rules]: "keeps R (readA f)"
  by (simp add: keeps_def rel_refl)

lemma keeps_bindA [keeps_rules]:
  "keeps R m \<Longrightarrow> (\<And>x. keeps R (f x)) \<Longrightarrow> keeps R (bindA m f)"
proof (rule keepsI)
  fix w r w'
  assume m: "keeps R m" and f: "\<And>x. keeps R (f x)" and run: "bindA m f w = (r, w')"
  show "R w w'"
  proof (cases "m w")
    case (Pair q v)
    have first: "R w v" using m Pair by (rule keepsD)
    show ?thesis
    proof (cases q)
      case (Inl e)
      with Pair run first show ?thesis by (simp add: bindA_def)
    next
      case (Inr x)
      with Pair run have "f x v = (r, w')" by (simp add: bindA_def)
      with f have "R v w'" by (rule keepsD)
      with first show ?thesis by (rule rel_trans)
    qed
  qed
qed

lemma keeps_thenA [keeps_rules]: "keeps R m \<Longrightarrow> keeps R n \<Longrightarrow> keeps R (thenA m n)"
  by (simp add: thenA_def keeps_bindA)

lemma keeps_tryA [keeps_rules]:
  "keeps R m \<Longrightarrow> (\<And>e k. h e = Some k \<Longrightarrow> keeps R k) \<Longrightarrow> keeps R (tryA m h)"
proof (rule keepsI)
  fix w r w'
  assume m: "keeps R m" and h: "\<And>e k. h e = Some k \<Longrightarrow> keeps R k"
    and run: "tryA m h w = (r, w')"
  show "R w w'"
  proof (cases "m w")
    case (Pair q v)
    have first: "R w v" using m Pair by (rule keepsD)
    show ?thesis
    proof (cases "\<exists>e k. q = Inl e \<and> h e = Some k")
      case True
      then obtain e k where "q = Inl e" "h e = Some k" by blast
      with Pair run have "k v = (r, w')" by (simp add: tryA_def)
      with h [OF \<open>h e = Some k\<close>] have "R v w'" by (rule keepsD)
      with first show ?thesis by (rule rel_trans)
    next
      case False
      with Pair run have "w' = v" by (auto simp: tryA_def split: sum.splits option.splits)
      with first show ?thesis by simp
    qed
  qed
qed

lemma keeps_whenA [keeps_rules]: "keeps R m \<Longrightarrow> keeps R (whenA b m)"
  by (simp add: whenA_def keeps_retA)

lemma keeps_foldA [keeps_rules]:
  "(\<And>x s. x \<in> set xs \<Longrightarrow> keeps R (f x s)) \<Longrightarrow> keeps R (foldA f xs s)"
  by (induction xs arbitrary: s) (auto intro: keeps_bindA keeps_retA)

lemma keeps_if [keeps_rules]:
  "(b \<Longrightarrow> keeps R m) \<Longrightarrow> (\<not> b \<Longrightarrow> keeps R n) \<Longrightarrow> keeps R (if b then m else n)"
  by simp

lemma keeps_case_option [keeps_rules]:
  "(x = None \<Longrightarrow> keeps R m) \<Longrightarrow> (\<And>y. x = Some y \<Longrightarrow> keeps R (n y)) \<Longrightarrow>
     keeps R (case x of None \<Rightarrow> m | Some y \<Rightarrow> n y)"
  by (cases x) simp_all

lemma keeps_case_sum [keeps_rules]:
  "(\<And>y. x = Inl y \<Longrightarrow> keeps R (m y)) \<Longrightarrow> (\<And>y. x = Inr y \<Longrightarrow> keeps R (n y)) \<Longrightarrow>
     keeps R (case x of Inl y \<Rightarrow> m y | Inr y \<Rightarrow> n y)"
  by (cases x) simp_all

lemma keeps_case_list [keeps_rules]:
  "(x = [] \<Longrightarrow> keeps R m) \<Longrightarrow> (\<And>y ys. x = y # ys \<Longrightarrow> keeps R (n y ys)) \<Longrightarrow>
     keeps R (case x of [] \<Rightarrow> m | y # ys \<Rightarrow> n y ys)"
  by (cases x) simp_all

lemma keeps_Let [keeps_rules]: "(\<And>x. keeps R (f x)) \<Longrightarrow> keeps R (let x = t in f x)"
  by simp

text \<open>The same for one run, of which only the rest keeps the relation whatever the state.\<close>

lemma rel_bindA:
  assumes "bindA m f w = (r, w')" and "\<And>q v. m w = (q, v) \<Longrightarrow> R w v"
    and "\<And>x v q u. m w = (Inr x, v) \<Longrightarrow> f x v = (q, u) \<Longrightarrow> R v u"
  shows "R w w'"
proof -
  obtain q v where m: "m w = (q, v)" by fastforce
  with assms(2) have first: "R w v" .
  show ?thesis
  proof (cases q)
    case (Inr x)
    with assms(1) m have "f x v = (r, w')" by (simp add: bindA_def)
    with m Inr assms(3) first show ?thesis by (blast intro: rel_trans)
  qed (use assms(1) m first in \<open>simp add: bindA_def\<close>)
qed

lemma rel_tryA:
  assumes "tryA m h w = (r, w')" and "\<And>q v. m w = (q, v) \<Longrightarrow> R w v"
    and "\<And>e k. h e = Some k \<Longrightarrow> keeps R k"
  shows "R w w'"
proof -
  obtain q v where m: "m w = (q, v)" by fastforce
  with assms(2) have first: "R w v" .
  show ?thesis
  proof (cases "\<exists>e k. q = Inl e \<and> h e = Some k")
    case True
    then obtain e k where k: "q = Inl e" "h e = Some k" by blast
    with assms(1) m have "k v = (r, w')" by (simp add: tryA_def)
    with keepsD [OF assms(3) [OF k(2)]] first show ?thesis by (blast intro: rel_trans)
  next
    case False
    with assms(1) m have "w' = v" by (auto simp: tryA_def split: sum.splits option.splits)
    with first show ?thesis by simp
  qed
qed

lemma keeps_liftR_bind: "(\<And>x. r = Inr x \<Longrightarrow> keeps R (f x)) \<Longrightarrow> keeps R (bindA (liftR r) f)"
  by (cases r) (auto simp: keeps_def bindA_def rel_refl)

lemma keeps_when_bindA:
  "keeps R m \<Longrightarrow> (\<And>x. keeps_when P R (f x)) \<Longrightarrow> keeps_when P R (bindA m f)"
  unfolding keeps_when_def bindA_eq_Inr by (blast intro: rel_trans dest: keepsD)

lemma keeps_when_ends: "\<not> P x \<Longrightarrow> keeps_when P R (bindA m (\<lambda>_. retA x))"
  by (auto simp: keeps_when_def bindA_eq_Inr)

end

end
