(* ===== verification/Session.thy ===== *)
theory Session
  imports Models Effects
begin

text \<open>
  The database session and its tenant scoping: \<open>app/core/tenant_scope.py\<close>, \<open>app/core/database.py\<close>,
  the row policies of \<open>migrations/versions/0002_row_level_security.py\<close> (repeated by 0003 and 0004),
  and the unique constraints of the models.

  A table is the list of its rows. A session reads and writes it through the ORM, which begins a
  transaction at its first statement and flushes what was added but not yet written before every
  query. A flush that fails rolls the transaction back and leaves the session unusable
  (\<open>PendingRollbackError\<close>) until it is rolled back explicitly, as SQLAlchemy does. The world also
  records what the program did outside the database: every call it made to Telegram and to the
  referral provider, with the answer, and how often it read the clock and drew a UUID. A rollback
  restores the database and nothing else.

  One session is open at a time. Column widths, numeric column precision and foreign keys (the
  models declare none) are not modelled. A row's id and creation time are drawn when the object is
  made instead of at its flush, and an assignment to a loaded object is written at once instead of
  at the next flush; nothing reads them in between.
\<close>

record database =
  tenants :: "tenant list"
  telegram_users :: "telegram_user list"
  referral_accounts :: "referral_account list"
  subscriptions :: "subscription list"
  vip_memberships :: "vip_membership list"
  snapshots :: "trading_activity_snapshot list"
  job_executions :: "job_execution list"
  referral_configs :: "referral_program_config list"
  channels :: "telegram_channel list"
  bot_configs :: "telegram_bot_config list"
  credentials :: "provider_credential list"
  payments :: "payment_record list"
  routes :: "webhook_route list"

record bot_identity =
  bot_id :: int
  bot_name :: "ustr option"

type_synonym reply_markup = "(ustr \<times> ustr) list list"

text \<open>The calls made to Telegram, with what they returned.\<close>

datatype tg_event =
    GetMe "bot_identity res"
  | CreateInviteLink int int "datetime option" "ustr option" "ustr res"
  | GetChatMember int int "chat_member_status res"
  | BanChatMember int int "unit res"
  | UnbanChatMember int int "unit res"
  | SendMessage int ustr "reply_markup option" "unit res"

record world =
  db :: database
  start :: database
  in_tx :: bool
  failed :: bool
  postgres :: bool
  bound :: "uuid option"
  published :: "uuid option"
  pending :: "trading_activity_snapshot list"
  tg_log :: "tg_event list"
  ref_log :: "ustr list"
  ticks :: nat
  draws :: nat

type_synonym 'a act = "(world, 'a) action"

subsection \<open>Tenant scoping\<close>

definition bind_tenant :: "uuid \<Rightarrow> world \<Rightarrow> world" where
  "bind_tenant t w = w\<lparr>bound := Some t\<rparr>"

definition current_tenant :: "world \<Rightarrow> uuid option" where
  "current_tenant w = bound w"

text \<open>The \<open>after_begin\<close> hook: publish the tenant for the transaction, on PostgreSQL only.\<close>

definition apply_postgres_tenant_setting :: "world \<Rightarrow> world" where
  "apply_postgres_tenant_setting w =
     (if bound w = None \<or> \<not> postgres w then w else w\<lparr>published := bound w\<rparr>)"

text \<open>The transaction of a session begins with its first statement.\<close>

definition begin_tx :: "world \<Rightarrow> world" where
  "begin_tx w =
     (if in_tx w then w
      else apply_postgres_tenant_setting (w\<lparr>in_tx := True, start := db w, published := None\<rparr>))"

text \<open>The \<open>do_orm_execute\<close> hook: every ORM SELECT of a tenant-scoped entity gets the criterion
  \<open>tenant_id = :tenant\<close> when a tenant is bound.\<close>

definition loader_criteria :: "world \<Rightarrow> 'a scoped_scheme \<Rightarrow> bool" where
  "loader_criteria w r \<longleftrightarrow> (case bound w of None \<Rightarrow> True | Some t \<Rightarrow> tenant_id r = t)"

text \<open>The row policy: with no published tenant the setting is NULL and no row matches.\<close>

definition row_policy :: "world \<Rightarrow> 'a scoped_scheme \<Rightarrow> bool" where
  "row_policy w r \<longleftrightarrow> (postgres w \<longrightarrow> published w = Some (tenant_id r))"

subsection \<open>Tables\<close>

text \<open>A table: how to reach its rows, and which pairs of rows violate a unique constraint other than
  the primary key.\<close>

record 'r table =
  tbl_get :: "database \<Rightarrow> 'r list"
  tbl_set :: "'r list \<Rightarrow> database \<Rightarrow> database"
  tbl_clash :: "'r \<Rightarrow> 'r \<Rightarrow> bool"

definition insert_row :: "'r scoped_scheme table \<Rightarrow> 'r scoped_scheme \<Rightarrow> unit act" where
  "insert_row tbl r = (\<lambda>w.
     if \<not> row_policy w r then (Inl ProgrammingError, w)
     else if \<exists>x \<in> set (tbl_get tbl (db w)). row_id x = row_id r \<or> tbl_clash tbl x r
       then (Inl IntegrityError, w)
     else (Inr (), w\<lparr>db := tbl_set tbl (tbl_get tbl (db w) @ [r]) (db w)\<rparr>))"

text \<open>UPDATE of one object, by primary key: the policy hides other tenants' rows and checks the new
  row; no row updated is an error of the ORM.\<close>

definition put_row :: "'r scoped_scheme table \<Rightarrow> 'r scoped_scheme \<Rightarrow> unit act" where
  "put_row tbl r = (\<lambda>w.
     let rs = tbl_get tbl (db w); hit = (\<lambda>x. row_policy w x \<and> row_id x = row_id r) in
     if \<not> row_policy w r then (Inl ProgrammingError, w)
     else if \<not> (\<exists>x \<in> set rs. hit x) then (Inl StaleDataError, w)
     else if \<exists>x \<in> set rs. row_id x \<noteq> row_id r \<and> tbl_clash tbl x r then (Inl IntegrityError, w)
     else (Inr (), w\<lparr>db := tbl_set tbl (update_where hit (\<lambda>_. r) rs) (db w)\<rparr>))"

definition snapshots_table :: "trading_activity_snapshot table" where
  "snapshots_table = \<lparr>tbl_get = snapshots, tbl_set = (\<lambda>rs d. d\<lparr>snapshots := rs\<rparr>),
     tbl_clash = (\<lambda>x y. tenant_id x = tenant_id y \<and>
        referral_account_id x = referral_account_id y \<and>
        as_utc (snap_period_start x) = as_utc (snap_period_start y))\<rparr>"

subsection \<open>Statements, flushes and transactions\<close>

definition statement :: "'a act \<Rightarrow> 'a act" where
  "statement m = (\<lambda>w. if failed w then (Inl PendingRollbackError, w) else m (begin_tx w))"

text \<open>The writes of a flush: a failure undoes the whole transaction and poisons the session.\<close>

definition in_flush :: "unit act \<Rightarrow> unit act" where
  "in_flush m = statement (\<lambda>w. case m w of
      (Inl e, w') \<Rightarrow> (Inl e, w'\<lparr>db := start w', pending := [], failed := True\<rparr>)
    | (Inr x, w') \<Rightarrow> (Inr x, w'))"

fun insert_all :: "trading_activity_snapshot list \<Rightarrow> unit act" where
  "insert_all [] = retA ()"
| "insert_all (r # rs) = thenA (insert_row snapshots_table r) (insert_all rs)"

definition write_pending :: "unit act" where
  "write_pending = (\<lambda>w. insert_all (pending w) (w\<lparr>pending := []\<rparr>))"

text \<open>\<open>session.flush()\<close>; with nothing to write it issues no statement.\<close>

definition flush :: "unit act" where
  "flush = (\<lambda>w. if pending w = [] then (Inr (), w) else in_flush write_pending w)"

text \<open>\<open>session.add(snapshot)\<close>, without a flush.\<close>

definition add_snapshot :: "trading_activity_snapshot \<Rightarrow> unit act" where
  "add_snapshot r = writeA (\<lambda>w. w\<lparr>pending := pending w @ [r]\<rparr>)"

text \<open>\<open>session.add(new); session.flush()\<close>.\<close>

definition add_row :: "'r scoped_scheme table \<Rightarrow> 'r scoped_scheme \<Rightarrow> unit act" where
  "add_row tbl r = in_flush (thenA write_pending (insert_row tbl r))"

text \<open>\<open>session.add(loaded); session.flush()\<close> after assignments to it.\<close>

definition update_row :: "'r scoped_scheme table \<Rightarrow> 'r scoped_scheme \<Rightarrow> unit act" where
  "update_row tbl r = in_flush (thenA write_pending (put_row tbl r))"

text \<open>Assignments to a loaded object, to be written by the next flush. On a poisoned session they
  have no effect that survives.\<close>

definition touch_row :: "'r scoped_scheme table \<Rightarrow> 'r scoped_scheme \<Rightarrow> unit act" where
  "touch_row tbl r = (\<lambda>w. if failed w then (Inr (), w) else in_flush (put_row tbl r) w)"

definition rollback :: "unit act" where
  "rollback = writeA (\<lambda>w. w\<lparr>db := (if in_tx w then start w else db w), in_tx := False,
     failed := False, published := None, pending := []\<rparr>)"

definition commit :: "unit act" where
  "commit = (\<lambda>w. if failed w then (Inl PendingRollbackError, w)
     else thenA flush (writeA (\<lambda>w. w\<lparr>in_tx := False, published := None\<rparr>)) w)"

text \<open>\<open>async with AsyncSessionFactory() as session\<close>: a new session has no tenant; leaving the block
  closes it, which discards what was not committed.\<close>

definition with_session :: "'a act \<Rightarrow> 'a act" where
  "with_session m = (\<lambda>w.
     let (r, w') = m ((snd (rollback w))\<lparr>bound := None\<rparr>) in (r, snd (rollback w')))"

text \<open>\<open>get_db_session\<close>: commit when the body succeeds, roll back and re-raise when it does not.\<close>

definition get_db_session :: "'a act \<Rightarrow> 'a act" where
  "get_db_session body =
     with_session (tryA (bindA body (\<lambda>x. thenA commit (retA x)))
                        (\<lambda>e. Some (thenA rollback (raiseA e))))"

text \<open>A scoped SELECT: flush, then the rows that pass the loader criteria, the row policy and the
  query's own predicate.\<close>

definition scoped_rows ::
  "'r scoped_scheme table \<Rightarrow> ('r scoped_scheme \<Rightarrow> bool) \<Rightarrow> world \<Rightarrow> 'r scoped_scheme list" where
  "scoped_rows tbl p w =
     filter (\<lambda>r. loader_criteria w r \<and> row_policy w r \<and> p r) (tbl_get tbl (db w))"

definition select_rows ::
  "'r scoped_scheme table \<Rightarrow> ('r scoped_scheme \<Rightarrow> bool) \<Rightarrow> 'r scoped_scheme list act" where
  "select_rows tbl p = thenA flush (statement (readA (scoped_rows tbl p)))"

text \<open>A bulk DELETE, which the loader criteria do not touch.\<close>

definition delete_rows ::
  "'r scoped_scheme table \<Rightarrow> ('r scoped_scheme \<Rightarrow> bool) \<Rightarrow> nat act" where
  "delete_rows tbl p = statement (\<lambda>w.
     let rs = tbl_get tbl (db w); hit = (\<lambda>x. row_policy w x \<and> p x) in
     (Inr (length (filter hit rs)),
      w\<lparr>db := tbl_set tbl (filter (\<lambda>x. \<not> hit x) rs) (db w)\<rparr>))"

subsection \<open>The tables of the program\<close>

definition users_table :: "telegram_user table" where
  "users_table = \<lparr>tbl_get = telegram_users, tbl_set = (\<lambda>rs d. d\<lparr>telegram_users := rs\<rparr>),
     tbl_clash = (\<lambda>x y. tenant_id x = tenant_id y \<and> telegram_user_id x = telegram_user_id y)\<rparr>"

definition accounts_table :: "referral_account table" where
  "accounts_table = \<lparr>tbl_get = referral_accounts, tbl_set = (\<lambda>rs d. d\<lparr>referral_accounts := rs\<rparr>),
     tbl_clash = (\<lambda>x y. tenant_id x = tenant_id y \<and>
        acc_provider_type x = acc_provider_type y \<and> uid x = uid y)\<rparr>"

definition subscriptions_table :: "subscription table" where
  "subscriptions_table = \<lparr>tbl_get = subscriptions, tbl_set = (\<lambda>rs d. d\<lparr>subscriptions := rs\<rparr>),
     tbl_clash = (\<lambda>x y. False)\<rparr>"

definition memberships_table :: "vip_membership table" where
  "memberships_table = \<lparr>tbl_get = vip_memberships, tbl_set = (\<lambda>rs d. d\<lparr>vip_memberships := rs\<rparr>),
     tbl_clash = (\<lambda>x y. tenant_id x = tenant_id y \<and> mem_user_id x = mem_user_id y \<and>
        channel_id x = channel_id y)\<rparr>"

definition executions_table :: "job_execution table" where
  "executions_table = \<lparr>tbl_get = job_executions, tbl_set = (\<lambda>rs d. d\<lparr>job_executions := rs\<rparr>),
     tbl_clash = (\<lambda>x y. tenant_id x = tenant_id y \<and> job_name x = job_name y \<and>
        as_utc (job_period_start x) = as_utc (job_period_start y))\<rparr>"

definition configs_table :: "referral_program_config table" where
  "configs_table = \<lparr>tbl_get = referral_configs, tbl_set = (\<lambda>rs d. d\<lparr>referral_configs := rs\<rparr>),
     tbl_clash = (\<lambda>x y. tenant_id x = tenant_id y \<and>
        cfg_provider_type x = cfg_provider_type y \<and> cfg_market x = cfg_market y)\<rparr>"

definition channels_table :: "telegram_channel table" where
  "channels_table = \<lparr>tbl_get = channels, tbl_set = (\<lambda>rs d. d\<lparr>channels := rs\<rparr>),
     tbl_clash = (\<lambda>x y. tenant_id x = tenant_id y \<and>
        (ch_market x = ch_market y \<or> chat_id x = chat_id y))\<rparr>"

definition bot_configs_table :: "telegram_bot_config table" where
  "bot_configs_table = \<lparr>tbl_get = bot_configs, tbl_set = (\<lambda>rs d. d\<lparr>bot_configs := rs\<rparr>),
     tbl_clash = (\<lambda>x y. tenant_id x = tenant_id y)\<rparr>"

definition credentials_table :: "provider_credential table" where
  "credentials_table = \<lparr>tbl_get = credentials, tbl_set = (\<lambda>rs d. d\<lparr>credentials := rs\<rparr>),
     tbl_clash = (\<lambda>x y. tenant_id x = tenant_id y \<and>
        cred_provider_type x = cred_provider_type y \<and> credential_name x = credential_name y)\<rparr>"

definition payments_table :: "payment_record table" where
  "payments_table = \<lparr>tbl_get = payments, tbl_set = (\<lambda>rs d. d\<lparr>payments := rs\<rparr>),
     tbl_clash = (\<lambda>x y. False)\<rparr>"

lemmas table_defs =
  users_table_def accounts_table_def subscriptions_table_def memberships_table_def
  snapshots_table_def executions_table_def configs_table_def channels_table_def
  bot_configs_table_def credentials_table_def payments_table_def

end
