(* ===== verification/Isolation.thy ===== *)
theory Isolation
  imports Session
begin

text \<open>
  What every database operation keeps, proved once for every table:

  \<^item> \<open>iso t\<close>: a session bound to tenant \<open>t\<close> on PostgreSQL leaves every other tenant's rows alone,
    across rollbacks too;
  \<^item> \<open>ukeys\<close>: primary keys and unique constraints hold of every table;
  \<^item> \<open>quiet\<close>: nothing is sent to Telegram and the referral provider is not asked;
  \<^item> \<open>uncommitted\<close>: the committed database is what it was;
  \<^item> \<open>grows\<close>: the history of calls is only ever added to, and the database stays the one it is;
  \<^item> \<open>spares\<close>: nobody is taken out of a channel.

  \<open>scoped_table\<close> is the interface of a table (a lens into the database plus its unique constraint),
  interpreted for each of the program's tables. \<open>tx_relation\<close> carries a relation through statements,
  flushes and queries, \<open>closing_relation\<close> also through commits; \<open>db_relation\<close> adds what it needs of every table, so that the components
  prove their own rules once, for every such relation.
\<close>

subsection \<open>The interface of a table\<close>

abbreviation foreign :: "uuid \<Rightarrow> 'a scoped_scheme list \<Rightarrow> 'a scoped_scheme list" where
  "foreign t rs \<equiv> filter (\<lambda>r. tenant_id r \<noteq> t) rs"

text \<open>The database with the rows of tenant \<open>t\<close> taken out.\<close>

definition others :: "uuid \<Rightarrow> database \<Rightarrow> database" where
  "others t d = d\<lparr>
     telegram_users := foreign t (telegram_users d),
     referral_accounts := foreign t (referral_accounts d),
     subscriptions := foreign t (subscriptions d),
     vip_memberships := foreign t (vip_memberships d),
     snapshots := foreign t (snapshots d),
     job_executions := foreign t (job_executions d),
     referral_configs := foreign t (referral_configs d),
     channels := foreign t (channels d),
     bot_configs := foreign t (bot_configs d),
     credentials := foreign t (credentials d),
     payments := foreign t (payments d),
     routes := filter (\<lambda>r. route_tenant_id r \<noteq> t) (routes d)\<rparr>"

definition table_unique ::
  "'r scoped_scheme table \<Rightarrow> 'r scoped_scheme list \<Rightarrow> bool" where
  "table_unique tbl rs \<longleftrightarrow>
     sorted_wrt (\<lambda>x y. row_id x \<noteq> row_id y \<and> \<not> tbl_clash tbl x y) rs"

definition unique_keys :: "database \<Rightarrow> bool" where
  "unique_keys d \<longleftrightarrow>
     table_unique users_table (telegram_users d) \<and>
     table_unique accounts_table (referral_accounts d) \<and>
     table_unique subscriptions_table (subscriptions d) \<and>
     table_unique memberships_table (vip_memberships d) \<and>
     table_unique snapshots_table (snapshots d) \<and>
     table_unique executions_table (job_executions d) \<and>
     table_unique configs_table (referral_configs d) \<and>
     table_unique channels_table (channels d) \<and>
     table_unique bot_configs_table (bot_configs d) \<and>
     table_unique credentials_table (credentials d) \<and>
     table_unique payments_table (payments d) \<and>
     distinct (map row_id (routes d)) \<and> distinct (map token (routes d)) \<and>
     distinct (map row_id (tenants d)) \<and> distinct (map slug (tenants d))"

lemma table_unique_pair:
  assumes "table_unique tbl rs" and "\<And>x y. tbl_clash tbl x y \<Longrightarrow> tbl_clash tbl y x"
    and "x \<in> set rs" and "y \<in> set rs" and "row_id x = row_id y \<or> tbl_clash tbl x y"
  shows "x = y"
  using assms unfolding table_unique_def
  by (induction rs) auto

lemma table_unique_append:
  assumes "table_unique tbl rs"
    and "\<And>x. x \<in> set rs \<Longrightarrow> row_id x \<noteq> row_id r \<and> \<not> tbl_clash tbl x r"
  shows "table_unique tbl (rs @ [r])"
  using assms by (simp add: table_unique_def sorted_wrt_append)

lemma table_unique_filter: "table_unique tbl rs \<Longrightarrow> table_unique tbl (filter p rs)"
  by (simp add: table_unique_def sorted_wrt_filter)

lemma table_unique_update:
  assumes "table_unique tbl rs" and sym: "\<And>x y. tbl_clash tbl x y \<Longrightarrow> tbl_clash tbl y x"
    and clash: "\<And>x. x \<in> set rs \<Longrightarrow> row_id x \<noteq> row_id r \<Longrightarrow> \<not> tbl_clash tbl x r"
    and hit: "\<And>x. p x \<Longrightarrow> row_id x = row_id r"
  shows "table_unique tbl (update_where p (\<lambda>_. r) rs)"
  using assms(1) clash unfolding table_unique_def update_where_def
proof (induction rs)
  case Nil
  then show ?case by simp
next
  case (Cons a rs)
  have rest: "sorted_wrt (\<lambda>x y. row_id x \<noteq> row_id y \<and> \<not> tbl_clash tbl x y)
      (map (\<lambda>x. if p x then r else x) rs)"
    using Cons by simp
  have "row_id (if p a then r else a) \<noteq> row_id (if p y then r else y) \<and>
        \<not> tbl_clash tbl (if p a then r else a) (if p y then r else y)" if "y \<in> set rs" for y
  proof -
    have far: "row_id a \<noteq> row_id y" and apart: "\<not> tbl_clash tbl a y"
      using Cons.prems(1) that by auto
    consider "p a" "\<not> p y" | "\<not> p a" "p y" | "\<not> p a" "\<not> p y"
      using hit [of a] hit [of y] far by fastforce
    then show ?thesis
    proof cases
      case 1
      have "row_id y \<noteq> row_id r" using hit [OF 1(1)] far by simp
      then have "\<not> tbl_clash tbl y r" using Cons.prems(2) that by simp
      with 1 sym \<open>row_id y \<noteq> row_id r\<close> show ?thesis by auto
    next
      case 2
      have "row_id a \<noteq> row_id r" using hit [OF 2(2)] far by simp
      then show ?thesis using 2 Cons.prems(2) [of a] by auto
    next
      case 3
      with far apart show ?thesis by simp
    qed
  qed
  then have "\<forall>z \<in> set (map (\<lambda>x. if p x then r else x) rs).
      row_id (if p a then r else a) \<noteq> row_id z \<and> \<not> tbl_clash tbl (if p a then r else a) z"
    unfolding set_map by blast
  with rest show ?case by (simp only: list.map sorted_wrt.simps)
qed

locale scoped_table =
  fixes tbl :: "'r scoped_scheme table"
  assumes get_set: "tbl_get tbl (tbl_set tbl rs d) = rs"
    and others_set:
      "foreign t rs = foreign t (tbl_get tbl d) \<Longrightarrow> others t (tbl_set tbl rs d) = others t d"
    and routes_set: "routes (tbl_set tbl rs d) = routes d"
    and clash_sym: "tbl_clash tbl x y \<Longrightarrow> tbl_clash tbl y x"
    and unique_get: "unique_keys d \<Longrightarrow> table_unique tbl (tbl_get tbl d)"
    and unique_set: "unique_keys d \<Longrightarrow> table_unique tbl rs \<Longrightarrow> unique_keys (tbl_set tbl rs d)"

interpretation users: scoped_table users_table
  by unfold_locales (auto simp: users_table_def others_def unique_keys_def table_unique_def)

interpretation accounts: scoped_table accounts_table
  by unfold_locales (auto simp: accounts_table_def others_def unique_keys_def table_unique_def)

interpretation subs: scoped_table subscriptions_table
  by unfold_locales (auto simp: subscriptions_table_def others_def unique_keys_def table_unique_def)

interpretation members: scoped_table memberships_table
  by unfold_locales (auto simp: memberships_table_def others_def unique_keys_def table_unique_def)

interpretation snaps: scoped_table snapshots_table
  by unfold_locales (auto simp: snapshots_table_def others_def unique_keys_def table_unique_def)

interpretation jobs: scoped_table executions_table
  by unfold_locales (auto simp: executions_table_def others_def unique_keys_def table_unique_def)

interpretation cfgs: scoped_table configs_table
  by unfold_locales (auto simp: configs_table_def others_def unique_keys_def table_unique_def)

interpretation chans: scoped_table channels_table
  by unfold_locales (auto simp: channels_table_def others_def unique_keys_def table_unique_def)

interpretation bots: scoped_table bot_configs_table
  by unfold_locales (auto simp: bot_configs_table_def others_def unique_keys_def table_unique_def)

interpretation creds: scoped_table credentials_table
  by unfold_locales (auto simp: credentials_table_def others_def unique_keys_def table_unique_def)

interpretation pays: scoped_table payments_table
  by unfold_locales (auto simp: payments_table_def others_def unique_keys_def table_unique_def)

subsection \<open>What the operations on one table keep\<close>

text \<open>The session is bound to tenant \<open>t\<close>, and so is the transaction it may have begun.\<close>

definition sess :: "uuid \<Rightarrow> world \<Rightarrow> bool" where
  "sess t w \<longleftrightarrow> postgres w \<and> bound w = Some t \<and>
     (in_tx w \<longrightarrow> published w = Some t \<and> others t (start w) = others t (db w))"

definition iso :: "uuid \<Rightarrow> world \<Rightarrow> world \<Rightarrow> bool" where
  "iso t w w' \<longleftrightarrow> (sess t w \<longrightarrow> sess t w' \<and> others t (db w') = others t (db w))"

text \<open>The same inside a transaction.\<close>

definition iso_tx :: "uuid \<Rightarrow> world \<Rightarrow> world \<Rightarrow> bool" where
  "iso_tx t w w' \<longleftrightarrow>
     (in_tx w \<and> sess t w \<longrightarrow> in_tx w' \<and> sess t w' \<and> others t (db w') = others t (db w))"

definition keyed :: "world \<Rightarrow> bool" where
  "keyed w \<longleftrightarrow> unique_keys (db w) \<and> (in_tx w \<longrightarrow> unique_keys (start w))"

definition ukeys :: "world \<Rightarrow> world \<Rightarrow> bool" where
  "ukeys w w' \<longleftrightarrow> (keyed w \<longrightarrow> keyed w')"

definition ukeys_tx :: "world \<Rightarrow> world \<Rightarrow> bool" where
  "ukeys_tx w w' \<longleftrightarrow> (in_tx w \<and> keyed w \<longrightarrow> in_tx w' \<and> keyed w')"

definition quiet :: "world \<Rightarrow> world \<Rightarrow> bool" where
  "quiet w w' \<longleftrightarrow> tg_log w' = tg_log w \<and> ref_log w' = ref_log w"

definition grows :: "world \<Rightarrow> world \<Rightarrow> bool" where
  "grows w w' \<longleftrightarrow> postgres w' = postgres w \<and>
     (\<exists>evs us. tg_log w' = tg_log w @ evs \<and> ref_log w' = ref_log w @ us)"

text \<open>The calls that take a member out of a channel: Telegram's kick is a ban lifted at once.\<close>

fun removes :: "tg_event \<Rightarrow> bool" where
  "removes (BanChatMember c u r) = True"
| "removes (UnbanChatMember c u r) = True"
| "removes ev = False"

definition removals :: "world \<Rightarrow> tg_event list" where
  "removals w = filter removes (tg_log w)"

definition spares :: "world \<Rightarrow> world \<Rightarrow> bool" where
  "spares w w' \<longleftrightarrow> removals w' = removals w"

text \<open>The database as other sessions see it, and as a rollback restores it.\<close>

definition committed :: "world \<Rightarrow> database" where
  "committed w = (if in_tx w then start w else db w)"

definition uncommitted :: "world \<Rightarrow> world \<Rightarrow> bool" where
  "uncommitted w w' \<longleftrightarrow> committed w' = committed w"

definition uncommitted_tx :: "world \<Rightarrow> world \<Rightarrow> bool" where
  "uncommitted_tx w w' \<longleftrightarrow> (in_tx w \<longrightarrow> in_tx w' \<and> start w' = start w)"

context scoped_table
begin

lemma iso_insert_row [keeps_rules]: "keeps (iso_tx t) (insert_row tbl r)"
proof (rule keepsI)
  fix w q w' assume run: "insert_row tbl r w = (q, w')"
  show "iso_tx t w w'"
  proof (cases "w' = w")
    case False
    with run have pol: "row_policy w r"
      and w': "w' = w\<lparr>db := tbl_set tbl (tbl_get tbl (db w) @ [r]) (db w)\<rparr>"
      by (auto simp: insert_row_def split: if_splits)
    show ?thesis
      unfolding iso_tx_def
    proof (intro impI)
      assume "in_tx w \<and> sess t w"
      then have "tenant_id r = t" using pol by (auto simp: sess_def row_policy_def)
      then have "others t (db w') = others t (db w)" by (simp add: w' others_set)
      with \<open>in_tx w \<and> sess t w\<close>
      show "in_tx w' \<and> sess t w' \<and> others t (db w') = others t (db w)"
        by (simp add: w' sess_def)
    qed
  qed (simp add: iso_tx_def)
qed

lemma iso_put_row [keeps_rules]: "keeps (iso_tx t) (put_row tbl r)"
proof (rule keepsI)
  fix w q w' assume run: "put_row tbl r w = (q, w')"
  let ?hit = "\<lambda>x. row_policy w x \<and> row_id x = row_id r"
  show "iso_tx t w w'"
  proof (cases "w' = w")
    case False
    with run have pol: "row_policy w r"
      and w': "w' = w\<lparr>db := tbl_set tbl (update_where ?hit (\<lambda>_. r) (tbl_get tbl (db w))) (db w)\<rparr>"
      by (auto simp: put_row_def Let_def split: if_splits)
    show ?thesis
      unfolding iso_tx_def
    proof (intro impI)
      assume s: "in_tx w \<and> sess t w"
      then have "published w = Some t" "postgres w" by (auto simp: sess_def)
      then have "foreign t (update_where ?hit (\<lambda>_. r) (tbl_get tbl (db w)))
          = foreign t (tbl_get tbl (db w))"
        using pol by (intro filter_update_where_frame) (auto simp: row_policy_def)
      then have "others t (db w') = others t (db w)" by (simp add: w' others_set)
      with s show "in_tx w' \<and> sess t w' \<and> others t (db w') = others t (db w)"
        by (simp add: w' sess_def)
    qed
  qed (simp add: iso_tx_def)
qed

lemma ukeys_insert_row [keeps_rules]: "keeps ukeys_tx (insert_row tbl r)"
  by (auto simp: keeps_def ukeys_tx_def keyed_def insert_row_def
      intro!: unique_set table_unique_append intro: unique_get)

lemma ukeys_put_row [keeps_rules]: "keeps ukeys_tx (put_row tbl r)"
proof (rule keepsI)
  fix w q w' assume run: "put_row tbl r w = (q, w')"
  let ?hit = "\<lambda>x. row_policy w x \<and> row_id x = row_id r"
  show "ukeys_tx w w'"
  proof (cases "w' = w")
    case False
    with run have free: "\<not> (\<exists>x \<in> set (tbl_get tbl (db w)). row_id x \<noteq> row_id r \<and> tbl_clash tbl x r)"
      and w': "w' = w\<lparr>db := tbl_set tbl (update_where ?hit (\<lambda>_. r) (tbl_get tbl (db w))) (db w)\<rparr>"
      by (auto simp: put_row_def Let_def split: if_splits)
    have "unique_keys (db w')" if "unique_keys (db w)"
      unfolding w' using free
      by (auto intro!: unique_set [OF that] table_unique_update unique_get [OF that] clash_sym)
    then show ?thesis by (simp add: ukeys_tx_def keyed_def w')
  qed (simp add: ukeys_tx_def)
qed

lemma uncommitted_rows [keeps_rules]:
  "keeps uncommitted_tx (insert_row tbl r)" "keeps uncommitted_tx (put_row tbl r)"
  by (simp_all add: keeps_def uncommitted_tx_def insert_row_def put_row_def Let_def)

lemma grows_rows [keeps_rules]: "keeps grows (insert_row tbl r)" "keeps grows (put_row tbl r)"
  by (simp_all add: keeps_def grows_def insert_row_def put_row_def Let_def)

lemma spares_rows [keeps_rules]: "keeps spares (insert_row tbl r)" "keeps spares (put_row tbl r)"
  by (simp_all add: keeps_def spares_def removals_def insert_row_def put_row_def Let_def)

lemma quiet_insert_row [keeps_rules]: "keeps quiet (insert_row tbl r)"
  by (simp add: keeps_def quiet_def insert_row_def)

lemma quiet_put_row [keeps_rules]: "keeps quiet (put_row tbl r)"
  by (simp add: keeps_def quiet_def put_row_def Let_def)

end

subsection \<open>Statements, flushes and queries\<close>

text \<open>\<open>S\<close> holds between the states of one transaction, \<open>R\<close> across transactions.\<close>

locale tx_relation = inner: world_relation S + world_relation R
  for S R :: "world \<Rightarrow> world \<Rightarrow> bool" +
  assumes begin_inner: "S (begin_tx w) w' \<Longrightarrow> R w w'"
    and undo: "S (begin_tx w) w' \<Longrightarrow> R w (w'\<lparr>db := start w', pending := [], failed := True\<rparr>)"
    and inner_pending: "S w (w\<lparr>pending := ps\<rparr>)"
    and outer_pending: "R w (w\<lparr>pending := ps\<rparr>)"
    and outer_rollback: "R w (snd (rollback w))"
    and inner_snapshot: "keeps S (insert_row snapshots_table r)"
begin

lemma keeps_statement [keeps_rules]: "keeps S m \<Longrightarrow> keeps R (statement m)"
  by (auto simp: keeps_def statement_def rel_refl intro: begin_inner)

lemma keeps_in_flush [keeps_rules]:
  assumes "keeps S m" shows "keeps R (in_flush m)"
proof (rule keepsI)
  fix w r w' assume run: "in_flush m w = (r, w')"
  show "R w w'"
  proof (cases "failed w")
    case True
    with run show ?thesis by (simp add: in_flush_def statement_def rel_refl)
  next
    case False
    obtain q v where mv: "m (begin_tx w) = (q, v)" by (cases "m (begin_tx w)")
    have step: "S (begin_tx w) v" using assms mv by (rule keepsD)
    show ?thesis
    proof (cases q)
      case (Inl e)
      with run False mv have "w' = v\<lparr>db := start v, pending := [], failed := True\<rparr>"
        by (simp add: in_flush_def statement_def)
      with step show ?thesis by (simp add: undo)
    next
      case (Inr x)
      with run False mv have "w' = v" by (simp add: in_flush_def statement_def)
      with step show ?thesis by (simp add: begin_inner)
    qed
  qed
qed

lemma keeps_insert_all: "keeps S (insert_all rs)"
  by (induction rs)
    (simp_all only: insert_all.simps inner.keeps_retA inner.keeps_thenA inner_snapshot)

lemma keeps_write_pending [keeps_rules]: "keeps S write_pending"
proof (rule keepsI)
  fix w r w' assume "write_pending w = (r, w')"
  then have "S (w\<lparr>pending := []\<rparr>) w'"
    unfolding write_pending_def by (rule keepsD [OF keeps_insert_all])
  with inner_pending show "S w w'" by (rule inner.rel_trans)
qed

lemma keeps_flush [keeps_rules]: "keeps R flush"
proof (rule keepsI)
  fix w r w' assume run: "flush w = (r, w')"
  show "R w w'"
  proof (cases "pending w = []")
    case True
    with run show ?thesis by (simp add: flush_def rel_refl)
  next
    case False
    with run have "in_flush write_pending w = (r, w')" by (simp add: flush_def)
    then show ?thesis by (rule keepsD [OF keeps_in_flush [OF keeps_write_pending]])
  qed
qed

lemma keeps_add_snapshot [keeps_rules]: "keeps R (add_snapshot r)"
  by (simp add: keeps_def add_snapshot_def outer_pending)

lemma keeps_add_row: "keeps S (insert_row tbl r) \<Longrightarrow> keeps R (add_row tbl r)"
  by (simp add: add_row_def keeps_in_flush inner.keeps_thenA keeps_write_pending)

lemma keeps_update_row: "keeps S (put_row tbl r) \<Longrightarrow> keeps R (update_row tbl r)"
  by (simp add: update_row_def keeps_in_flush inner.keeps_thenA keeps_write_pending)

lemma keeps_touch_row: "keeps S (put_row tbl r) \<Longrightarrow> keeps R (touch_row tbl r)"
  using keeps_in_flush [of "put_row tbl r"] by (simp add: keeps_def touch_row_def rel_refl)

lemma keeps_select_rows [keeps_rules]: "keeps R (select_rows tbl p)"
  by (simp add: select_rows_def keeps_thenA keeps_flush keeps_statement inner.keeps_readA)

lemma keeps_rollback [keeps_rules]: "keeps R rollback"
  by (simp add: keeps_def outer_rollback)

end

text \<open>Relations that survive the end of a transaction, so that commits keep them too.\<close>

locale closing_relation = tx_relation S R for S R +
  assumes outer_end: "R w (w\<lparr>in_tx := False, published := None\<rparr>)"
begin

lemma keeps_commit [keeps_rules]: "keeps R commit"
proof (rule keepsI)
  fix w r w' assume run: "commit w = (r, w')"
  have all: "keeps R (thenA flush (writeA (\<lambda>w. w\<lparr>in_tx := False, published := None\<rparr>)))"
    by (intro keeps_thenA keeps_flush) (simp add: keeps_def outer_end)
  show "R w w'"
  proof (cases "failed w")
    case True
    with run show ?thesis by (simp add: commit_def rel_refl)
  next
    case False
    with run all show ?thesis by (auto simp: commit_def dest: keepsD)
  qed
qed

end

interpretation iso_tx: world_relation "iso_tx t" for t
  by unfold_locales (auto simp: iso_tx_def)

lemma sess_begin_tx: "sess t w \<Longrightarrow> sess t (begin_tx w) \<and> in_tx (begin_tx w)"
  by (auto simp: sess_def begin_tx_def apply_postgres_tenant_setting_def)

lemma in_tx_begin_tx [simp]: "in_tx (begin_tx w)"
  by (simp add: begin_tx_def apply_postgres_tenant_setting_def)

lemma db_begin_tx [simp]: "db (begin_tx w) = db w"
  by (simp add: begin_tx_def apply_postgres_tenant_setting_def)

lemma keyed_begin_tx: "keyed w \<Longrightarrow> keyed (begin_tx w)"
  by (simp add: keyed_def begin_tx_def apply_postgres_tenant_setting_def)

lemma logs_begin_tx [simp]:
  "tg_log (begin_tx w) = tg_log w" "ref_log (begin_tx w) = ref_log w" "postgres (begin_tx w) = postgres w"
  by (simp_all add: begin_tx_def apply_postgres_tenant_setting_def)

interpretation iso: closing_relation "iso_tx t" "iso t" for t
proof unfold_locales
  show "iso t u w" if "iso t u v" "iso t v w" for u v w using that by (auto simp: iso_def)
  show "iso t w w'" if "iso_tx t (begin_tx w) w'" for w w'
    using that sess_begin_tx by (fastforce simp: iso_def iso_tx_def)
  show "iso t w (w'\<lparr>db := start w', pending := [], failed := True\<rparr>)"
    if "iso_tx t (begin_tx w) w'" for w w'
    using that sess_begin_tx by (fastforce simp: iso_def iso_tx_def sess_def)
  show "keeps (iso_tx t) (insert_row snapshots_table r)" for r by (rule snaps.iso_insert_row)
qed (auto simp: iso_def iso_tx_def sess_def rollback_def)

interpretation ukeys_tx: world_relation ukeys_tx
  by unfold_locales (auto simp: ukeys_tx_def)

interpretation ukeys: closing_relation ukeys_tx ukeys
proof unfold_locales
  show "ukeys w w'" if "ukeys_tx (begin_tx w) w'" for w w'
    using that keyed_begin_tx in_tx_begin_tx by (auto simp: ukeys_def ukeys_tx_def)
  show "ukeys w (w'\<lparr>db := start w', pending := [], failed := True\<rparr>)"
    if "ukeys_tx (begin_tx w) w'" for w w'
    using that keyed_begin_tx in_tx_begin_tx by (auto simp: ukeys_def ukeys_tx_def keyed_def)
  show "keeps ukeys_tx (insert_row snapshots_table r)" for r by (rule snaps.ukeys_insert_row)
qed (auto simp: ukeys_def ukeys_tx_def keyed_def rollback_def)

interpretation quiet: closing_relation quiet quiet
proof unfold_locales
  show "keeps quiet (insert_row snapshots_table r)" for r by (rule snaps.quiet_insert_row)
qed (auto simp: quiet_def rollback_def)

interpretation grows: closing_relation grows grows
proof unfold_locales
  show "keeps grows (insert_row snapshots_table r)" for r by (rule snaps.grows_rows)
qed (auto simp: grows_def rollback_def)

interpretation spares: closing_relation spares spares
proof unfold_locales
  show "keeps spares (insert_row snapshots_table r)" for r by (rule snaps.spares_rows)
qed (auto simp: spares_def removals_def rollback_def)

interpretation uncommitted_tx: world_relation uncommitted_tx
  by unfold_locales (auto simp: uncommitted_tx_def)

interpretation uncommitted: tx_relation uncommitted_tx uncommitted
proof unfold_locales
  show "keeps uncommitted_tx (insert_row snapshots_table r)" for r by (rule snaps.uncommitted_rows)
qed (auto simp: uncommitted_def uncommitted_tx_def committed_def rollback_def begin_tx_def
    apply_postgres_tenant_setting_def)

subsection \<open>Relations kept by every table\<close>

text \<open>What a client of the tables relies on: the writes of each table keep the relation. The
  components prove in this context what their operations keep.\<close>

locale enrol_relation = tx_relation S R for S R +
  assumes users_kept: "keeps S (insert_row users_table u)" "keeps S (put_row users_table u)"
    and accounts_kept: "keeps S (insert_row accounts_table a)" "keeps S (put_row accounts_table a)"
    and clock_kept: "R w (w\<lparr>ticks := k\<rparr>)"
    and draws_kept: "R w (w\<lparr>draws := k\<rparr>)"

locale db_relation = enrol_relation S R for S R +
  assumes subscriptions_kept:
      "keeps S (insert_row subscriptions_table s)" "keeps S (put_row subscriptions_table s)"
    and memberships_kept:
      "keeps S (insert_row memberships_table m)" "keeps S (put_row memberships_table m)"

text \<open>Relations kept by the writes of the job table.\<close>

locale job_relation = enrol_relation S R for S R +
  assumes executions_kept:
      "keeps S (insert_row executions_table x)" "keeps S (put_row executions_table x)"

text \<open>Relations that questions to the referral provider keep; calls to Telegram too, all but the removals
  or all of them.\<close>

locale asking_relation = enrol_relation S R for S R +
  assumes referral_kept: "R w (w\<lparr>ref_log := ref_log w @ [u]\<rparr>)"

locale messaging_relation = db_relation S R + asking_relation S R for S R +
  assumes talk_kept: "\<not> removes ev \<Longrightarrow> R w (w\<lparr>tg_log := tg_log w @ [ev]\<rparr>)"

locale effect_relation = messaging_relation S R for S R +
  assumes removal_kept: "removes ev \<Longrightarrow> R w (w\<lparr>tg_log := tg_log w @ [ev]\<rparr>)"

locale sweep_relation = effect_relation S R + job_relation S R for S R

interpretation iso: sweep_relation "iso_tx t" "iso t" for t
  by unfold_locales
    (auto simp: iso_def sess_def intro: keeps_rules)

interpretation ukeys: sweep_relation ukeys_tx ukeys
  by unfold_locales
    (auto simp: ukeys_def keyed_def intro: keeps_rules)

interpretation uncommitted: sweep_relation uncommitted_tx uncommitted
  by unfold_locales (auto simp: uncommitted_def committed_def intro: keeps_rules)

interpretation grows: sweep_relation grows grows
  by unfold_locales (auto simp: grows_def intro: keeps_rules)

interpretation spares: messaging_relation spares spares
  by unfold_locales (auto simp: spares_def removals_def intro: keeps_rules)

interpretation quiet: db_relation quiet quiet
  by unfold_locales (auto simp: quiet_def intro: keeps_rules)

interpretation quiet: job_relation quiet quiet
  by unfold_locales (auto intro: keeps_rules)

end
