(* ===== verification/Eligibility.thy ===== *)
theory Eligibility
  imports Enums PyDecimal
begin

text \<open>
  \<open>app/domain/eligibility.py\<close> and the value \<open>ReferralCheck\<close> of
  \<open>app/application/ports/referral_provider.py\<close>: who qualifies for VIP access through a referral.
  \<open>raw\<close>, the provider's payload kept for diagnosis, is left out: nothing reads it.
\<close>

record referral_check =
  chk_uid :: ustr
  registered :: bool
  deposit_total :: decimal
  qualifying_trades :: "int option"

record referral_rules =
  minimum_balance :: decimal
  minimum_trades_per_period :: int
  trade_period_days :: int

record eligibility_verdict =
  v_reason :: eligibility_reason
  v_compliance_state :: compliance_state
  balance :: decimal
  shortfall :: decimal

definition eligible :: "eligibility_verdict \<Rightarrow> bool" where
  "eligible v \<longleftrightarrow> v_reason v = ELIGIBLE"

definition evaluate_referral ::
  "referral_check option \<Rightarrow> referral_rules \<Rightarrow> bool \<Rightarrow> eligibility_verdict res" where
  "evaluate_referral check rules require_trading =
     (case check of
        None \<Rightarrow> Inr \<lparr>v_reason = ER_PROVIDER_UNAVAILABLE,
                     v_compliance_state = CS_PROVIDER_UNAVAILABLE,
                     balance = dec_zero, shortfall = dec_zero\<rparr>
      | Some ck \<Rightarrow>
          if \<not> registered ck then
            Inr \<lparr>v_reason = NOT_REGISTERED, v_compliance_state = CS_NON_COMPLIANT,
                 balance = deposit_total ck, shortfall = dec_zero\<rparr>
          else
            bindR (dec_lt (deposit_total ck) (minimum_balance rules)) (\<lambda>short.
              if short then
                bindR (dec_sub (minimum_balance rules) (deposit_total ck)) (\<lambda>sf.
                  Inr \<lparr>v_reason = INSUFFICIENT_BALANCE, v_compliance_state = CS_NON_COMPLIANT,
                       balance = deposit_total ck, shortfall = sf\<rparr>)
              else if require_trading then
                (case qualifying_trades ck of
                   None \<Rightarrow> Inr \<lparr>v_reason = ER_PROVIDER_UNAVAILABLE,
                                v_compliance_state = CS_PROVIDER_UNAVAILABLE,
                                balance = deposit_total ck, shortfall = dec_zero\<rparr>
                 | Some trades \<Rightarrow>
                     if trades < minimum_trades_per_period rules then
                       Inr \<lparr>v_reason = INSUFFICIENT_TRADING,
                            v_compliance_state = CS_NON_COMPLIANT,
                            balance = deposit_total ck, shortfall = dec_zero\<rparr>
                     else
                       Inr \<lparr>v_reason = ELIGIBLE, v_compliance_state = CS_COMPLIANT,
                            balance = deposit_total ck, shortfall = dec_zero\<rparr>)
              else
                Inr \<lparr>v_reason = ELIGIBLE, v_compliance_state = CS_COMPLIANT,
                     balance = deposit_total ck, shortfall = dec_zero\<rparr>))"

lemmas evaluate_simps = evaluate_referral_def eligible_def

lemma evaluate_None [simp]:
  "evaluate_referral None rules rt =
     Inr \<lparr>v_reason = ER_PROVIDER_UNAVAILABLE, v_compliance_state = CS_PROVIDER_UNAVAILABLE,
          balance = dec_zero, shortfall = dec_zero\<rparr>"
  by (simp add: evaluate_referral_def)

text \<open>The verdict's reason, state by state, on finite amounts.\<close>

lemma evaluate_reason:
  assumes "evaluate_referral (Some ck) rules rt = Inr v"
    and "is_finite (deposit_total ck)" "is_finite (minimum_balance rules)"
  shows "v_reason v =
     (if \<not> registered ck then NOT_REGISTERED
      else if dval (deposit_total ck) < dval (minimum_balance rules) then INSUFFICIENT_BALANCE
      else if rt \<and> qualifying_trades ck = None then ER_PROVIDER_UNAVAILABLE
      else if rt \<and> the (qualifying_trades ck) < minimum_trades_per_period rules
        then INSUFFICIENT_TRADING
      else ELIGIBLE)"
  using assms
  by (auto simp: evaluate_referral_def dec_simps res_simps split: if_splits option.splits)

lemma evaluate_state:
  "evaluate_referral ck rules rt = Inr v \<Longrightarrow>
     v_compliance_state v =
       (case v_reason v of ELIGIBLE \<Rightarrow> CS_COMPLIANT
        | ER_PROVIDER_UNAVAILABLE \<Rightarrow> CS_PROVIDER_UNAVAILABLE | _ \<Rightarrow> CS_NON_COMPLIANT)"
  by (auto simp: evaluate_referral_def res_simps split: if_splits option.splits)

lemma evaluate_balance:
  "evaluate_referral (Some ck) rules rt = Inr v \<Longrightarrow> balance v = deposit_total ck"
  by (auto simp: evaluate_referral_def res_simps split: if_splits option.splits)

lemma evaluate_no_trading:
  "evaluate_referral ck rules False = Inr v \<Longrightarrow> v_reason v \<noteq> INSUFFICIENT_TRADING"
  by (auto simp: evaluate_referral_def res_simps split: if_splits option.splits)

lemma evaluate_signup_unavailable:
  "evaluate_referral ck rules False = Inr v \<Longrightarrow>
     v_reason v = ER_PROVIDER_UNAVAILABLE \<longleftrightarrow> ck = None"
  by (auto simp: evaluate_referral_def res_simps split: if_splits option.splits)

lemma evaluate_short:
  assumes "evaluate_referral (Some ck) rules rt = Inr v" "v_reason v = INSUFFICIENT_BALANCE"
  shows "dec_sub (minimum_balance rules) (deposit_total ck) = Inr (shortfall v)"
  using assms by (auto simp: evaluate_referral_def res_simps split: if_splits option.splits)

subsection \<open>Properties\<close>

text \<open>C8. The eligibility rule. On finite amounts, an account qualifies exactly when the provider
  answered, it is registered under the referral, its deposits reach the configured minimum with no
  upper bound, and, where trading is required, the provider reported at least the configured
  number of trades.\<close>

theorem eligible_iff:
  assumes "evaluate_referral check rules rt = Inr v"
    and "\<forall>ck. check = Some ck \<longrightarrow> is_finite (deposit_total ck)" "is_finite (minimum_balance rules)"
  shows "eligible v \<longleftrightarrow>
     (\<exists>ck. check = Some ck \<and> registered ck \<and>
        dval (minimum_balance rules) \<le> dval (deposit_total ck) \<and>
        (rt \<longrightarrow> (\<exists>n. qualifying_trades ck = Some n \<and> minimum_trades_per_period rules \<le> n)))"
proof (cases check)
  case None
  with assms show ?thesis by (auto simp: eligible_def)
next
  case (Some ck)
  with assms have "v_reason v =
     (if \<not> registered ck then NOT_REGISTERED
      else if dval (deposit_total ck) < dval (minimum_balance rules) then INSUFFICIENT_BALANCE
      else if rt \<and> qualifying_trades ck = None then ER_PROVIDER_UNAVAILABLE
      else if rt \<and> the (qualifying_trades ck) < minimum_trades_per_period rules
        then INSUFFICIENT_TRADING
      else ELIGIBLE)"
    by (intro evaluate_reason) simp_all
  with Some show ?thesis by (auto simp: eligible_def not_less)
qed

definition sample_check :: "decimal \<Rightarrow> int option \<Rightarrow> referral_check" where
  "sample_check d n = \<lparr>chk_uid = asc ''123456789'', registered = True, deposit_total = d,
                       qualifying_trades = n\<rparr>"

definition sample_rules :: referral_rules where
  "sample_rules = \<lparr>minimum_balance = Fin False 300 0, minimum_trades_per_period = 1,
                   trade_period_days = 7\<rparr>"

lemmas sample_eval = sample_check_def sample_rules_def evaluate_referral_def eligible_def
  scaled_def pow10_def

theorem eligible_iff_witness:
  "\<exists>v. evaluate_referral (Some (sample_check (Fin False 30000 (-2)) (Some 1))) sample_rules True
     = Inr v \<and> eligible v"
proof -
  obtain v where v: "evaluate_referral (Some (sample_check (Fin False 30000 (-2)) (Some 1)))
      sample_rules True = Inr v"
    by (simp add: sample_eval)
  show ?thesis
    using eligible_iff [OF v] v by (simp add: sample_check_def sample_rules_def pow10_def)
qed

text \<open>A provider outage is never held against the user: with no answer the verdict is
  PROVIDER_UNAVAILABLE whatever the rules, and a verdict that blames the user (NON_COMPLIANT)
  always rests on an answer the provider gave about that very fact: not registered, a deposit below
  the minimum, or a reported number of trades below the required one.\<close>

theorem outage_never_blames:
  "(\<exists>v. evaluate_referral None rules rt = Inr v \<and> v_reason v = ER_PROVIDER_UNAVAILABLE \<and>
      v_compliance_state v = CS_PROVIDER_UNAVAILABLE) \<and>
   (\<forall>check v. evaluate_referral check rules rt = Inr v \<and> v_compliance_state v = CS_NON_COMPLIANT
      \<longrightarrow> (\<exists>ck. check = Some ck \<and>
             (\<not> registered ck \<or> dec_lt (deposit_total ck) (minimum_balance rules) = Inr True \<or>
              (rt \<and> (\<exists>n. qualifying_trades ck = Some n \<and> n < minimum_trades_per_period rules)))))"
  by (auto simp: evaluate_referral_def res_simps split: if_splits option.splits)

theorem outage_never_blames_witness:
  "\<exists>v ck. evaluate_referral (Some (sample_check (Fin False 10 0) None)) sample_rules False = Inr v \<and>
       v_compliance_state v = CS_NON_COMPLIANT \<and> Some (sample_check (Fin False 10 0) None) = Some ck"
proof -
  obtain v where v: "evaluate_referral (Some (sample_check (Fin False 10 0) None)) sample_rules False
      = Inr v" "v_compliance_state v = CS_NON_COMPLIANT"
    by (simp add: sample_eval dec_sub_def dec_fix_def ndigits.simps prec_def etop_def emax_def
      etiny_def emin_def)
  then show ?thesis using outage_never_blames [of sample_rules False] by blast
qed

text \<open>On ordinary amounts the rule always returns a verdict, and when it says the balance is
  short the shortfall it reports is a finite, strictly positive amount.\<close>

theorem evaluate_returns_positive_shortfall:
  assumes "ordinary (minimum_balance rules)"
    and "\<forall>ck. check = Some ck \<longrightarrow> ordinary (deposit_total ck)"
  shows "\<exists>v. evaluate_referral check rules rt = Inr v \<and>
     (v_reason v = INSUFFICIENT_BALANCE \<longrightarrow> is_finite (shortfall v) \<and> 0 < dval (shortfall v))"
proof (cases check)
  case None
  then show ?thesis by simp
next
  case (Some ck)
  with assms have o: "ordinary (deposit_total ck)" "is_finite (deposit_total ck)"
      "is_finite (minimum_balance rules)"
    by (auto intro: ordinary_finite)
  show ?thesis
  proof (cases "registered ck \<and> dval (deposit_total ck) < dval (minimum_balance rules)")
    case True
    with dec_sub_ordinary_pos [OF assms(1) o(1)] Some o show ?thesis
      by (auto simp: evaluate_referral_def dec_simps)
  next
    case False
    with Some o show ?thesis
      by (auto simp: evaluate_referral_def dec_simps split: option.splits)
  qed
qed

theorem evaluate_returns_positive_shortfall_witness:
  "\<exists>v. evaluate_referral (Some (sample_check (Fin False 29999 (-2)) None)) sample_rules False = Inr v"
  using evaluate_returns_positive_shortfall
    [of sample_rules "Some (sample_check (Fin False 29999 (-2)) None)" False]
  by (auto simp: sample_check_def sample_rules_def)

end
