(* ===== verification/Ports.thy ===== *)
theory Ports
  imports Isolation Eligibility
begin

text \<open>
  The program's view of the outside: the clock and UUID source, and the two ports
  \<open>app/application/ports/referral_provider.py\<close> and \<open>telegram_provider.py\<close>.

  A provider is a record of functions, one per port method, that answer from the history of the
  calls made so far; any deterministic provider is one of these, and every theorem holds for all of
  them unless it says otherwise. The actions below make a call and log it with its answer.
\<close>

text \<open>\<open>clock\<close> gives the k-th reading of \<open>utcnow\<close>, \<open>uuid4\<close> the k-th UUID drawn, \<open>exn_text\<close> the text
  \<open>type(exc).__name__: exc\<close> of an exception.\<close>

record runtime =
  clock :: "nat \<Rightarrow> int"
  uuid4 :: "nat \<Rightarrow> uuid"
  exn_text :: "exn \<Rightarrow> ustr"

definition utcnow :: "runtime \<Rightarrow> datetime act" where
  "utcnow env = (\<lambda>w. (Inr (Aware (clock env (ticks w))), w\<lparr>ticks := Suc (ticks w)\<rparr>))"

definition new_id :: "runtime \<Rightarrow> uuid act" where
  "new_id env = (\<lambda>w. (Inr (uuid4 env (draws w)), w\<lparr>draws := Suc (draws w)\<rparr>))"

text \<open>\<open>now or utcnow()\<close>.\<close>

definition now_or_utcnow :: "runtime \<Rightarrow> datetime option \<Rightarrow> datetime act" where
  "now_or_utcnow env now = (case now of Some m \<Rightarrow> retA m | None \<Rightarrow> utcnow env)"

text \<open>The default id and creation time of a new row of tenant \<open>t\<close>.\<close>

definition new_scoped :: "runtime \<Rightarrow> uuid \<Rightarrow> scoped act" where
  "new_scoped env t =
     bindA (new_id env) (\<lambda>i.
     bindA (utcnow env) (\<lambda>c.
     retA \<lparr>row_id = i, created_at = c, tenant_id = t\<rparr>))"

subsection \<open>The referral provider\<close>

record referral_provider =
  rp_provider_type :: provider_type
  rp_validate_user :: "ustr list \<Rightarrow> ustr \<Rightarrow> referral_check res"

definition validate_user :: "referral_provider \<Rightarrow> ustr \<Rightarrow> referral_check act" where
  "validate_user rp u = (\<lambda>w.
     (rp_validate_user rp (ref_log w) u, w\<lparr>ref_log := ref_log w @ [u]\<rparr>))"

fun is_unavailable :: "exn \<Rightarrow> bool" where
  "is_unavailable (ProviderUnavailableError s) = True"
| "is_unavailable _ = False"

text \<open>\<open>try: check = await validate_user(uid) except ProviderUnavailableError: check = None\<close>.\<close>

definition try_validate :: "referral_provider \<Rightarrow> ustr \<Rightarrow> referral_check option act" where
  "try_validate rp u =
     tryA (bindA (validate_user rp u) (\<lambda>c. retA (Some c)))
          (\<lambda>e. if is_unavailable e then Some (retA None) else None)"

subsection \<open>Telegram\<close>

record telegram_provider =
  tp_get_me :: "tg_event list \<Rightarrow> bot_identity res"
  tp_create_invite_link ::
    "tg_event list \<Rightarrow> int \<Rightarrow> int \<Rightarrow> datetime option \<Rightarrow> ustr option \<Rightarrow> ustr res"
  tp_get_chat_member :: "tg_event list \<Rightarrow> int \<Rightarrow> int \<Rightarrow> chat_member_status res"
  tp_ban_chat_member :: "tg_event list \<Rightarrow> int \<Rightarrow> int \<Rightarrow> unit res"
  tp_unban_chat_member :: "tg_event list \<Rightarrow> int \<Rightarrow> int \<Rightarrow> unit res"
  tp_send_message :: "tg_event list \<Rightarrow> int \<Rightarrow> ustr \<Rightarrow> reply_markup option \<Rightarrow> unit res"

definition call_telegram :: "(tg_event list \<Rightarrow> 'a res) \<Rightarrow> ('a res \<Rightarrow> tg_event) \<Rightarrow> 'a act" where
  "call_telegram f ev = (\<lambda>w. let r = f (tg_log w) in (r, w\<lparr>tg_log := tg_log w @ [ev r]\<rparr>))"

definition get_me :: "telegram_provider \<Rightarrow> bot_identity act" where
  "get_me tp = call_telegram (tp_get_me tp) GetMe"

definition create_invite_link ::
  "telegram_provider \<Rightarrow> int \<Rightarrow> int \<Rightarrow> datetime option \<Rightarrow> ustr option \<Rightarrow> ustr act" where
  "create_invite_link tp chat limit expire nm =
     call_telegram (\<lambda>h. tp_create_invite_link tp h chat limit expire nm)
       (CreateInviteLink chat limit expire nm)"

definition get_chat_member :: "telegram_provider \<Rightarrow> int \<Rightarrow> int \<Rightarrow> chat_member_status act" where
  "get_chat_member tp chat user =
     call_telegram (\<lambda>h. tp_get_chat_member tp h chat user) (GetChatMember chat user)"

definition ban_chat_member :: "telegram_provider \<Rightarrow> int \<Rightarrow> int \<Rightarrow> unit act" where
  "ban_chat_member tp chat user =
     call_telegram (\<lambda>h. tp_ban_chat_member tp h chat user) (BanChatMember chat user)"

definition unban_chat_member :: "telegram_provider \<Rightarrow> int \<Rightarrow> int \<Rightarrow> unit act" where
  "unban_chat_member tp chat user =
     call_telegram (\<lambda>h. tp_unban_chat_member tp h chat user) (UnbanChatMember chat user)"

definition send_message ::
  "telegram_provider \<Rightarrow> int \<Rightarrow> ustr \<Rightarrow> reply_markup option \<Rightarrow> unit act" where
  "send_message tp chat txt markup =
     call_telegram (\<lambda>h. tp_send_message tp h chat txt markup) (SendMessage chat txt markup)"

lemmas telegram_calls =
  get_me_def create_invite_link_def get_chat_member_def ban_chat_member_def
  unban_chat_member_def send_message_def call_telegram_def

lemma utcnow_run: "utcnow env w = (Inr (Aware (clock env (ticks w))), w\<lparr>ticks := Suc (ticks w)\<rparr>)"
  by (simp add: utcnow_def)

lemma send_message_run:
  "send_message tp c txt mk w =
     (tp_send_message tp (tg_log w) c txt mk,
      w\<lparr>tg_log := tg_log w @ [SendMessage c txt mk (tp_send_message tp (tg_log w) c txt mk)]\<rparr>)"
  by (simp add: telegram_calls Let_def)

text \<open>A check that comes back tells what the provider said; an outage gives no check; nothing else
  is swallowed.\<close>

lemma try_validate_run:
  "try_validate rp u w =
     (case rp_validate_user rp (ref_log w) u of
        Inr c \<Rightarrow> Inr (Some c)
      | Inl e \<Rightarrow> if is_unavailable e then Inr None else Inl e,
      w\<lparr>ref_log := ref_log w @ [u]\<rparr>)"
  by (auto simp: try_validate_def tryA_def bindA_def validate_user_def split: sum.splits)

subsection \<open>What the ports keep\<close>

context enrol_relation
begin

lemma keeps_utcnow [keeps_rules]: "keeps R (utcnow env)"
  by (simp add: keeps_def utcnow_def clock_kept)

lemma keeps_new_id [keeps_rules]: "keeps R (new_id env)"
  by (simp add: keeps_def new_id_def draws_kept)

lemma keeps_now_or_utcnow [keeps_rules]: "keeps R (now_or_utcnow env now)"
  by (cases now) (simp_all add: now_or_utcnow_def keeps_utcnow keeps_retA)

lemma keeps_new_scoped [keeps_rules]: "keeps R (new_scoped env t)"
  by (simp add: new_scoped_def keeps_bindA keeps_new_id keeps_utcnow keeps_retA)

end

context asking_relation
begin

lemma keeps_validate_user [keeps_rules]: "keeps R (validate_user rp u)"
  by (simp add: keeps_def validate_user_def referral_kept)

lemma keeps_try_validate [keeps_rules]: "keeps R (try_validate rp u)"
  by (auto simp: try_validate_def keeps_bindA keeps_validate_user keeps_retA
      intro!: keeps_tryA split: if_splits)

end

context messaging_relation
begin

lemma keeps_talk [keeps_rules]:
  "keeps R (get_me tp)" "keeps R (create_invite_link tp c l x n)"
  "keeps R (get_chat_member tp c u)" "keeps R (send_message tp c txt mk)"
  by (simp_all add: keeps_def telegram_calls Let_def talk_kept)

end

context effect_relation
begin

lemma keeps_removals [keeps_rules]:
  "keeps R (ban_chat_member tp c u)" "keeps R (unban_chat_member tp c u)"
  by (simp_all add: keeps_def telegram_calls Let_def removal_kept)

lemmas keeps_telegram = keeps_talk keeps_removals

end

end
