(* ===== verification/Repositories.thy ===== *)
theory Repositories
  imports Ports
begin

text \<open>
  \<open>app/adapters/persistence/repositories.py\<close>. The generic repository works on every tenant-scoped
  table; the others add their own queries. Rows come in table order, as no query orders them.
  \<open>save\<close> adds a new object or writes back a loaded one (SQLAlchemy knows which; here the caller
  says), and returns it with its tenant set.
\<close>

definition get_by_id ::
  "'r scoped_scheme table \<Rightarrow> uuid \<Rightarrow> uuid \<Rightarrow> 'r scoped_scheme option act" where
  "get_by_id tbl t i =
     bindA (select_rows tbl (\<lambda>r. tenant_id r = t \<and> row_id r = i)) (\<lambda>rs. liftR (one_or_none rs))"

definition list_all ::
  "'r scoped_scheme table \<Rightarrow> uuid \<Rightarrow> nat \<Rightarrow> nat \<Rightarrow> 'r scoped_scheme list act" where
  "list_all tbl t limit offset =
     bindA (select_rows tbl (\<lambda>r. tenant_id r = t)) (\<lambda>rs. retA (take limit (drop offset rs)))"

definition save ::
  "'r scoped_scheme table \<Rightarrow> bool \<Rightarrow> uuid \<Rightarrow> 'r scoped_scheme \<Rightarrow> 'r scoped_scheme act" where
  "save tbl is_new t r =
     (let r' = r\<lparr>tenant_id := t\<rparr> in
      thenA (if is_new then add_row tbl r' else update_row tbl r') (retA r'))"

definition delete :: "'r scoped_scheme table \<Rightarrow> uuid \<Rightarrow> uuid \<Rightarrow> bool act" where
  "delete tbl t i =
     bindA (thenA flush (delete_rows tbl (\<lambda>r. tenant_id r = t \<and> row_id r = i)))
       (\<lambda>n. retA (0 < n))"

definition get_by_telegram_id :: "uuid \<Rightarrow> int \<Rightarrow> telegram_user option act" where
  "get_by_telegram_id t tg =
     bindA (select_rows users_table (\<lambda>r. tenant_id r = t \<and> telegram_user_id r = tg))
       (\<lambda>rs. liftR (one_or_none rs))"

definition get_by_uid :: "uuid \<Rightarrow> provider_type \<Rightarrow> ustr \<Rightarrow> referral_account option act" where
  "get_by_uid t pt u =
     bindA (select_rows accounts_table
              (\<lambda>r. tenant_id r = t \<and> acc_provider_type r = pt \<and> uid r = u))
       (\<lambda>rs. liftR (one_or_none rs))"

definition list_for_user :: "uuid \<Rightarrow> uuid \<Rightarrow> referral_account list act" where
  "list_for_user t user =
     select_rows accounts_table (\<lambda>r. tenant_id r = t \<and> acc_user_id r = user)"

definition get_active_for_user :: "uuid \<Rightarrow> uuid \<Rightarrow> market \<Rightarrow> subscription option act" where
  "get_active_for_user t user m =
     bindA (select_rows subscriptions_table
              (\<lambda>r. tenant_id r = t \<and> sub_user_id r = user \<and> sub_market r = m))
       (\<lambda>rs. retA (case rs of [] \<Rightarrow> None | r # _ \<Rightarrow> Some r))"

definition get_for_user_and_channel :: "uuid \<Rightarrow> uuid \<Rightarrow> uuid \<Rightarrow> vip_membership option act" where
  "get_for_user_and_channel t user chan =
     bindA (select_rows memberships_table
              (\<lambda>r. tenant_id r = t \<and> mem_user_id r = user \<and> channel_id r = chan))
       (\<lambda>rs. liftR (one_or_none rs))"

definition list_by_status :: "uuid \<Rightarrow> membership_status list \<Rightarrow> vip_membership list act" where
  "list_by_status t statuses =
     select_rows memberships_table (\<lambda>r. tenant_id r = t \<and> mem_status r \<in> set statuses)"

definition get_for_market :: "uuid \<Rightarrow> market \<Rightarrow> telegram_channel option act" where
  "get_for_market t m =
     bindA (select_rows channels_table (\<lambda>r. tenant_id r = t \<and> ch_market r = m \<and> ch_is_active r))
       (\<lambda>rs. liftR (one_or_none rs))"

definition get_for ::
  "uuid \<Rightarrow> provider_type \<Rightarrow> market \<Rightarrow> referral_program_config option act" where
  "get_for t pt m =
     bindA (select_rows configs_table
              (\<lambda>r. tenant_id r = t \<and> cfg_provider_type r = pt \<and> cfg_market r = m))
       (\<lambda>rs. liftR (one_or_none rs))"

definition get_named :: "uuid \<Rightarrow> provider_type \<Rightarrow> ustr \<Rightarrow> provider_credential option act" where
  "get_named t pt nm =
     bindA (select_rows credentials_table
              (\<lambda>r. tenant_id r = t \<and> cred_provider_type r = pt \<and> credential_name r = nm))
       (\<lambda>rs. liftR (one_or_none rs))"

definition get_bot_config :: "uuid \<Rightarrow> telegram_bot_config option act" where
  "get_bot_config t =
     bindA (select_rows bot_configs_table (\<lambda>r. tenant_id r = t)) (\<lambda>rs. liftR (one_or_none rs))"

subsection \<open>The tenant registry\<close>

definition get_tenant :: "uuid \<Rightarrow> tenant option act" where
  "get_tenant t =
     bindA (thenA flush (statement (readA (\<lambda>w. filter (\<lambda>r. row_id r = t) (tenants (db w))))))
       (\<lambda>rs. liftR (one_or_none rs))"

definition get_by_slug :: "ustr \<Rightarrow> tenant option act" where
  "get_by_slug s =
     bindA (thenA flush (statement (readA (\<lambda>w. filter (\<lambda>r. slug r = s) (tenants (db w))))))
       (\<lambda>rs. liftR (one_or_none rs))"

definition insert_tenant :: "tenant \<Rightarrow> unit act" where
  "insert_tenant r = (\<lambda>w.
     if \<exists>x \<in> set (tenants (db w)). row_id x = row_id r \<or> slug x = slug r
       then (Inl IntegrityError, w)
     else (Inr (), w\<lparr>db := (db w)\<lparr>tenants := tenants (db w) @ [r]\<rparr>\<rparr>))"

definition create_tenant :: "tenant \<Rightarrow> tenant act" where
  "create_tenant r = thenA (in_flush (thenA write_pending (insert_tenant r))) (retA r)"

lemmas repository_queries =
  get_by_id_def list_all_def get_by_telegram_id_def get_by_uid_def list_for_user_def
  get_active_for_user_def get_for_user_and_channel_def list_by_status_def get_for_market_def
  get_for_def get_named_def get_bot_config_def

subsection \<open>What the repositories keep\<close>

context tx_relation
begin

lemma keeps_queries [keeps_rules]:
  "keeps R (get_by_id tbl t i)" "keeps R (list_all tbl t limit offset)"
  "keeps R (get_by_telegram_id t tg)" "keeps R (get_by_uid t pt u)" "keeps R (list_for_user t user)"
  "keeps R (get_active_for_user t user m)" "keeps R (get_for_user_and_channel t user chan)"
  "keeps R (list_by_status t statuses)" "keeps R (get_for_market t m)" "keeps R (get_for t pt m)"
  "keeps R (get_named t pt nm)" "keeps R (get_bot_config t)"
  unfolding repository_queries
  by (intro keeps_bindA keeps_select_rows keeps_retA keeps_liftR)+

lemma keeps_save:
  "keeps S (insert_row tbl (r\<lparr>tenant_id := t\<rparr>)) \<Longrightarrow> keeps S (put_row tbl (r\<lparr>tenant_id := t\<rparr>)) \<Longrightarrow>
     keeps R (save tbl is_new t r)"
  by (simp add: save_def Let_def keeps_thenA keeps_retA keeps_add_row keeps_update_row)

end

context enrol_relation
begin

lemma keeps_enrol_writes [keeps_rules]:
  "keeps R (save users_table b t u)" "keeps R (save accounts_table b t a)"
  "keeps R (touch_row users_table u)" "keeps R (touch_row accounts_table a)"
  by (intro keeps_save keeps_touch_row users_kept accounts_kept)+

end

context db_relation
begin

lemma keeps_saves [keeps_rules]:
  "keeps R (save subscriptions_table b t s)" "keeps R (save memberships_table b t m)"
  by (intro keeps_save subscriptions_kept memberships_kept)+

lemma keeps_touches [keeps_rules]:
  "keeps R (touch_row subscriptions_table s)" "keeps R (touch_row memberships_table m)"
  by (intro keeps_touch_row subscriptions_kept memberships_kept)+

end

end
