(* ===== verification/Runs.thy ===== *)
theory Runs
  imports Repositories
begin

text \<open>
  Running the session in the state the services find it in: a transaction has begun, bound to tenant
  \<open>t\<close>, nothing is waiting to be flushed and nothing has failed (\<open>ready\<close>; the provider factory has
  queried the credentials by then). A query then reads exactly the tenant's rows, and a write that
  returns did what its name says. The rules for a run that returned are collected in \<open>run_dests\<close>.
\<close>

definition ready :: "uuid \<Rightarrow> world \<Rightarrow> bool" where
  "ready t w \<longleftrightarrow> in_tx w \<and> \<not> failed w \<and> pending w = [] \<and> bound w = Some t \<and>
     (postgres w \<longrightarrow> published w = Some t)"

text \<open>The rows an update of \<open>r\<close> replaces.\<close>

definition row_hit :: "world \<Rightarrow> 'r scoped_scheme \<Rightarrow> 'r scoped_scheme \<Rightarrow> bool" where
  "row_hit w r x \<longleftrightarrow> row_policy w x \<and> row_id x = row_id r"

lemma row_hit_simps [simp]:
  "row_hit (w\<lparr>db := d\<rparr>) = row_hit w" "row_hit (w\<lparr>pending := ps\<rparr>) = row_hit w"
  "row_hit (w\<lparr>tg_log := l\<rparr>) = row_hit w" "row_hit (w\<lparr>ref_log := us\<rparr>) = row_hit w"
  "row_hit (w\<lparr>ticks := k\<rparr>) = row_hit w" "row_hit (w\<lparr>draws := k\<rparr>) = row_hit w"
  by (simp_all add: fun_eq_iff row_hit_def row_policy_def)

lemma ready_begin_tx: "ready t w \<Longrightarrow> begin_tx w = w"
  by (simp add: ready_def begin_tx_def)

lemma ready_visible: "ready t w \<Longrightarrow> loader_criteria w r \<and> row_policy w r \<longleftrightarrow> tenant_id r = t"
  by (auto simp: ready_def loader_criteria_def row_policy_def)

lemma ready_policy: "ready t w \<Longrightarrow> tenant_id r = t \<Longrightarrow> row_policy w r"
  by (auto simp: ready_def row_policy_def)

lemma ready_db [simp]: "ready t (w\<lparr>db := d\<rparr>) = ready t w"
  by (simp add: ready_def)

lemma ready_calls [simp]:
  "ready t (w\<lparr>tg_log := l\<rparr>) = ready t w" "ready t (w\<lparr>ref_log := us\<rparr>) = ready t w"
  "ready t (w\<lparr>ticks := k\<rparr>) = ready t w" "ready t (w\<lparr>draws := k\<rparr>) = ready t w"
  by (simp_all add: ready_def)

subsection \<open>Queries\<close>

lemma select_rows_ready:
  assumes "ready t w"
  shows "select_rows tbl p w = (Inr (filter (\<lambda>r. tenant_id r = t \<and> p r) (tbl_get tbl (db w))), w)"
proof -
  have "scoped_rows tbl p w = filter (\<lambda>r. tenant_id r = t \<and> p r) (tbl_get tbl (db w))"
    unfolding scoped_rows_def using ready_visible [OF assms] by (metis (no_types, lifting))
  with assms show ?thesis
    by (simp add: select_rows_def thenA_def bindA_def flush_def statement_def ready_begin_tx)
      (simp add: ready_def)
qed

lemma find_one_ready:
  assumes "ready t w"
  shows "bindA (select_rows tbl (\<lambda>r. tenant_id r = t \<and> p r)) (\<lambda>rs. liftR (one_or_none rs)) w =
    (one_or_none (filter (\<lambda>r. tenant_id r = t \<and> p r) (tbl_get tbl (db w))), w)"
  by (simp add: bindA_def select_rows_ready [OF assms] conj_left_absorb)


lemma get_by_id_ready:
  "ready t w \<Longrightarrow> get_by_id tbl t i w =
     (one_or_none (filter (\<lambda>r. tenant_id r = t \<and> row_id r = i) (tbl_get tbl (db w))), w)"
  by (simp add: get_by_id_def find_one_ready)

lemma get_by_telegram_id_ready:
  "ready t w \<Longrightarrow> get_by_telegram_id t tg w =
     (one_or_none (filter (\<lambda>r. tenant_id r = t \<and> telegram_user_id r = tg) (telegram_users (db w))), w)"
  by (simp add: get_by_telegram_id_def users_table_def find_one_ready)

lemma get_by_uid_ready:
  "ready t w \<Longrightarrow> get_by_uid t pt u w =
     (one_or_none (filter (\<lambda>r. tenant_id r = t \<and> acc_provider_type r = pt \<and> uid r = u) (referral_accounts (db w))), w)"
  by (simp add: get_by_uid_def accounts_table_def find_one_ready)

lemma get_for_user_and_channel_ready:
  "ready t w \<Longrightarrow> get_for_user_and_channel t user chan w =
     (one_or_none (filter (\<lambda>r. tenant_id r = t \<and> mem_user_id r = user \<and> channel_id r = chan) (vip_memberships (db w))), w)"
  by (simp add: get_for_user_and_channel_def memberships_table_def find_one_ready)

lemma get_for_market_ready:
  "ready t w \<Longrightarrow> get_for_market t m w =
     (one_or_none (filter (\<lambda>r. tenant_id r = t \<and> ch_market r = m \<and> ch_is_active r) (channels (db w))), w)"
  by (simp add: get_for_market_def channels_table_def find_one_ready)

lemma get_for_ready:
  "ready t w \<Longrightarrow> get_for t pt m w =
     (one_or_none (filter (\<lambda>r. tenant_id r = t \<and> cfg_provider_type r = pt \<and> cfg_market r = m) (referral_configs (db w))), w)"
  by (simp add: get_for_def configs_table_def find_one_ready)

lemma get_active_for_user_ready:
  "ready t w \<Longrightarrow> get_active_for_user t user m w =
     (Inr (find_first (\<lambda>r. tenant_id r = t \<and> sub_user_id r = user \<and> sub_market r = m)
        (subscriptions (db w))), w)"
  by (simp add: get_active_for_user_def bindA_def select_rows_ready subscriptions_table_def
      find_first_def)

lemma list_for_user_ready:
  "ready t w \<Longrightarrow> list_for_user t user w =
     (Inr (filter (\<lambda>r. tenant_id r = t \<and> acc_user_id r = user) (referral_accounts (db w))), w)"
  by (simp add: list_for_user_def select_rows_ready accounts_table_def)

lemma list_by_status_ready:
  "ready t w \<Longrightarrow> list_by_status t sts w =
     (Inr (filter (\<lambda>r. tenant_id r = t \<and> mem_status r \<in> set sts) (vip_memberships (db w))), w)"
  by (simp add: list_by_status_def select_rows_ready memberships_table_def)

lemmas query_runs =
  get_by_id_ready get_by_telegram_id_ready get_by_uid_ready get_for_user_and_channel_ready
  get_for_market_ready get_for_ready get_active_for_user_ready list_for_user_ready
  list_by_status_ready

subsection \<open>Writes that returned\<close>

lemma insert_row_InrD:
  "insert_row tbl r w = (Inr x, w') \<Longrightarrow>
     w' = w\<lparr>db := tbl_set tbl (tbl_get tbl (db w) @ [r]) (db w)\<rparr> \<and>
     (\<forall>y \<in> set (tbl_get tbl (db w)). row_id y \<noteq> row_id r)"
  by (auto simp: insert_row_def split: if_splits)

lemma put_row_InrD:
  "put_row tbl r w = (Inr x, w') \<Longrightarrow>
     w' = w\<lparr>db := tbl_set tbl (update_where (row_hit w r) (\<lambda>_. r) (tbl_get tbl (db w))) (db w)\<rparr> \<and>
     (\<exists>x \<in> set (tbl_get tbl (db w)). row_hit w r x)"
  by (auto simp: put_row_def Let_def row_hit_def [abs_def] split: if_splits)

lemma write_pending_ready:
  assumes "ready t w" shows "write_pending w = (Inr (), w)"
proof -
  have "w\<lparr>pending := []\<rparr> = w" using assms by (cases w) (simp add: ready_def)
  with assms show ?thesis by (simp add: write_pending_def ready_def)
qed

lemma in_flush_plain_InrD:
  assumes "ready t w" and "in_flush m w = (Inr x, w')" shows "m w = (Inr x, w')"
proof -
  have "\<not> failed w" using assms(1) by (simp add: ready_def)
  with assms show ?thesis
    by (simp add: in_flush_def statement_def ready_begin_tx split: prod.splits sum.splits)
qed

lemma in_flush_InrD:
  assumes "ready t w" and "in_flush (thenA write_pending m) w = (Inr x, w')"
  shows "m w = (Inr x, w')"
  using in_flush_plain_InrD [OF assms] write_pending_ready [OF assms(1)]
  by (simp add: thenA_def bindA_def)

lemma add_row_InrD:
  "add_row tbl r w = (Inr x, w') \<Longrightarrow> ready t w \<Longrightarrow>
     w' = w\<lparr>db := tbl_set tbl (tbl_get tbl (db w) @ [r]) (db w)\<rparr> \<and>
     (\<forall>y \<in> set (tbl_get tbl (db w)). row_id y \<noteq> row_id r)"
  unfolding add_row_def by (blast dest: in_flush_InrD insert_row_InrD)

lemma update_row_InrD:
  "update_row tbl r w = (Inr x, w') \<Longrightarrow> ready t w \<Longrightarrow>
     w' = w\<lparr>db := tbl_set tbl (update_where (row_hit w r) (\<lambda>_. r) (tbl_get tbl (db w))) (db w)\<rparr> \<and>
     (\<exists>x \<in> set (tbl_get tbl (db w)). row_hit w r x)"
  unfolding update_row_def by (blast dest: in_flush_InrD put_row_InrD)

lemma touch_row_InrD:
  assumes "touch_row tbl r w = (Inr x, w')" and "ready t w"
  shows "w' = w\<lparr>db := tbl_set tbl (update_where (row_hit w r) (\<lambda>_. r) (tbl_get tbl (db w))) (db w)\<rparr> \<and>
     (\<exists>x \<in> set (tbl_get tbl (db w)). row_hit w r x)"
proof -
  have "\<not> failed w" using assms(2) by (simp add: ready_def)
  with assms(1) have "in_flush (put_row tbl r) w = (Inr (), w')" by (simp add: touch_row_def)
  with assms(2) have "put_row tbl r w = (Inr (), w')" by (rule in_flush_plain_InrD)
  then show ?thesis by (rule put_row_InrD)
qed

text \<open>After a save that returned, the row is in its table; the saved value is what is returned.\<close>

lemma save_InrD:
  assumes "save tbl is_new t r w = (Inr r', w')" and "ready t w"
  shows "r' = r\<lparr>tenant_id := t\<rparr> \<and>
    (\<exists>rs. w' = w\<lparr>db := tbl_set tbl rs (db w)\<rparr> \<and> r' \<in> set rs \<and>
       rs = (if is_new then tbl_get tbl (db w) @ [r']
             else update_where (row_hit w r') (\<lambda>_. r') (tbl_get tbl (db w)))) \<and>
    (is_new \<longrightarrow> (\<forall>y \<in> set (tbl_get tbl (db w)). row_id y \<noteq> row_id r'))"
proof (cases is_new)
  case True
  with assms(1) have "r' = r\<lparr>tenant_id := t\<rparr>" "add_row tbl r' w = (Inr (), w')"
    by (auto simp: save_def Let_def thenA_def bindA_eq_Inr)
  with assms(2) True show ?thesis by (auto dest: add_row_InrD)
next
  case False
  with assms(1) have r': "r' = r\<lparr>tenant_id := t\<rparr>" "update_row tbl r' w = (Inr (), w')"
    by (auto simp: save_def Let_def thenA_def bindA_eq_Inr)
  with update_row_InrD [OF r'(2) assms(2)] False show ?thesis
    by (auto simp: set_update_where image_iff)
qed

lemma select_rows_InrD:
  "select_rows tbl p w = (Inr rs, w') \<Longrightarrow> ready t w \<Longrightarrow>
     w' = w \<and> rs = filter (\<lambda>r. tenant_id r = t \<and> p r) (tbl_get tbl (db w))"
  by (auto simp: select_rows_ready)

lemma find_one_InrD:
  assumes "bindA (select_rows tbl p) (\<lambda>rs. liftR (one_or_none rs)) w = (Inr found, w')"
    and "ready t w"
  shows "w' = w \<and> one_or_none (filter (\<lambda>r. tenant_id r = t \<and> p r) (tbl_get tbl (db w))) = Inr found"
  using assms by (auto simp: bindA_def select_rows_ready)

lemma utcnow_InrD: "utcnow env w = (Inr m, w') \<Longrightarrow> w' = w\<lparr>ticks := Suc (ticks w)\<rparr> \<and> is_aware m"
  by (auto simp: utcnow_def)

lemma new_scoped_InrD:
  "new_scoped env t w = (Inr s, w') \<Longrightarrow>
     tenant_id s = t \<and> w' = w\<lparr>draws := Suc (draws w), ticks := Suc (ticks w)\<rparr> \<and>
     row_id s = uuid4 env (draws w)"
  by (auto simp: new_scoped_def bindA_def new_id_def utcnow_def)

subsection \<open>With snapshots still to be flushed\<close>

definition open_tx :: "uuid \<Rightarrow> world \<Rightarrow> bool" where
  "open_tx t w \<longleftrightarrow> in_tx w \<and> \<not> failed w \<and> bound w = Some t \<and>
     (postgres w \<longrightarrow> published w = Some t)"

lemma ready_open: "ready t w \<longleftrightarrow> open_tx t w \<and> pending w = []"
  by (auto simp: ready_def open_tx_def)

lemma open_tx_simps [simp]:
  "open_tx t (w\<lparr>db := d\<rparr>) = open_tx t w" "open_tx t (w\<lparr>pending := ps\<rparr>) = open_tx t w"
  "open_tx t (w\<lparr>tg_log := l\<rparr>) = open_tx t w" "open_tx t (w\<lparr>ref_log := us\<rparr>) = open_tx t w"
  "open_tx t (w\<lparr>ticks := k\<rparr>) = open_tx t w" "open_tx t (w\<lparr>draws := k\<rparr>) = open_tx t w"
  by (simp_all add: open_tx_def)

lemma open_begin_tx: "open_tx t w \<Longrightarrow> begin_tx w = w"
  by (simp add: open_tx_def begin_tx_def)

text \<open>Two worlds that differ in the snapshots written and waiting.\<close>

definition flushed :: "world \<Rightarrow> world \<Rightarrow> bool" where
  "flushed w w' \<longleftrightarrow> (\<exists>ss. w' = w\<lparr>pending := [], db := (db w)\<lparr>snapshots := ss\<rparr>\<rparr>)"

lemma flushedD:
  "flushed w w' \<Longrightarrow> open_tx t w \<Longrightarrow> ready t w' \<and> db w' = (db w)\<lparr>snapshots := snapshots (db w')\<rparr> \<and>
     tg_log w' = tg_log w \<and> ref_log w' = ref_log w \<and> vip_memberships (db w') = vip_memberships (db w) \<and>
     referral_accounts (db w') = referral_accounts (db w) \<and>
     subscriptions (db w') = subscriptions (db w) \<and> channels (db w') = channels (db w) \<and>
     telegram_users (db w') = telegram_users (db w) \<and>
     referral_configs (db w') = referral_configs (db w) \<and>
     job_executions (db w') = job_executions (db w)"
  by (auto simp: flushed_def ready_open)

lemma flushed_row_hit: "flushed w w' \<Longrightarrow> row_hit w' = row_hit w"
  by (auto simp: flushed_def)

lemma insert_all_InrD:
  "insert_all rs w = (Inr x, w') \<Longrightarrow> \<exists>ss. w' = w\<lparr>db := (db w)\<lparr>snapshots := ss\<rparr>\<rparr>"
proof (induction rs arbitrary: w)
  case Nil
  then have "w' = w\<lparr>db := (db w)\<lparr>snapshots := snapshots (db w)\<rparr>\<rparr>" by simp
  then show ?case by blast
next
  case (Cons r rs)
  then obtain v where "insert_row snapshots_table r w = (Inr (), v)" "insert_all rs v = (Inr x, w')"
    by (auto simp: thenA_def bindA_eq_Inr)
  with Cons.IH obtain ss where "w' = v\<lparr>db := (db v)\<lparr>snapshots := ss\<rparr>\<rparr>" by blast
  moreover have "v = w\<lparr>db := (db w)\<lparr>snapshots := snapshots (db w) @ [r]\<rparr>\<rparr>"
    using insert_row_InrD [OF \<open>insert_row snapshots_table r w = (Inr (), v)\<close>]
    by (simp add: snapshots_table_def)
  ultimately show ?case by auto
qed

lemma flush_InrD:
  assumes "flush w = (Inr x, w')" and "open_tx t w"
  shows "flushed w w'"
proof (cases "pending w = []")
  case True
  with assms(1) have "w' = w" by (simp add: flush_def)
  with True have "w' = w\<lparr>pending := [], db := (db w)\<lparr>snapshots := snapshots (db w)\<rparr>\<rparr>"
    by (cases w) simp
  then show ?thesis unfolding flushed_def by blast
next
  case False
  have "\<not> failed w" using assms(2) by (simp add: open_tx_def)
  with False assms have "insert_all (pending w) (w\<lparr>pending := []\<rparr>) = (Inr x, w')"
    by (simp add: flush_def in_flush_def statement_def open_begin_tx write_pending_def
        split: prod.splits sum.splits)
  from insert_all_InrD [OF this] show ?thesis by (auto simp: flushed_def)
qed

lemma select_rows_open_InrD:
  assumes "select_rows tbl p w = (Inr rs, w')" and "open_tx t w"
  shows "flushed w w' \<and> rs = filter (\<lambda>r. tenant_id r = t \<and> p r) (tbl_get tbl (db w'))"
proof -
  from assms(1) obtain v where f: "flush w = (Inr (), v)"
    and rd: "statement (readA (scoped_rows tbl p)) v = (Inr rs, w')"
    by (auto simp: select_rows_def thenA_def bindA_eq_Inr)
  note fl = flush_InrD [OF f assms(2)]
  with assms(2) have v: "ready t v" by (simp add: flushedD)
  then have "flush v = (Inr (), v)" by (simp add: flush_def ready_def)
  with rd have "select_rows tbl p v = (Inr rs, w')" by (simp add: select_rows_def thenA_def bindA_def)
  with select_rows_ready [OF v, of tbl p] fl show ?thesis by auto
qed

lemma touch_row_open_InrD:
  assumes "touch_row tbl r w = (Inr x, w')" and "open_tx t w"
  shows "w' = w\<lparr>db := tbl_set tbl (update_where (row_hit w r) (\<lambda>_. r) (tbl_get tbl (db w))) (db w)\<rparr> \<and>
     (\<exists>x \<in> set (tbl_get tbl (db w)). row_hit w r x)"
proof -
  have "\<not> failed w" using assms(2) by (simp add: open_tx_def)
  with assms have "put_row tbl r w = (Inr (), w')"
    by (simp add: touch_row_def in_flush_def statement_def open_begin_tx split: prod.splits sum.splits)
  then show ?thesis by (rule put_row_InrD)
qed

end
