(* ===== verification/Invites.thy ===== *)
theory Invites
  imports Runs
begin

text \<open>
  \<open>app/services/invite_service.py\<close>: the single place an invite link is minted. \<open>issue\<close> returns the
  invite with the membership as the code leaves it (it assigns to the object and lets its caller
  save it); a Telegram failure leaves the membership as it was.
\<close>

definition DEFAULT_INVITE_TTL :: int where
  "DEFAULT_INVITE_TTL = micros_per_day"

definition LINK_IS_LIVE :: "membership_status list" where
  "LINK_IS_LIVE = [MS_INVITED, MS_ACTIVE]"

record issued_invite =
  link :: ustr
  reused :: bool

text \<open>\<open>str(uuid)\<close>: 32 lower-case hexadecimal digits, dashes after the 8th, 12th, 16th and 20th.\<close>

definition hex_digit :: "nat \<Rightarrow> nat" where
  "hex_digit d = (if d < 10 then 48 + d else 87 + d)"

definition uuid_str :: "uuid \<Rightarrow> ustr" where
  "uuid_str i =
     concat (map (\<lambda>k. hex_digit (i div 16 ^ (31 - k) mod 16) # (if k \<in> {7, 11, 15, 19} then [45] else []))
               [0..<32])"

definition live_link :: "int \<Rightarrow> vip_membership \<Rightarrow> datetime \<Rightarrow> ustr option res" where
  "live_link ttl m moment =
     (if str_falsy (invite_link m) \<or> mem_status m \<notin> set LINK_IS_LIVE then Inr None
      else (case invite_issued_at m of
              None \<Rightarrow> Inr None
            | Some issued \<Rightarrow>
                bindR (dt_add (as_utc issued) ttl) (\<lambda>expires.
                bindR (dt_le expires moment) (\<lambda>stale.
                  Inr (if stale then None else invite_link m)))))"

definition issue ::
  "runtime \<Rightarrow> telegram_provider \<Rightarrow> int \<Rightarrow> uuid \<Rightarrow> vip_membership \<Rightarrow> telegram_channel \<Rightarrow>
     datetime option \<Rightarrow> (issued_invite \<times> vip_membership) act" where
  "issue env tp ttl t m ch now =
     bindA (now_or_utcnow env now) (\<lambda>moment.
     bindA (liftR (live_link ttl m moment)) (\<lambda>existing.
     case existing of
       Some l \<Rightarrow> retA (\<lparr>link = l, reused = True\<rparr>, m)
     | None \<Rightarrow>
         bindA (liftR (dt_add moment ttl)) (\<lambda>expire.
         bindA (create_invite_link tp (chat_id ch) 1 (Some expire)
                  (Some (asc ''vip-'' @ uuid_str (mem_user_id m)))) (\<lambda>l.
         retA (\<lparr>link = l, reused = False\<rparr>,
               m\<lparr>invite_link := Some l, invite_issued_at := Some moment,
                 mem_status := (if mem_status m = MS_ACTIVE then MS_ACTIVE else MS_INVITED),
                 tenant_id := t\<rparr>)))))"

subsection \<open>When a link is live\<close>

lemma live_link_NoneI:
  "str_falsy (invite_link m) \<or> mem_status m \<notin> set LINK_IS_LIVE \<Longrightarrow> live_link ttl m moment = Inr None"
  by (auto simp: live_link_def)

lemma live_link_fresh:
  assumes "is_aware moment" and "invite_link m = Some l" and "l \<noteq> []"
    and "mem_status m \<in> set LINK_IS_LIVE" and "invite_issued_at m = Some issued"
    and "in_range (micros issued + ttl)"
  shows "live_link ttl m moment =
    Inr (if micros issued + ttl \<le> micros moment then None else Some l)"
proof -
  obtain e where e: "dt_add (as_utc issued) ttl = Inr e" "micros e = micros issued + ttl" "is_aware e"
    using assms(6) by (cases issued) auto
  show ?thesis
    using assms(1-5) e by (simp add: live_link_def dt_le_aware)
qed

text \<open>A link that is returned is the stored one, and it has not expired.\<close>

lemma live_link_Some:
  assumes "live_link ttl m moment = Inr (Some l)"
  shows "invite_link m = Some l \<and> l \<noteq> [] \<and> mem_status m \<in> set LINK_IS_LIVE \<and>
    (\<exists>issued. invite_issued_at m = Some issued \<and> micros moment < micros issued + ttl)"
  using assms
  by (cases "invite_link m")
    (auto simp: live_link_def dt_add_Inr dt_le_Inr res_simps split: if_splits option.splits)

subsection \<open>Issuing\<close>

lemma issue_fresh_run:
  assumes "live_link ttl m moment = Inr None" and "dt_add moment ttl = Inr expire"
    and "tp_create_invite_link tp (tg_log w) (chat_id ch) 1 (Some expire)
           (Some (asc ''vip-'' @ uuid_str (mem_user_id m))) = Inr l"
  shows "issue env tp ttl t m ch (Some moment) w =
    (Inr (\<lparr>link = l, reused = False\<rparr>,
          m\<lparr>invite_link := Some l, invite_issued_at := Some moment,
            mem_status := (if mem_status m = MS_ACTIVE then MS_ACTIVE else MS_INVITED),
            tenant_id := t\<rparr>),
     w\<lparr>tg_log := tg_log w @ [CreateInviteLink (chat_id ch) 1 (Some expire)
          (Some (asc ''vip-'' @ uuid_str (mem_user_id m))) (Inr l)]\<rparr>)"
  using assms
  by (simp add: issue_def now_or_utcnow_def bindA_def telegram_calls Let_def)

lemma issue_live_run:
  assumes "live_link ttl m moment = Inr (Some l)"
  shows "issue env tp ttl t m ch (Some moment) w = (Inr (\<lparr>link = l, reused = True\<rparr>, m), w)"
  using assms by (simp add: issue_def now_or_utcnow_def bindA_def)

text \<open>What \<open>issue\<close> leaves of the membership, on every path on which it returns.\<close>

lemma issue_result:
  assumes "issue env tp ttl t m ch now w = (Inr (iv, m'), w')"
  shows "invite_link m' = Some (link iv) \<and> mem_status m' \<in> set LINK_IS_LIVE \<and>
    invite_issued_at m' \<noteq> None \<and> mem_user_id m' = mem_user_id m \<and> channel_id m' = channel_id m \<and>
    row_id m' = row_id m \<and> subscription_id m' = subscription_id m \<and>
    warnings_sent m' = warnings_sent m \<and> db w' = db w \<and> ref_log w' = ref_log w \<and>
    ready s w' = ready s w \<and>
    (mem_status m = MS_ACTIVE \<longleftrightarrow> mem_status m' = MS_ACTIVE)"
proof -
  obtain moment v where rd: "now_or_utcnow env now w = (Inr moment, v)" "db v = db w"
      "ref_log v = ref_log w" "ready s v = ready s w"
    by (cases now) (simp_all add: now_or_utcnow_def utcnow_def)
  consider l where "live_link ttl m moment = Inr (Some l)" | "live_link ttl m moment = Inr None"
    using assms rd by (cases "live_link ttl m moment") (auto simp: issue_def bindA_def)
  then show ?thesis
  proof cases
    case (1 l)
    with assms rd have "iv = \<lparr>link = l, reused = True\<rparr>" "m' = m" "w' = v"
      by (simp_all add: issue_def bindA_def)
    with live_link_Some [OF 1] rd show ?thesis by auto
  next
    case 2
    from assms rd 2 obtain expire l v' where
      "create_invite_link tp (chat_id ch) 1 (Some expire)
         (Some (asc ''vip-'' @ uuid_str (mem_user_id m))) v = (Inr l, v')"
      and res: "iv = \<lparr>link = l, reused = False\<rparr>"
        "m' = m\<lparr>invite_link := Some l, invite_issued_at := Some moment,
                mem_status := (if mem_status m = MS_ACTIVE then MS_ACTIVE else MS_INVITED),
                tenant_id := t\<rparr>" "w' = v'"
      by (auto simp: issue_def bindA_def split: sum.splits prod.splits)
    then have "db v' = db v" "ref_log v' = ref_log v" "ready s v' = ready s v"
      by (auto simp: telegram_calls Let_def)
    with res rd show ?thesis by (simp add: LINK_IS_LIVE_def)
  qed
qed

context messaging_relation
begin

lemma keeps_issue [keeps_rules]: "keeps R (issue env tp ttl t m ch now)"
  unfolding issue_def
  by (intro keeps_bindA keeps_now_or_utcnow keeps_liftR keeps_case_option keeps_retA keeps_talk)

end

text \<open>A member who asks again and again, at the given moments.\<close>

fun issue_many ::
  "runtime \<Rightarrow> telegram_provider \<Rightarrow> int \<Rightarrow> uuid \<Rightarrow> telegram_channel \<Rightarrow> datetime list \<Rightarrow>
     vip_membership \<Rightarrow> (ustr list \<times> vip_membership) act" where
  "issue_many env tp ttl t ch [] m = retA ([], m)"
| "issue_many env tp ttl t ch (now # nows) m =
     bindA (issue env tp ttl t m ch (Some now)) (\<lambda>(iv, m').
     bindA (issue_many env tp ttl t ch nows m') (\<lambda>(ls, m'').
     retA (link iv # ls, m'')))"

lemma issue_many_live:
  assumes "\<And>now. now \<in> set nows \<Longrightarrow> live_link ttl m now = Inr (Some l)"
  shows "issue_many env tp ttl t ch nows m w = (Inr (replicate (length nows) l, m), w)"
  using assms
  by (induction nows) (simp_all add: bindA_def issue_live_run)

text \<open>C15. The invite is idempotent: however often a member asks within the lifetime of the link
  first minted, Telegram is asked for exactly one link, single-use and expiring one lifetime after
  it was minted, and every answer is that link.\<close>

theorem invites_are_minted_once:
  assumes "live_link ttl m first = Inr None"
    and "is_aware first" and "in_range (micros first + ttl)"
    and "\<And>now. now \<in> set later \<Longrightarrow>
          is_aware now \<and> micros now < micros first + ttl"
    and "tp_create_invite_link tp (tg_log w) (chat_id ch) 1 (Some (Aware (micros first + ttl)))
           (Some (asc ''vip-'' @ uuid_str (mem_user_id m))) = Inr l"
    and "l \<noteq> []"
  shows "\<exists>m'. issue_many env tp ttl t ch (first # later) m w =
      (Inr (replicate (Suc (length later)) l, m'),
       w\<lparr>tg_log := tg_log w @ [CreateInviteLink (chat_id ch) 1 (Some (Aware (micros first + ttl)))
            (Some (asc ''vip-'' @ uuid_str (mem_user_id m))) (Inr l)]\<rparr>) \<and>
      invite_link m' = Some l \<and> mem_status m' \<in> set LINK_IS_LIVE"
proof -
  let ?m = "m\<lparr>invite_link := Some l, invite_issued_at := Some first,
      mem_status := (if mem_status m = MS_ACTIVE then MS_ACTIVE else MS_INVITED), tenant_id := t\<rparr>"
  have expire: "dt_add first ttl = Inr (Aware (micros first + ttl))"
    using assms(2,3) by (cases first) auto
  have "live_link ttl ?m now = Inr (Some l)" if "now \<in> set later" for now
    using assms(4) [OF that] assms(3,6)
    by (subst live_link_fresh [where l = l and issued = first]) (auto simp: LINK_IS_LIVE_def)
  then have "issue_many env tp ttl t ch later ?m v = (Inr (replicate (length later) l, ?m), v)" for v
    by (rule issue_many_live)
  then have "issue_many env tp ttl t ch (first # later) m w =
      (Inr (replicate (Suc (length later)) l, ?m),
       w\<lparr>tg_log := tg_log w @ [CreateInviteLink (chat_id ch) 1 (Some (Aware (micros first + ttl)))
            (Some (asc ''vip-'' @ uuid_str (mem_user_id m))) (Inr l)]\<rparr>)"
    using issue_fresh_run [OF assms(1) expire assms(5)] by (simp add: bindA_def)
  then show ?thesis by (intro exI [of _ ?m]) (simp add: LINK_IS_LIVE_def)
qed

end
