(* ===== verification/Mocks.thy ===== *)
theory Mocks
  imports Invites
begin

text \<open>
  The in-memory providers of \<open>app/adapters/providers/mock.py\<close> and \<open>telegram_mock.py\<close>, and the
  contract of a referral provider that the port's documentation states and the services rely on.

  The lists a mock keeps (\<open>invites_created\<close>, \<open>banned\<close>, \<open>unbanned\<close>, \<open>messages\<close>, \<open>calls\<close>) are the world's
  call logs. The functions below read back from the Telegram log what the mock stores: the value of
  its link counter and each member's status.
\<close>

definition mock_down :: exn where
  "mock_down = ProviderUnavailableError (asc ''mock provider is configured as unavailable'')"

definition mock_telegram_down :: exn where
  "mock_telegram_down = ProviderUnavailableError (asc ''mock telegram is configured as unavailable'')"

subsection \<open>The referral provider\<close>

definition mock_referral_provider ::
  "provider_type \<Rightarrow> (ustr \<rightharpoonup> referral_check) \<Rightarrow> bool \<Rightarrow> referral_provider" where
  "mock_referral_provider pt accounts unavailable =
     \<lparr>rp_provider_type = pt,
      rp_validate_user = (\<lambda>_ u.
        if unavailable then Inl mock_down
        else (case accounts u of
                Some c \<Rightarrow> Inr c
              | None \<Rightarrow> Inr \<lparr>chk_uid = u, registered = False, deposit_total = dec_zero,
                             qualifying_trades = None\<rparr>))\<rparr>"

definition mock_register ::
  "ustr \<Rightarrow> decimal \<Rightarrow> bool \<Rightarrow> int option \<Rightarrow> (ustr \<rightharpoonup> referral_check) \<Rightarrow> (ustr \<rightharpoonup> referral_check)" where
  "mock_register u amt reg trades accounts =
     accounts(u \<mapsto> \<lparr>chk_uid = u, registered = reg, deposit_total = amt,
                     qualifying_trades = trades\<rparr>)"

subsection \<open>Telegram\<close>

fun minted :: "tg_event \<Rightarrow> bool" where
  "minted (CreateInviteLink c l x n (Inr s)) = True"
| "minted _ = False"

text \<open>The status the last successful ban or unban of the member left.\<close>

fun status_after ::
  "int \<Rightarrow> int \<Rightarrow> tg_event \<Rightarrow> chat_member_status option \<Rightarrow> chat_member_status option" where
  "status_after c u (BanChatMember c' u' (Inr x)) s = (if c = c' \<and> u = u' then Some KICKED else s)"
| "status_after c u (UnbanChatMember c' u' (Inr x)) s = (if c = c' \<and> u = u' then Some LEFT else s)"
| "status_after c u _ s = s"

definition member_status_in ::
  "(int \<times> int \<rightharpoonup> chat_member_status) \<Rightarrow> tg_event list \<Rightarrow> int \<Rightarrow> int \<Rightarrow> chat_member_status" where
  "member_status_in initial h c u =
     (case fold (status_after c u) h (initial (c, u)) of None \<Rightarrow> LEFT | Some s \<Rightarrow> s)"

definition guarded :: "bool \<Rightarrow> 'a \<Rightarrow> 'a res" where
  "guarded unavailable x = (if unavailable then Inl mock_telegram_down else Inr x)"

definition mock_telegram_provider ::
  "bot_identity \<Rightarrow> bool \<Rightarrow> (int \<times> int \<rightharpoonup> chat_member_status) \<Rightarrow> telegram_provider" where
  "mock_telegram_provider ident unavailable initial =
     \<lparr>tp_get_me = (\<lambda>h. guarded unavailable ident),
      tp_create_invite_link = (\<lambda>h c l x n. guarded unavailable
        (asc ''https://t.me/+mock'' @ int_str (int (Suc (length (filter minted h)))))),
      tp_get_chat_member = (\<lambda>h c u. guarded unavailable (member_status_in initial h c u)),
      tp_ban_chat_member = (\<lambda>h c u. guarded unavailable ()),
      tp_unban_chat_member = (\<lambda>h c u. guarded unavailable ()),
      tp_send_message = (\<lambda>h c s k. guarded unavailable ())\<rparr>"

subsection \<open>The contract of a referral provider\<close>

text \<open>Any answer the provider gave is returned, also for an unknown account; whatever stops it from
  answering is a \<open>ProviderUnavailableError\<close>.\<close>

locale referral_contract =
  fixes rp :: referral_provider
  assumes only_unavailable: "rp_validate_user rp h u = Inl e \<Longrightarrow> is_unavailable e"
begin

lemma try_validate_returns: "\<exists>c. try_validate rp u w = (Inr c, w\<lparr>ref_log := ref_log w @ [u]\<rparr>)"
  by (cases "rp_validate_user rp (ref_log w) u") (auto simp: try_validate_run dest: only_unavailable)

end

interpretation mock: referral_contract "mock_referral_provider pt accounts unavailable"
  for pt accounts unavailable
  by unfold_locales
    (auto simp: mock_referral_provider_def mock_down_def split: if_splits option.splits)

text \<open>A removal through the mock leaves the member out of the channel but free to come back.\<close>

lemma mock_removed_member_has_left:
  "tp_get_chat_member (mock_telegram_provider ident False initial)
     (h @ [BanChatMember c u (Inr ()), UnbanChatMember c u (Inr ())]) c u = Inr LEFT"
  by (simp add: mock_telegram_provider_def guarded_def member_status_in_def)

subsection \<open>The running example\<close>

text \<open>The values the witnesses are evaluated on: a clock that advances one second per reading from
  2026-01-01, UUIDs drawn in order from 100, one member, one channel.\<close>

definition demo_now :: int where "demo_now = 1767225600000000"

definition demo_runtime :: runtime where
  "demo_runtime = \<lparr>clock = (\<lambda>k. demo_now + int k * micros_per_second), uuid4 = (\<lambda>k. 100 + k),
     exn_text = (\<lambda>e. asc ''error'')\<rparr>"

definition demo_telegram :: telegram_provider where
  "demo_telegram = mock_telegram_provider \<lparr>bot_id = 1, bot_name = Some (asc ''test_bot'')\<rparr> False Map.empty"

definition demo_channel :: telegram_channel where
  "demo_channel = \<lparr>row_id = 11, created_at = Aware demo_now, tenant_id = 1, ch_market = CRYPTO,
     chat_id = -100, title = None, ch_is_active = True\<rparr>"

definition demo_membership :: vip_membership where
  "demo_membership = \<lparr>row_id = 12, created_at = Aware demo_now, tenant_id = 1, mem_user_id = 5,
     channel_id = 11, subscription_id = None, mem_status = MS_PENDING, invite_link = None,
     invite_issued_at = None, joined_at = None, revoked_at = None, revocation_reason = None,
     warnings_sent = 0, last_warning_at = None\<rparr>"

definition empty_db :: database where
  "empty_db = \<lparr>tenants = [], telegram_users = [], referral_accounts = [], subscriptions = [],
     vip_memberships = [], snapshots = [], job_executions = [], referral_configs = [],
     channels = [], bot_configs = [], credentials = [], payments = [], routes = []\<rparr>"

definition new_world :: "bool \<Rightarrow> database \<Rightarrow> world" where
  "new_world pg d = \<lparr>db = d, start = d, in_tx = False, failed = False, postgres = pg, bound = None,
     published = None, pending = [], tg_log = [], ref_log = [], ticks = 0, draws = 0\<rparr>"

lemmas demo_defs =
  demo_now_def demo_runtime_def demo_telegram_def demo_channel_def demo_membership_def
  empty_db_def new_world_def mock_telegram_provider_def mock_referral_provider_def guarded_def

theorem invites_are_minted_once_witness:
  "\<exists>m'. issue_many demo_runtime demo_telegram DEFAULT_INVITE_TTL 1 demo_channel
        [Aware demo_now, Aware (demo_now + 5), Aware (demo_now + 86399999999)]
        demo_membership (new_world True empty_db) =
      (Inr (replicate 3 (asc ''https://t.me/+mock1''), m'),
       (new_world True empty_db)\<lparr>tg_log :=
          [CreateInviteLink (-100) 1 (Some (Aware (demo_now + 86400000000)))
            (Some (asc ''vip-'' @ uuid_str 5)) (Inr (asc ''https://t.me/+mock1''))]\<rparr>) \<and>
      invite_link m' = Some (asc ''https://t.me/+mock1'') \<and> mem_status m' \<in> set LINK_IS_LIVE"
proof -
  have 1: "live_link DEFAULT_INVITE_TTL demo_membership (Aware demo_now) = Inr None"
    by (simp add: live_link_def demo_membership_def)
  have 2: "in_range (micros (Aware demo_now) + DEFAULT_INVITE_TTL)"
    by (simp add: demo_now_def DEFAULT_INVITE_TTL_def micros_per_day_def in_range_def
        datetime_min_def datetime_max_def)
  have 3: "is_aware now \<and> micros now < micros (Aware demo_now) + DEFAULT_INVITE_TTL"
    if "now \<in> set [Aware (demo_now + 5), Aware (demo_now + 86399999999)]" for now
    using that by (auto simp: DEFAULT_INVITE_TTL_def micros_per_day_def)
  have one: "int_str (int (Suc 0)) = asc ''1''"
    by (simp add: int_str_def asc_def digits_of.simps)
  have 4: "tp_create_invite_link demo_telegram (tg_log (new_world True empty_db)) (chat_id demo_channel) 1
      (Some (Aware (micros (Aware demo_now) + DEFAULT_INVITE_TTL)))
      (Some (asc ''vip-'' @ uuid_str (mem_user_id demo_membership)))
    = Inr (asc ''https://t.me/+mock1'')"
    using one
    by (simp add: demo_telegram_def mock_telegram_provider_def guarded_def new_world_def asc_def)
  have 5: "asc ''https://t.me/+mock1'' \<noteq> []" by (simp add: asc_def)
  show ?thesis
    using invites_are_minted_once
      [where env = demo_runtime and t = 1
        and later = "[Aware (demo_now + 5), Aware (demo_now + 86399999999)]", OF 1 _ 2 3 4 5]
    by (simp del: issue_many.simps add: new_world_def demo_channel_def demo_membership_def
        DEFAULT_INVITE_TTL_def micros_per_day_def numeral_3_eq_3)
qed

end
