(* ===== verification/Uid.thy ===== *)
theory Uid
  imports PyText
begin

text \<open>
  \<open>app/domain/uid.py\<close>: normalising an exchange UID typed into a chat, and the nine-digit check.
\<close>

definition PERSIAN_DIGITS :: ustr where
  "PERSIAN_DIGITS = [1776, 1777, 1778, 1779, 1780, 1781, 1782, 1783, 1784, 1785]"

definition ARABIC_DIGITS :: ustr where
  "ARABIC_DIGITS = [1632, 1633, 1634, 1635, 1636, 1637, 1638, 1639, 1640, 1641]"

text \<open>\<open>_TRANSLATION\<close>: the \<open>i\<close>-th Persian or Arabic digit becomes \<open>str(i)\<close>, as a table from
  code points to code points that \<open>str.translate\<close> applies to every character.\<close>

definition TRANSLATION :: "nat \<rightharpoonup> nat" where
  "TRANSLATION = map_of (zip PERSIAN_DIGITS [48..<58] @ zip ARABIC_DIGITS [48..<58])"

definition translate_char :: "nat \<Rightarrow> nat" where
  "translate_char c = (case TRANSLATION c of None \<Rightarrow> c | Some d \<Rightarrow> d)"

text \<open>The class \<open>[\s,...,_-]\<close>: white space, comma, the Arabic thousands separator and comma,
  underscore and hyphen.\<close>

definition is_separator :: "nat \<Rightarrow> bool" where
  "is_separator c \<longleftrightarrow> is_space c \<or> c \<in> {44, 1644, 1548, 95, 45}"

definition normalize_uid :: "ustr option \<Rightarrow> ustr" where
  "normalize_uid raw =
     (case raw of
        None \<Rightarrow> []
      | Some s \<Rightarrow>
          (if s = [] then []
           else py_strip (filter (\<lambda>c. \<not> is_separator c) (map translate_char s))))"

text \<open>\<open>^\d{9}$\<close>: nine decimal digits, then the end of the string or a final newline, where \<open>$\<close>
  also matches.\<close>

definition is_valid_bitunix_uid :: "ustr \<Rightarrow> bool" where
  "is_valid_bitunix_uid s \<longleftrightarrow>
     list_all is_nd (take 9 s) \<and>
     (length s = 9 \<or> (length s = 10 \<and> s ! 9 = 10))"

subsection \<open>What normalising gives\<close>

lemma normalize_uid_eq:
  "normalize_uid (Some s) = filter (\<lambda>c. \<not> is_separator c) (map translate_char s)"
proof -
  have "py_strip (filter (\<lambda>c. \<not> is_separator c) (map translate_char s)) =
        filter (\<lambda>c. \<not> is_separator c) (map translate_char s)"
    by (rule py_strip_no_space) (auto simp: is_separator_def)
  then show ?thesis by (simp add: normalize_uid_def)
qed

lemma normalize_uid_no_separator: "c \<in> set (normalize_uid raw) \<Longrightarrow> \<not> is_separator c"
  by (cases raw) (auto simp: normalize_uid_eq normalize_uid_def [of None])

lemmas translation_table =
  TRANSLATION_def PERSIAN_DIGITS_def ARABIC_DIGITS_def upt_conv_Cons

lemma translate_char_cases:
  "(1776 \<le> c \<and> c \<le> 1785 \<and> translate_char c = c - 1728) \<or>
   (1632 \<le> c \<and> c \<le> 1641 \<and> translate_char c = c - 1584) \<or>
   (\<not> (1776 \<le> c \<and> c \<le> 1785) \<and> \<not> (1632 \<le> c \<and> c \<le> 1641) \<and> translate_char c = c)"
  by (simp add: translate_char_def translation_table) arith

lemma translate_char_idem [simp]: "translate_char (translate_char c) = translate_char c"
  using translate_char_cases [of c] translate_char_cases [of "translate_char c"] by auto

lemma translated_normalize: "c \<in> set (normalize_uid raw) \<Longrightarrow> translate_char c = c"
  by (cases raw) (auto simp: normalize_uid_eq normalize_uid_def [of None])

lemma normalize_uid_length: "length (normalize_uid (Some s)) \<le> length s"
  by (simp add: normalize_uid_eq)

lemma separator_not_nd: "is_separator c \<Longrightarrow> \<not> (48 \<le> c \<and> c \<le> 57)"
  by (auto simp: is_separator_def is_space_def in_ranges_def space_ranges_def)

subsection \<open>Spellings of a UID\<close>

text \<open>
  The ways a user may type a UID that the module promises to accept: each digit in ASCII,
  Persian or Arabic form, with separators anywhere.
\<close>

inductive spelling :: "ustr \<Rightarrow> ustr \<Rightarrow> bool" where
  sp_nil: "spelling [] []"
| sp_sep: "is_separator c \<Longrightarrow> spelling raw u \<Longrightarrow> spelling (c # raw) u"
| sp_ascii: "d < 10 \<Longrightarrow> spelling raw u \<Longrightarrow> spelling ((48 + d) # raw) ((48 + d) # u)"
| sp_persian: "d < 10 \<Longrightarrow> spelling raw u \<Longrightarrow> spelling ((1776 + d) # raw) ((48 + d) # u)"
| sp_arabic: "d < 10 \<Longrightarrow> spelling raw u \<Longrightarrow> spelling ((1632 + d) # raw) ((48 + d) # u)"

lemma translate_separator: "is_separator c \<Longrightarrow> translate_char c = c"
  using translate_char_cases [of c]
  by (auto simp: is_separator_def is_space_def in_ranges_def space_ranges_def)

lemma translate_digit:
  assumes "d < 10"
  shows "translate_char (48 + d) = 48 + d" "translate_char (1776 + d) = 48 + d"
    "translate_char (1632 + d) = 48 + d"
  using assms translate_char_cases [of "48 + d"] translate_char_cases [of "1776 + d"]
    translate_char_cases [of "1632 + d"]
  by auto

lemma spelling_filter:
  "spelling raw u \<Longrightarrow> filter (\<lambda>c. \<not> is_separator c) (map translate_char raw) = u"
proof (induction rule: spelling.induct)
  case sp_nil
  show ?case by simp
next
  case (sp_sep c raw u)
  then show ?case by (simp add: translate_separator)
next
  case (sp_ascii d raw u)
  then show ?case using separator_not_nd [of "48 + d"] by (auto simp: translate_digit)
next
  case (sp_persian d raw u)
  then show ?case using separator_not_nd [of "48 + d"] by (auto simp: translate_digit)
next
  case (sp_arabic d raw u)
  then show ?case using separator_not_nd [of "48 + d"] by (auto simp: translate_digit)
qed

lemma spelling_digits: "spelling raw u \<Longrightarrow> c \<in> set u \<Longrightarrow> 48 \<le> c \<and> c \<le> 57"
  by (induction rule: spelling.induct) auto

subsection \<open>Properties\<close>

text \<open>C22. Every spelling of a nine-digit UID that the bot promises to accept, in ASCII, Persian or
  Arabic digits with separators anywhere, normalises to that UID, and the UID is valid.\<close>

theorem normalize_spelling_roundtrip:
  "spelling raw u \<Longrightarrow> length u = 9 \<Longrightarrow>
     normalize_uid (Some raw) = u \<and> is_valid_bitunix_uid (normalize_uid (Some raw))"
proof -
  assume sp: "spelling raw u" and len: "length u = 9"
  have eq: "normalize_uid (Some raw) = u"
    using spelling_filter [OF sp] by (simp add: normalize_uid_eq)
  have "list_all is_nd u"
    using spelling_digits [OF sp] by (auto simp: list_all_iff intro!: is_nd_ascii)
  with eq len show ?thesis by (simp add: is_valid_bitunix_uid_def)
qed

theorem normalize_spelling_roundtrip_witness:
  "normalize_uid (Some [1777, 45, 50, 1635, 52, 32, 53, 54, 55, 56, 1785]) =
     [49, 50, 51, 52, 53, 54, 55, 56, 57]"
proof -
  have sp: "spelling [1777, 45, 50, 1635, 52, 32, 53, 54, 55, 56, 1785]
      [49, 50, 51, 52, 53, 54, 55, 56, 57]"
    using sp_persian [of 1, OF _ sp_sep [of 45, OF _ sp_ascii [of 2, OF _ sp_arabic [of 3, OF _
      sp_ascii [of 4, OF _ sp_sep [of 32, OF _ sp_ascii [of 5, OF _ sp_ascii [of 6, OF _
      sp_ascii [of 7, OF _ sp_ascii [of 8, OF _ sp_persian [of 9, OF _ sp_nil]]]]]]]]]]]
    by (simp add: is_separator_def is_space_def in_ranges_def space_ranges_def)
  show ?thesis using normalize_spelling_roundtrip [OF sp] by simp
qed

text \<open>Normalising twice is normalising once, so a UID that went through the chat handler can be
  handed to the onboarding service, which normalises again.\<close>

theorem normalize_uid_idempotent: "normalize_uid (Some (normalize_uid raw)) = normalize_uid raw"
proof -
  have "map translate_char (normalize_uid raw) = normalize_uid raw"
    by (rule map_idI) (rule translated_normalize)
  moreover have "filter (\<lambda>c. \<not> is_separator c) (normalize_uid raw) = normalize_uid raw"
    by (rule filter_True) (auto dest: normalize_uid_no_separator)
  ultimately show ?thesis by (simp add: normalize_uid_eq)
qed

end
