(* ===== verification/Onboarding.thy ===== *)
theory Onboarding
  imports Mocks Uid
begin

text \<open>
  \<open>app/services/referral_onboarding.py\<close>: a UID arrives, and a member either gets in or is told why.
  \<open>submit_uid\<close> is the whole flow, every write, provider call and early return of the code in its
  order. Its helpers return the row as the code leaves it.
\<close>

definition REFERRAL_PLAN_CODE :: ustr where
  "REFERRAL_PLAN_CODE = asc ''REFERRAL_FREE''"

datatype onboarding_outcome =
    OO_INVITED | OO_ALREADY_MEMBER | OO_INVALID_UID | OO_UID_CLAIMED_BY_ANOTHER_USER
  | OO_NOT_REGISTERED | OO_INSUFFICIENT_BALANCE | OO_PROVIDER_UNAVAILABLE | OO_NOT_CONFIGURED

record onboarding_result =
  outcome :: onboarding_outcome
  res_invite_link :: "ustr option"
  verdict :: "eligibility_verdict option"
  res_uid :: "ustr option"

definition succeeded :: "onboarding_result \<Rightarrow> bool" where
  "succeeded r \<longleftrightarrow> outcome r \<in> {OO_INVITED, OO_ALREADY_MEMBER}"

definition new_user ::
  "scoped \<Rightarrow> int \<Rightarrow> ustr option \<Rightarrow> ustr option \<Rightarrow> telegram_user" where
  "new_user s tg uname fname =
     \<lparr>row_id = row_id s, created_at = created_at s, tenant_id = tenant_id s,
      telegram_user_id = tg, pending_market = None, username = uname, first_name = fname,
      language_code = None\<rparr>"

definition ensure_user ::
  "runtime \<Rightarrow> uuid \<Rightarrow> int \<Rightarrow> ustr option \<Rightarrow> ustr option \<Rightarrow> telegram_user act" where
  "ensure_user env t tg uname fname =
     bindA (get_by_telegram_id t tg) (\<lambda>found. case found of
       None \<Rightarrow>
         bindA (new_scoped env t) (\<lambda>s. save users_table True t (new_user s tg uname fname))
     | Some user \<Rightarrow>
         (let user' = user\<lparr>username := str_or uname (username user),
                           first_name := str_or fname (first_name user)\<rparr> in
          thenA (touch_row users_table user') (retA user')))"

definition new_account ::
  "scoped \<Rightarrow> uuid \<Rightarrow> provider_type \<Rightarrow> market \<Rightarrow> ustr \<Rightarrow> referral_account" where
  "new_account s user pt m u =
     \<lparr>row_id = row_id s, created_at = created_at s, tenant_id = tenant_id s, acc_user_id = user,
      acc_provider_type = pt, acc_market = m, uid = u, acc_status = UNVERIFIED,
      compliance_state = CS_VERIFICATION_PENDING, last_known_balance = None,
      last_checked_at = None, verified_at = None, rejection_reason = None\<rparr>"

definition new_subscription ::
  "scoped \<Rightarrow> uuid \<Rightarrow> market \<Rightarrow> datetime \<Rightarrow> subscription" where
  "new_subscription s user m from_when =
     \<lparr>row_id = row_id s, created_at = created_at s, tenant_id = tenant_id s, sub_user_id = user,
      sub_market = m, access_type = AT_REFERRAL, plan_code = REFERRAL_PLAN_CODE,
      sub_status = SS_ACTIVE, starts_at = Some from_when, ends_at = None,
      source_reference = None\<rparr>"

definition ensure_subscription ::
  "runtime \<Rightarrow> uuid \<Rightarrow> uuid \<Rightarrow> market \<Rightarrow> subscription act" where
  "ensure_subscription env t user m =
     bindA (get_active_for_user t user m) (\<lambda>existing. case existing of
       Some sub \<Rightarrow>
         bindA (case starts_at sub of Some d \<Rightarrow> retA d | None \<Rightarrow> utcnow env) (\<lambda>d.
         let sub' = sub\<lparr>sub_status := SS_ACTIVE, starts_at := Some d\<rparr> in
         thenA (touch_row subscriptions_table sub') (retA sub'))
     | None \<Rightarrow>
         bindA (utcnow env) (\<lambda>d.
         bindA (new_scoped env t) (\<lambda>s.
         save subscriptions_table True t (new_subscription s user m d))))"

definition new_membership :: "scoped \<Rightarrow> uuid \<Rightarrow> uuid \<Rightarrow> uuid \<Rightarrow> vip_membership" where
  "new_membership s user chan sub =
     \<lparr>row_id = row_id s, created_at = created_at s, tenant_id = tenant_id s, mem_user_id = user,
      channel_id = chan, subscription_id = Some sub, mem_status = MS_PENDING, invite_link = None,
      invite_issued_at = None, joined_at = None, revoked_at = None, revocation_reason = None,
      warnings_sent = 0, last_warning_at = None\<rparr>"

text \<open>A returning member starts clean.\<close>

definition readmit :: "uuid \<Rightarrow> vip_membership \<Rightarrow> vip_membership" where
  "readmit sub m =
     (let m' = m\<lparr>subscription_id := Some sub\<rparr> in
      if mem_status m' \<in> {MS_REVOKED, MS_EXPIRED} then
        m'\<lparr>mem_status := MS_PENDING, revoked_at := None, revocation_reason := None,
           warnings_sent := 0, last_warning_at := None\<rparr>
      else m')"

definition ensure_membership ::
  "runtime \<Rightarrow> uuid \<Rightarrow> uuid \<Rightarrow> uuid \<Rightarrow> uuid \<Rightarrow> vip_membership act" where
  "ensure_membership env t user chan sub =
     bindA (get_for_user_and_channel t user chan) (\<lambda>existing. case existing of
       Some m \<Rightarrow> thenA (touch_row memberships_table (readmit sub m)) (retA (readmit sub m))
     | None \<Rightarrow>
         bindA (new_scoped env t) (\<lambda>s.
         save memberships_table True t (new_membership s user chan sub)))"

definition rules_of :: "referral_program_config \<Rightarrow> referral_rules" where
  "rules_of config =
     \<lparr>minimum_balance = cfg_minimum_balance config,
      minimum_trades_per_period = cfg_minimum_trades_per_period config,
      trade_period_days = cfg_trade_period_days config\<rparr>"

text \<open>The account with what the check found out: the balance only when the provider answered.\<close>

definition record_check ::
  "eligibility_verdict \<Rightarrow> datetime \<Rightarrow> bool \<Rightarrow> referral_account \<Rightarrow> referral_account" where
  "record_check v stamp answered a =
     (let a' = a\<lparr>compliance_state := v_compliance_state v, last_checked_at := Some stamp\<rparr> in
      if answered then a'\<lparr>last_known_balance := Some (balance v)\<rparr> else a')"

definition plain_result :: "onboarding_outcome \<Rightarrow> ustr \<Rightarrow> onboarding_result" where
  "plain_result out u =
     \<lparr>outcome = out, res_invite_link = None, verdict = None, res_uid = Some u\<rparr>"

text \<open>The steps after a verdict that lets the member in.\<close>

definition admit ::
  "runtime \<Rightarrow> telegram_provider \<Rightarrow> uuid \<Rightarrow> uuid \<Rightarrow> market \<Rightarrow> telegram_channel \<Rightarrow>
     (issued_invite \<times> bool) act" where
  "admit env tp t user m ch =
     bindA (ensure_subscription env t user m) (\<lambda>sub.
     bindA (ensure_membership env t user (row_id ch) (row_id sub)) (\<lambda>mem.
     bindA (issue env tp DEFAULT_INVITE_TTL t mem ch None) (\<lambda>(iv, mem').
     thenA (save memberships_table False t mem')
       (retA (iv, mem_status mem = MS_ACTIVE)))))"

text \<open>The steps after the verdict.\<close>

definition settle ::
  "runtime \<Rightarrow> telegram_provider \<Rightarrow> uuid \<Rightarrow> uuid \<Rightarrow> market \<Rightarrow> telegram_channel \<Rightarrow> ustr \<Rightarrow>
     eligibility_verdict \<Rightarrow> bool \<Rightarrow> referral_account \<Rightarrow> onboarding_result act" where
  "settle env tp t user m ch u v is_new account =
     (if v_reason v = ER_PROVIDER_UNAVAILABLE then
        thenA (save accounts_table is_new t (account\<lparr>acc_status := UNVERIFIED\<rparr>))
          (retA \<lparr>outcome = OO_PROVIDER_UNAVAILABLE, res_invite_link = None, verdict = Some v,
                 res_uid = Some u\<rparr>)
      else if \<not> eligible v then
        thenA (save accounts_table is_new t
                 (account\<lparr>acc_status := REJECTED,
                          rejection_reason := Some (eligibility_reason_value (v_reason v))\<rparr>))
          (retA \<lparr>outcome = (if v_reason v = NOT_REGISTERED then OO_NOT_REGISTERED
                            else OO_INSUFFICIENT_BALANCE),
                 res_invite_link = None, verdict = Some v, res_uid = Some u\<rparr>)
      else
        bindA (utcnow env) (\<lambda>stamp.
        thenA (save accounts_table is_new t
                 (account\<lparr>acc_status := VERIFIED, rejection_reason := None,
                          verified_at := Some stamp\<rparr>))
        (bindA (admit env tp t user m ch) (\<lambda>(iv, already_in).
         retA \<lparr>outcome = (if already_in then OO_ALREADY_MEMBER else OO_INVITED),
               res_invite_link = Some (link iv), verdict = Some v, res_uid = Some u\<rparr>))))"

text \<open>The provider's check of a UID that nobody else holds.\<close>

definition check_account ::
  "runtime \<Rightarrow> referral_provider \<Rightarrow> telegram_provider \<Rightarrow> uuid \<Rightarrow> uuid \<Rightarrow> market \<Rightarrow>
     referral_program_config \<Rightarrow> telegram_channel \<Rightarrow> ustr \<Rightarrow> bool \<Rightarrow> referral_account \<Rightarrow>
     onboarding_result act" where
  "check_account env rp tp t user m config ch u is_new account =
     bindA (try_validate rp u) (\<lambda>check.
     bindA (liftR (evaluate_referral check (rules_of config) False)) (\<lambda>v.
     bindA (utcnow env) (\<lambda>stamp.
     settle env tp t user m ch u v is_new (record_check v stamp (check \<noteq> None) account))))"

text \<open>The account the UID is checked for: the user's own, or a new one; never another user's.\<close>

definition claim_account ::
  "runtime \<Rightarrow> referral_provider \<Rightarrow> telegram_provider \<Rightarrow> uuid \<Rightarrow> uuid \<Rightarrow> market \<Rightarrow>
     referral_program_config \<Rightarrow> telegram_channel \<Rightarrow> ustr \<Rightarrow> onboarding_result act" where
  "claim_account env rp tp t user m cfg ch u =
     bindA (get_by_uid t (rp_provider_type rp) u) (\<lambda>claimed.
     case claimed of
       Some account \<Rightarrow>
         if acc_user_id account \<noteq> user
         then retA (plain_result OO_UID_CLAIMED_BY_ANOTHER_USER u)
         else check_account env rp tp t user m cfg ch u False account
     | None \<Rightarrow>
         bindA (new_scoped env t) (\<lambda>s.
         check_account env rp tp t user m cfg ch u True
           (new_account s user (rp_provider_type rp) m u)))"

definition submit_uid ::
  "runtime \<Rightarrow> referral_provider \<Rightarrow> telegram_provider \<Rightarrow> uuid \<Rightarrow> int \<Rightarrow> market \<Rightarrow> ustr \<Rightarrow>
     ustr option \<Rightarrow> ustr option \<Rightarrow> onboarding_result act" where
  "submit_uid env rp tp t tg m raw_uid uname fname =
     (let pt = rp_provider_type rp; u = normalize_uid (Some raw_uid) in
      if \<not> is_valid_bitunix_uid u then retA (plain_result OO_INVALID_UID u)
      else
        bindA (get_for t pt m) (\<lambda>config.
        bindA (get_for_market t m) (\<lambda>channel.
        case (config, channel) of
          (Some cfg, Some ch) \<Rightarrow>
            if \<not> cfg_is_active cfg then retA (plain_result OO_NOT_CONFIGURED u)
            else
              bindA (ensure_user env t tg uname fname) (\<lambda>user.
              claim_account env rp tp t (row_id user) m cfg ch u)
        | _ \<Rightarrow> retA (plain_result OO_NOT_CONFIGURED u))))"

subsection \<open>What the flow keeps\<close>

context enrol_relation
begin

lemma keeps_ensure_user [keeps_rules]: "keeps R (ensure_user env t tg uname fname)"
  unfolding ensure_user_def Let_def
  by (intro keeps_bindA keeps_queries keeps_case_option keeps_new_scoped keeps_enrol_writes
      keeps_thenA keeps_retA)

end

context messaging_relation
begin

lemma keeps_ensures [keeps_rules]:
  "keeps R (ensure_subscription env t user m)"
  "keeps R (ensure_membership env t user chan sub)"
  unfolding ensure_subscription_def ensure_membership_def Let_def
  by (intro keeps_bindA keeps_queries keeps_case_option keeps_new_scoped keeps_saves keeps_thenA
      keeps_touches keeps_retA keeps_utcnow)+

lemma keeps_admit [keeps_rules]: "keeps R (admit env tp t user m ch)"
  unfolding admit_def
  by (auto intro!: keeps_bindA keeps_ensures keeps_issue keeps_thenA keeps_saves keeps_retA)

lemma keeps_check_account [keeps_rules]:
  "keeps R (check_account env rp tp t user m config ch u is_new account)"
  unfolding check_account_def settle_def
  by (auto intro!: keeps_bindA keeps_try_validate keeps_liftR keeps_utcnow keeps_if keeps_thenA
      keeps_enrol_writes keeps_retA keeps_admit)

lemma keeps_submit_uid [keeps_rules]:
  "keeps R (submit_uid env rp tp t tg m raw_uid uname fname)"
  unfolding submit_uid_def claim_account_def Let_def
  by (auto intro!: keeps_bindA keeps_queries keeps_if keeps_retA keeps_ensure_user
      keeps_check_account keeps_new_scoped split: option.split)

end

subsection \<open>Steps that returned\<close>

lemma ensure_user_InrD:
  assumes "ensure_user env t tg uname fname w = (Inr user, w')" and "ready t w"
  shows "ready t w' \<and> db w' = (db w)\<lparr>telegram_users := telegram_users (db w')\<rparr> \<and>
    user \<in> set (telegram_users (db w')) \<and> telegram_user_id user = tg \<and> tenant_id user = t \<and>
    (unique_keys (db w) \<longrightarrow>
      (\<forall>h \<in> set (telegram_users (db w)). row_id h = row_id user \<longrightarrow> telegram_user_id h = tg))"
proof -
  obtain found where found: "one_or_none (filter (\<lambda>r. tenant_id r = t \<and> telegram_user_id r = tg)
      (telegram_users (db w))) = Inr found"
    using assms by (auto simp: ensure_user_def bindA_eq_Inr query_runs)
  with assms have rest: "(case found of None \<Rightarrow>
         bindA (new_scoped env t) (\<lambda>s. save users_table True t (new_user s tg uname fname))
       | Some user \<Rightarrow>
         (let user' = user\<lparr>username := str_or uname (username user),
                           first_name := str_or fname (first_name user)\<rparr> in
          thenA (touch_row users_table user') (retA user'))) w = (Inr user, w')"
    by (simp add: ensure_user_def bindA_def query_runs)
  show ?thesis
  proof (cases found)
    case None
    with rest obtain s v where "new_scoped env t w = (Inr s, v)"
      and sv: "save users_table True t (new_user s tg uname fname) v = (Inr user, w')"
      by (auto simp: bindA_eq_Inr)
    then have v: "v = w\<lparr>draws := Suc (draws w), ticks := Suc (ticks w)\<rparr>" "tenant_id s = t"
      by (auto dest: new_scoped_InrD)
    with assms(2) have "ready t v" by simp
    from save_InrD [OF sv this] v assms(2) show ?thesis
      by (auto simp: users_table_def new_user_def)
  next
    case (Some x)
    let ?x = "x\<lparr>username := str_or uname (username x), first_name := str_or fname (first_name x)\<rparr>"
    have x: "tenant_id x = t" "telegram_user_id x = tg" "x \<in> set (telegram_users (db w))"
      using one_or_none_filterD [OF found [unfolded Some]] by auto
    have only: "h = x" if "unique_keys (db w)" "h \<in> set (telegram_users (db w))" "row_id h = row_id x"
      for h
      using table_unique_pair [OF users.unique_get [OF that(1)] users.clash_sym] that x
      by (auto simp: users_table_def)
    from rest Some have "touch_row users_table ?x w = (Inr (), w')" "user = ?x"
      by (auto simp: Let_def thenA_def bindA_eq_Inr)
    with touch_row_InrD [OF this(1) assms(2)] x assms(2) show ?thesis
      by (auto simp: users_table_def set_update_where image_iff dest: only)
  qed
qed

lemma ensure_subscription_InrD:
  assumes "ensure_subscription env t user m w = (Inr sub, w')" and "ready t w"
  shows "ready t w' \<and> db w' = (db w)\<lparr>subscriptions := subscriptions (db w')\<rparr> \<and>
    sub \<in> set (subscriptions (db w')) \<and> sub_status sub = SS_ACTIVE \<and> sub_user_id sub = user \<and>
    sub_market sub = m \<and> tenant_id sub = t"
proof (cases "find_first (\<lambda>r. tenant_id r = t \<and> sub_user_id r = user \<and> sub_market r = m)
    (subscriptions (db w))")
  case None
  with assms obtain d s v where "new_scoped env t (w\<lparr>ticks := Suc (ticks w)\<rparr>) = (Inr s, v)"
    and sv: "save subscriptions_table True t (new_subscription s user m d) v = (Inr sub, w')"
    by (auto simp: ensure_subscription_def bindA_eq_Inr query_runs dest!: utcnow_InrD)
  then have v: "ready t v" "db v = db w" "tenant_id s = t"
    using assms(2) by (auto dest!: new_scoped_InrD)
  from save_InrD [OF sv v(1)] v show ?thesis
    by (auto simp: subscriptions_table_def new_subscription_def)
next
  case (Some x)
  then have x: "tenant_id x = t" "sub_user_id x = user" "sub_market x = m"
    by (auto dest!: find_first_SomeD)
  from Some assms obtain d v where
    d: "(case starts_at x of Some d \<Rightarrow> retA d | None \<Rightarrow> utcnow env) w = (Inr d, v)"
    and tr: "touch_row subscriptions_table (x\<lparr>sub_status := SS_ACTIVE, starts_at := Some d\<rparr>) v
        = (Inr (), w')"
    and sub: "sub = x\<lparr>sub_status := SS_ACTIVE, starts_at := Some d\<rparr>"
    by (auto simp: ensure_subscription_def bindA_eq_Inr query_runs Let_def thenA_def)
  from d assms(2) have v: "ready t v" "db v = db w"
    by (auto split: option.splits dest!: utcnow_InrD)
  from touch_row_InrD [OF tr v(1)] v x sub show ?thesis
    by (auto simp: subscriptions_table_def set_update_where image_iff)
qed

lemma readmit_simps [simp]:
  "tenant_id (readmit sub m) = tenant_id m" "mem_user_id (readmit sub m) = mem_user_id m"
  "channel_id (readmit sub m) = channel_id m" "subscription_id (readmit sub m) = Some sub"
  "row_id (readmit sub m) = row_id m"
  by (simp_all add: readmit_def Let_def)

lemma ensure_membership_InrD:
  assumes "ensure_membership env t user chan sub w = (Inr mem, w')" and "ready t w"
  shows "ready t w' \<and> db w' = (db w)\<lparr>vip_memberships := vip_memberships (db w')\<rparr> \<and>
    mem \<in> set (vip_memberships (db w')) \<and> mem_user_id mem = user \<and> channel_id mem = chan \<and>
    subscription_id mem = Some sub \<and> tenant_id mem = t"
proof -
  obtain found where found: "one_or_none (filter (\<lambda>r. tenant_id r = t \<and> mem_user_id r = user \<and>
      channel_id r = chan) (vip_memberships (db w))) = Inr found"
    using assms by (auto simp: ensure_membership_def bindA_eq_Inr query_runs)
  with assms have rest: "(case found of
       Some m \<Rightarrow> thenA (touch_row memberships_table (readmit sub m)) (retA (readmit sub m))
     | None \<Rightarrow>
         bindA (new_scoped env t) (\<lambda>s.
         save memberships_table True t (new_membership s user chan sub))) w = (Inr mem, w')"
    by (simp add: ensure_membership_def bindA_def query_runs)
  show ?thesis
  proof (cases found)
    case None
    with rest obtain s v where "new_scoped env t w = (Inr s, v)"
      and sv: "save memberships_table True t (new_membership s user chan sub) v = (Inr mem, w')"
      by (auto simp: bindA_eq_Inr)
    then have v: "ready t v" "db v = db w" "tenant_id s = t"
      using assms(2) by (auto dest!: new_scoped_InrD)
    from save_InrD [OF sv v(1)] v show ?thesis
      by (auto simp: memberships_table_def new_membership_def)
  next
    case (Some x)
    have x: "tenant_id x = t" "mem_user_id x = user" "channel_id x = chan"
      using one_or_none_filterD [OF found [unfolded Some]] by auto
    from rest Some have "touch_row memberships_table (readmit sub x) w = (Inr (), w')"
      "mem = readmit sub x"
      by (auto simp: thenA_def bindA_eq_Inr)
    with touch_row_InrD [OF this(1) assms(2)] x assms(2) show ?thesis
      by (auto simp: memberships_table_def set_update_where image_iff)
  qed
qed

lemma admit_InrD:
  assumes "admit env tp t user m ch w = (Inr (iv, already), w')" and "ready t w"
  shows "\<exists>sub mem. db w' = (db w)\<lparr>subscriptions := subscriptions (db w'),
        vip_memberships := vip_memberships (db w')\<rparr> \<and>
    sub \<in> set (subscriptions (db w')) \<and> sub_status sub = SS_ACTIVE \<and> sub_user_id sub = user \<and>
    sub_market sub = m \<and> tenant_id sub = t \<and>
    mem \<in> set (vip_memberships (db w')) \<and> mem_user_id mem = user \<and> channel_id mem = row_id ch \<and>
    subscription_id mem = Some (row_id sub) \<and> tenant_id mem = t \<and>
    invite_link mem = Some (link iv) \<and> mem_status mem \<in> set LINK_IS_LIVE"
proof -
  from assms(1) obtain sub v1 mem v2 mem' v3 mem2 where
    s: "ensure_subscription env t user m w = (Inr sub, v1)"
    and m: "ensure_membership env t user (row_id ch) (row_id sub) v1 = (Inr mem, v2)"
    and i: "issue env tp DEFAULT_INVITE_TTL t mem ch None v2 = (Inr (iv, mem'), v3)"
    and sv: "save memberships_table False t mem' v3 = (Inr mem2, w')"
    by (auto simp: admit_def bindA_eq_Inr thenA_def split: prod.splits)
  note S = ensure_subscription_InrD [OF s assms(2)]
  then have "ready t v1" by simp
  note M = ensure_membership_InrD [OF m this]
  note I = issue_result [OF i, of t]
  have "ready t v3" using M I by simp
  note W = save_InrD [OF sv this]
  have db: "db v3 = db v2" using I by simp
  obtain ms where ms: "db v2 = (db v1)\<lparr>vip_memberships := ms\<rparr>" using M by blast
  obtain ss where ss: "db v1 = (db w)\<lparr>subscriptions := ss\<rparr>" using S by blast
  obtain rs where w': "w' = v3\<lparr>db := (db v3)\<lparr>vip_memberships := rs\<rparr>\<rparr>" "mem2 \<in> set rs"
    "mem2 = mem'\<lparr>tenant_id := t\<rparr>"
    using W by (auto simp: memberships_table_def)
  have "db w' = (db w)\<lparr>subscriptions := subscriptions (db v1), vip_memberships := rs\<rparr>"
    by (simp add: w' db ms ss)
  then have fin: "subscriptions (db w') = subscriptions (db v1)" "vip_memberships (db w') = rs"
    "db w' = (db w)\<lparr>subscriptions := subscriptions (db w'), vip_memberships := vip_memberships (db w')\<rparr>"
    by simp_all
  show ?thesis
    by (rule exI [of _ sub], rule exI [of _ mem2]) (use fin S M I w' in auto)
qed

text \<open>A submission whose outcome is not one of the three early returns reached the provider's check,
  for an account of the submitting user.\<close>

lemma submit_uid_reaches_claim:
  assumes run: "submit_uid env rp tp t tg m raw uname fname w = (Inr r, w')" and "ready t w"
    and "outcome r \<notin> {OO_INVALID_UID, OO_NOT_CONFIGURED}"
  obtains cfg ch user v where
    "cfg \<in> set (referral_configs (db w))" "ch \<in> set (channels (db w))" "tenant_id ch = t"
    "ch_market ch = m" "ch_is_active ch" "ensure_user env t tg uname fname w = (Inr user, v)"
    "claim_account env rp tp t (row_id user) m cfg ch (normalize_uid (Some raw)) v = (Inr r, w')"
proof -
  let ?u = "normalize_uid (Some raw)" and ?pt = "rp_provider_type rp"
  have valid: "is_valid_bitunix_uid ?u"
  proof (rule ccontr)
    assume "\<not> is_valid_bitunix_uid ?u"
    with run have "r = plain_result OO_INVALID_UID ?u" by (simp add: submit_uid_def)
    with assms(3) show False by (simp add: plain_result_def)
  qed
  obtain config channel where
    c: "one_or_none (filter (\<lambda>r. tenant_id r = t \<and> cfg_provider_type r = ?pt \<and> cfg_market r = m)
        (referral_configs (db w))) = Inr config"
    "one_or_none (filter (\<lambda>r. tenant_id r = t \<and> ch_market r = m \<and> ch_is_active r)
        (channels (db w))) = Inr channel"
    using run valid assms(2) by (auto simp: submit_uid_def Let_def bindA_eq_Inr query_runs)
  obtain cfg ch where cc: "config = Some cfg" "channel = Some ch" "cfg_is_active cfg"
    using run valid c assms(2,3)
    by (auto simp: submit_uid_def Let_def bindA_def query_runs plain_result_def
        split: option.splits if_splits)
  have "get_for t ?pt m w = (Inr (Some cfg), w)" "get_for_market t m w = (Inr (Some ch), w)"
    using c cc assms(2) by (simp_all add: query_runs)
  with run valid cc obtain user v1 where
    e: "ensure_user env t tg uname fname w = (Inr user, v1)"
    and rest: "claim_account env rp tp t (row_id user) m cfg ch ?u v1 = (Inr r, w')"
    by (auto simp: submit_uid_def Let_def bindA_Inr [of "get_for t ?pt m"]
        bindA_Inr [of "get_for_market t m"] bindA_eq_Inr [of "ensure_user env t tg uname fname"])
  have cfg: "cfg \<in> set (referral_configs (db w))"
    and ch: "ch \<in> set (channels (db w))" "tenant_id ch = t" "ch_market ch = m" "ch_is_active ch"
    using one_or_none_filterD [OF c(1) [unfolded cc]] one_or_none_filterD [OF c(2) [unfolded cc]]
    by auto
  show thesis by (rule that [OF cfg ch e rest])
qed

lemma submit_uid_reaches_check:
  assumes run: "submit_uid env rp tp t tg m raw uname fname w = (Inr r, w')" and "ready t w"
    and "outcome r \<notin> {OO_INVALID_UID, OO_NOT_CONFIGURED, OO_UID_CLAIMED_BY_ANOTHER_USER}"
  obtains cfg ch user v is_new account where
    "cfg \<in> set (referral_configs (db w))" "ch \<in> set (channels (db w))" "tenant_id ch = t"
    "ch_market ch = m" "ch_is_active ch"
    "ready t v" "db v = (db w)\<lparr>telegram_users := telegram_users (db v)\<rparr>" "quiet w v"
    "user \<in> set (telegram_users (db v))" "telegram_user_id user = tg" "tenant_id user = t"
    "acc_user_id account = row_id user" "uid account = normalize_uid (Some raw)"
    "acc_provider_type account = rp_provider_type rp" "tenant_id account = t"
    "is_new \<longrightarrow> last_known_balance account = None"
    "\<not> is_new \<longrightarrow> account \<in> set (referral_accounts (db w))"
    "\<forall>a \<in> set (referral_accounts (db w)). tenant_id a = t \<and>
       acc_provider_type a = rp_provider_type rp \<and> uid a = normalize_uid (Some raw) \<longrightarrow> a = account"
    "unique_keys (db w) \<longrightarrow>
      (\<forall>h \<in> set (telegram_users (db w)). row_id h = row_id user \<longrightarrow> telegram_user_id h = tg)"
    "check_account env rp tp t (row_id user) m cfg ch (normalize_uid (Some raw)) is_new account v
       = (Inr r, w')"
proof -
  let ?u = "normalize_uid (Some raw)" and ?pt = "rp_provider_type rp"
  obtain cfg ch user v1 where cfg: "cfg \<in> set (referral_configs (db w))"
    and ch: "ch \<in> set (channels (db w))" "tenant_id ch = t" "ch_market ch = m" "ch_is_active ch"
    and e: "ensure_user env t tg uname fname w = (Inr user, v1)"
    and rest: "claim_account env rp tp t (row_id user) m cfg ch ?u v1 = (Inr r, w')"
    by (rule submit_uid_reaches_claim [OF run assms(2)]) (use assms(3) in auto)
  note U = ensure_user_InrD [OF e assms(2)]
  have q: "quiet w v1" by (rule keepsD [OF quiet.keeps_ensure_user e])
  from rest U obtain claimed where
    cl: "one_or_none (filter (\<lambda>r. tenant_id r = t \<and> acc_provider_type r = ?pt \<and> uid r = ?u)
        (referral_accounts (db v1))) = Inr claimed"
    by (auto simp: claim_account_def bindA_eq_Inr query_runs)
  have accounts: "referral_accounts (db v1) = referral_accounts (db w)"
    using U by (metis database.select_convs(3) database.surjective database.update_convs(2))
  show thesis
  proof (cases claimed)
    case (Some account)
    have a: "account \<in> set (referral_accounts (db w))" "tenant_id account = t"
      "acc_provider_type account = ?pt" "uid account = ?u"
      using one_or_none_filterD [OF cl [unfolded Some]] accounts by auto
    from rest cl Some U assms(3) have "acc_user_id account = row_id user"
      "check_account env rp tp t (row_id user) m cfg ch ?u False account v1 = (Inr r, w')"
      by (auto simp: claim_account_def bindA_def query_runs plain_result_def split: if_splits)
    moreover have "\<forall>a \<in> set (referral_accounts (db w)). tenant_id a = t \<and>
       acc_provider_type a = ?pt \<and> uid a = ?u \<longrightarrow> a = account"
      using one_or_none_filter_only [OF cl [unfolded Some]] accounts by auto
    ultimately show thesis
      by - (rule that [OF cfg ch, of v1 user account False]; (use U a q in blast)?)
  next
    case None
    from rest cl None U obtain s v2 where ns: "new_scoped env t v1 = (Inr s, v2)"
      and ck: "check_account env rp tp t (row_id user) m cfg ch ?u True
        (new_account s (row_id user) ?pt m ?u) v2 = (Inr r, w')"
      by (auto simp: claim_account_def bindA_def query_runs split: prod.splits sum.splits)
    have v2: "v2 = v1\<lparr>draws := Suc (draws v1), ticks := Suc (ticks v1)\<rparr>" "tenant_id s = t"
      using new_scoped_InrD [OF ns] by auto
    have "quiet w v2" using q by (simp add: v2 quiet_def)
    moreover have "\<forall>a \<in> set (referral_accounts (db w)). tenant_id a = t \<and>
       acc_provider_type a = ?pt \<and> uid a = ?u \<longrightarrow> a = new_account s (row_id user) ?pt m ?u"
      using one_or_none_NoneD [OF cl [unfolded None]] accounts by auto
    ultimately show thesis
      using U ck v2
      by - (rule that [OF cfg ch, of v2 user "new_account s (row_id user) ?pt m ?u" True];
        (simp add: new_account_def)?; (use U in blast)?)
  qed
qed

lemma check_account_InrD:
  assumes "check_account env rp tp t user m cfg ch u is_new account v = (Inr r, w')"
    and "ready t v"
  obtains check vd stamp v' where
    "rp_validate_user rp (ref_log v) u = (case check of Some c \<Rightarrow> Inr c | None \<Rightarrow>
       rp_validate_user rp (ref_log v) u)"
    "check = None \<Longrightarrow> \<exists>e. rp_validate_user rp (ref_log v) u = Inl e \<and> is_unavailable e"
    "evaluate_referral check (rules_of cfg) False = Inr vd"
    "ready t v'" "db v' = db v" "tg_log v' = tg_log v" "in_tx v' = in_tx v" "start v' = start v"
    "settle env tp t user m ch u vd is_new (record_check vd stamp (check \<noteq> None) account) v'
       = (Inr r, w')"
proof -
  obtain check v1 where c: "try_validate rp u v = (Inr check, v1)"
    and rest: "bindA (liftR (evaluate_referral check (rules_of cfg) False)) (\<lambda>vd.
      bindA (utcnow env) (\<lambda>stamp. settle env tp t user m ch u vd is_new
        (record_check vd stamp (check \<noteq> None) account))) v1 = (Inr r, w')"
    using assms(1) unfolding check_account_def bindA_eq_Inr [of "try_validate rp u"] by blast
  then obtain vd where vd: "evaluate_referral check (rules_of cfg) False = Inr vd"
    and settle: "settle env tp t user m ch u vd is_new
        (record_check vd (Aware (clock env (ticks v1))) (check \<noteq> None) account)
        (v1\<lparr>ticks := Suc (ticks v1)\<rparr>) = (Inr r, w')"
    by (auto simp: bindA_def utcnow_def split: sum.splits)
  have v1: "v1 = v\<lparr>ref_log := ref_log v @ [u]\<rparr>"
    and answer: "rp_validate_user rp (ref_log v) u = (case check of Some c \<Rightarrow> Inr c | None \<Rightarrow>
       rp_validate_user rp (ref_log v) u)"
      "check = None \<Longrightarrow> \<exists>e. rp_validate_user rp (ref_log v) u = Inl e \<and> is_unavailable e"
    using c by (auto simp: try_validate_run split: sum.splits if_splits option.splits)
  show thesis
    by (rule that [OF answer vd _ _ _ _ _ settle]) (use v1 assms(2) in simp_all)
qed

text \<open>What a settlement that let the member in has left.\<close>

lemma settle_success:
  assumes st: "settle env tp t u m ch raw vd is_new account v1 = (Inr r, w')" and "ready t v1" and "succeeded r"
  obtains a sub mem stamp where
    "eligible vd" "v_reason vd \<noteq> ER_PROVIDER_UNAVAILABLE" "telegram_users (db w') = telegram_users (db v1)"
    "a \<in> set (referral_accounts (db w'))"
    "a = account\<lparr>acc_status := VERIFIED, rejection_reason := None, verified_at := Some stamp, tenant_id := t\<rparr>"
    "sub \<in> set (subscriptions (db w'))" "sub_status sub = SS_ACTIVE" "sub_user_id sub = u" "sub_market sub = m"
    "tenant_id sub = t"
    "mem \<in> set (vip_memberships (db w'))" "mem_user_id mem = u" "channel_id mem = row_id ch"
    "subscription_id mem = Some (row_id sub)" "tenant_id mem = t" "mem_status mem \<in> set LINK_IS_LIVE"
    "invite_link mem = res_invite_link r" "res_invite_link r \<noteq> None"
proof -
  have el: "eligible vd" "v_reason vd \<noteq> ER_PROVIDER_UNAVAILABLE"
    using st assms(3) by (auto simp: settle_def succeeded_def thenA_def bindA_eq_Inr split: if_splits)
  let ?stamp = "Aware (clock env (ticks v1))"
  let ?a = "account\<lparr>acc_status := VERIFIED, rejection_reason := None, verified_at := Some ?stamp\<rparr>"
  obtain a2 v2 iv already where
    sv: "save accounts_table is_new t ?a (v1\<lparr>ticks := Suc (ticks v1)\<rparr>) = (Inr a2, v2)"
    and ad: "admit env tp t u m ch v2 = (Inr (iv, already), w')" and r: "res_invite_link r = Some (link iv)"
    using st el by (auto simp: settle_def bindA_eq_Inr thenA_def utcnow_def split: prod.splits)
  have "ready t (v1\<lparr>ticks := Suc (ticks v1)\<rparr>)" using assms(2) by simp
  from save_InrD [OF sv this] obtain rs where
    v2: "v2 = v1\<lparr>ticks := Suc (ticks v1), db := (db v1)\<lparr>referral_accounts := rs\<rparr>\<rparr>"
    and a2: "a2 = ?a\<lparr>tenant_id := t\<rparr>" "a2 \<in> set rs"
    by (auto simp: accounts_table_def)
  have "ready t v2" using assms(2) by (simp add: v2)
  from admit_InrD [OF ad this] obtain sub mem where
    db': "db w' = (db v2)\<lparr>subscriptions := subscriptions (db w'), vip_memberships := vip_memberships (db w')\<rparr>"
    and sub: "sub \<in> set (subscriptions (db w'))" "sub_status sub = SS_ACTIVE" "sub_user_id sub = u"
      "sub_market sub = m" "tenant_id sub = t"
    and mem: "mem \<in> set (vip_memberships (db w'))" "mem_user_id mem = u" "channel_id mem = row_id ch"
      "subscription_id mem = Some (row_id sub)" "tenant_id mem = t" "mem_status mem \<in> set LINK_IS_LIVE"
      "invite_link mem = Some (link iv)"
    by blast
  have tabs: "referral_accounts (db w') = rs" "telegram_users (db w') = telegram_users (db v1)"
    by (subst db', simp add: v2)+
  show thesis
    by (rule that [OF el tabs(2) _ _ sub mem(1-6)]) (use a2 tabs(1) mem(7) r in simp_all)
qed

text \<open>C4. A submission that lets the member in leaves everything the answer claims in the database:
  the exchange account is verified and held by the submitting user, the entitlement is active, and
  the membership of the market's own channel carries the very link the member is given, in a status
  in which that link is live. (Nobody is recorded as invited without a link, and nobody is given a
  link that is not recorded.)\<close>

theorem onboarding_success_is_recorded:
  assumes "ready t w"
    and "submit_uid env rp tp t tg m raw uname fname w = (Inr r, w')"
    and "succeeded r"
  shows "\<exists>ch user account sub mem.
    ch \<in> set (channels (db w)) \<and> tenant_id ch = t \<and> ch_market ch = m \<and> ch_is_active ch \<and>
    user \<in> set (telegram_users (db w')) \<and> tenant_id user = t \<and> telegram_user_id user = tg \<and>
    account \<in> set (referral_accounts (db w')) \<and> tenant_id account = t \<and>
    acc_user_id account = row_id user \<and> uid account = normalize_uid (Some raw) \<and>
    acc_status account = VERIFIED \<and> compliance_state account = CS_COMPLIANT \<and>
    sub \<in> set (subscriptions (db w')) \<and> tenant_id sub = t \<and> sub_user_id sub = row_id user \<and>
    sub_market sub = m \<and> sub_status sub = SS_ACTIVE \<and>
    mem \<in> set (vip_memberships (db w')) \<and> tenant_id mem = t \<and> mem_user_id mem = row_id user \<and>
    channel_id mem = row_id ch \<and> subscription_id mem = Some (row_id sub) \<and>
    mem_status mem \<in> set LINK_IS_LIVE \<and> invite_link mem = res_invite_link r \<and>
    res_invite_link r \<noteq> None"
proof -
  let ?u = "normalize_uid (Some raw)"
  have out: "outcome r \<notin> {OO_INVALID_UID, OO_NOT_CONFIGURED, OO_UID_CLAIMED_BY_ANOTHER_USER}"
    using assms(3) by (auto simp: succeeded_def)
  obtain cfg ch user v is_new account where
    ch: "ch \<in> set (channels (db w))" "tenant_id ch = t" "ch_market ch = m" "ch_is_active ch"
    and v: "ready t v" "db v = (db w)\<lparr>telegram_users := telegram_users (db v)\<rparr>"
    and user: "user \<in> set (telegram_users (db v))" "telegram_user_id user = tg" "tenant_id user = t"
    and acc: "acc_user_id account = row_id user" "uid account = ?u" "tenant_id account = t"
    and ck: "check_account env rp tp t (row_id user) m cfg ch ?u is_new account v = (Inr r, w')"
    by (rule submit_uid_reaches_check [OF assms(2,1) out])
  obtain check vd stamp v1 where
    ev: "evaluate_referral check (rules_of cfg) False = Inr vd"
    and v1: "ready t v1" "db v1 = db v"
    and st: "settle env tp t (row_id user) m ch ?u vd is_new
        (record_check vd stamp (check \<noteq> None) account) v1 = (Inr r, w')"
    by (rule check_account_InrD [OF ck v(1)])
  obtain a sub mem now where
    el: "eligible vd" "v_reason vd \<noteq> ER_PROVIDER_UNAVAILABLE"
    and users: "telegram_users (db w') = telegram_users (db v1)"
    and a: "a \<in> set (referral_accounts (db w'))" "a = (record_check vd stamp (check \<noteq> None) account)\<lparr>acc_status := VERIFIED,
      rejection_reason := None, verified_at := Some now, tenant_id := t\<rparr>"
    and sub: "sub \<in> set (subscriptions (db w'))" "sub_status sub = SS_ACTIVE" "sub_user_id sub = row_id user"
      "sub_market sub = m" "tenant_id sub = t"
    and mem: "mem \<in> set (vip_memberships (db w'))" "mem_user_id mem = row_id user" "channel_id mem = row_id ch"
      "subscription_id mem = Some (row_id sub)" "tenant_id mem = t" "mem_status mem \<in> set LINK_IS_LIVE"
      "invite_link mem = res_invite_link r" "res_invite_link r \<noteq> None"
    by (rule settle_success [OF st v1(1) assms(3)])
  have "v_compliance_state vd = CS_COMPLIANT"
    using ev el by (cases check) (auto simp: evaluate_simps res_simps split: if_splits option.splits)
  then have "acc_user_id a = row_id user" "uid a = ?u" "tenant_id a = t" "acc_status a = VERIFIED"
    "compliance_state a = CS_COMPLIANT"
    by (simp_all add: a(2) record_check_def Let_def acc)
  with ch user users v1(2) a(1) sub mem show ?thesis
    by (intro exI [of _ ch] exI [of _ user] exI [of _ a] exI [of _ sub] exI [of _ mem]) simp
qed

subsection \<open>Refusals\<close>

text \<open>What gives access, and the relation of not having touched it.\<close>

definition access_of :: "database \<Rightarrow> subscription list \<times> vip_membership list" where
  "access_of d = (subscriptions d, vip_memberships d)"

definition access_tx :: "world \<Rightarrow> world \<Rightarrow> bool" where
  "access_tx w w' \<longleftrightarrow> (in_tx w \<and> access_of (start w) = access_of (db w) \<longrightarrow>
     in_tx w' \<and> access_of (start w') = access_of (db w')) \<and>
     (in_tx w \<and> access_of (start w) = access_of (db w) \<longrightarrow>
       access_of (db w') = access_of (db w) \<and> tg_log w' = tg_log w)"

definition access_kept :: "world \<Rightarrow> world \<Rightarrow> bool" where
  "access_kept w w' \<longleftrightarrow> ((in_tx w \<longrightarrow> access_of (start w) = access_of (db w)) \<longrightarrow>
     (in_tx w' \<longrightarrow> access_of (start w') = access_of (db w')) \<and>
     access_of (db w') = access_of (db w) \<and> tg_log w' = tg_log w)"

lemma start_begin_tx: "start (begin_tx w) = (if in_tx w then start w else db w)"
  by (simp add: begin_tx_def apply_postgres_tenant_setting_def)

lemma access_insert_row:
  "(\<And>rs d. access_of (tbl_set tbl rs d) = access_of d) \<Longrightarrow> keeps access_tx (insert_row tbl r)"
  by (simp add: keeps_def access_tx_def insert_row_def)

lemma access_put_row:
  "(\<And>rs d. access_of (tbl_set tbl rs d) = access_of d) \<Longrightarrow> keeps access_tx (put_row tbl r)"
  by (simp add: keeps_def access_tx_def put_row_def Let_def)

lemma access_tables:
  "access_of (tbl_set users_table us d) = access_of d"
  "access_of (tbl_set accounts_table as d) = access_of d"
  "access_of (tbl_set snapshots_table ss d) = access_of d"
  by (simp_all add: access_of_def table_defs)

interpretation access_tx: world_relation access_tx
  by unfold_locales (auto simp: access_tx_def)

interpretation access: asking_relation access_tx access_kept
proof unfold_locales
  show "access_kept w w" for w by (simp add: access_kept_def)
  show "access_kept u w" if "access_kept u v" "access_kept v w" for u v w
    using that by (auto simp: access_kept_def)
  show "access_kept w w'" if "access_tx (begin_tx w) w'" for w w'
    using that by (auto simp: access_kept_def access_tx_def start_begin_tx split: if_splits)
  show "access_kept w (w'\<lparr>db := start w', pending := [], failed := True\<rparr>)"
    if "access_tx (begin_tx w) w'" for w w'
    using that by (auto simp: access_kept_def access_tx_def start_begin_tx split: if_splits)
qed (auto simp: access_kept_def access_tx_def rollback_def
    intro: access_insert_row access_put_row access_tables)

lemma refused_settle:
  "keeps_when (\<lambda>r. \<not> succeeded r) access_kept (settle env tp t user m ch u v is_new account)"
  unfolding settle_def
  by (auto intro!: keeps_whenI access.keeps_thenA access.keeps_enrol_writes access.keeps_retA
      simp: keeps_when_def bindA_eq_Inr thenA_def succeeded_def split: prod.splits if_splits
      dest: keepsD [OF access.keeps_enrol_writes(2)])

lemma refused_submit_uid:
  "keeps_when (\<lambda>r. \<not> succeeded r) access_kept (submit_uid env rp tp t tg m raw uname fname)"
  unfolding submit_uid_def claim_account_def check_account_def Let_def
  by (auto intro!: access.keeps_when_bindA access.keeps_queries access.keeps_ensure_user
      access.keeps_new_scoped access.keeps_try_validate access.keeps_liftR access.keeps_utcnow
      refused_settle keeps_whenI [OF access.keeps_retA] split: option.split)

text \<open>C16. Only a success touches access: a submission with any other outcome (a malformed UID, a
  market not set up, a UID another member holds, an account not under the referral or under-funded,
  an exchange outage) leaves every subscription and every membership as it was and sends nothing to
  Telegram.\<close>

theorem refusal_leaves_access:
  assumes "submit_uid env rp tp t tg m raw uname fname w = (Inr r, w')"
    and "\<not> succeeded r"
    and "in_tx w \<longrightarrow> access_of (start w) = access_of (db w)"
  shows "subscriptions (db w') = subscriptions (db w) \<and>
    vip_memberships (db w') = vip_memberships (db w) \<and> tg_log w' = tg_log w"
  using keeps_whenD [OF refused_submit_uid assms(1)] assms(2,3)
  by (auto simp: access_kept_def access_of_def)

subsection \<open>Tenant isolation and unique accounts\<close>

text \<open>Tenant isolation: on PostgreSQL, a submission in a session bound to tenant \<open>t\<close> leaves every
  row of every other tenant, in every table, exactly as it was, whatever the provider and Telegram
  answer and also when it raises.\<close>

theorem submit_uid_isolated:
  assumes "sess t w"
  shows "others t (db (snd (submit_uid env rp tp t' tg m raw uname fname w))) = others t (db w)"
proof -
  obtain r w' where run: "submit_uid env rp tp t' tg m raw uname fname w = (r, w')" by fastforce
  have "iso t w w'" by (rule keepsD [OF iso.keeps_submit_uid run])
  with assms run show ?thesis by (simp add: iso_def)
qed

text \<open>No two accounts of a tenant ever share an exchange UID, and no two memberships of a tenant
  are for the same user and channel: whatever a submission does, returning or raising, it leaves
  these true if they were.\<close>

theorem submit_uid_keeps_accounts_unique:
  assumes "keyed w" and "w' = snd (submit_uid env rp tp t tg m raw uname fname w)"
  shows "(\<forall>a \<in> set (referral_accounts (db w')). \<forall>b \<in> set (referral_accounts (db w')).
      tenant_id a = tenant_id b \<and> acc_provider_type a = acc_provider_type b \<and> uid a = uid b \<longrightarrow> a = b) \<and>
    (\<forall>x \<in> set (vip_memberships (db w')). \<forall>y \<in> set (vip_memberships (db w')).
      tenant_id x = tenant_id y \<and> mem_user_id x = mem_user_id y \<and> channel_id x = channel_id y \<longrightarrow> x = y)"
proof -
  obtain r v where run: "submit_uid env rp tp t tg m raw uname fname w = (r, v)" by fastforce
  have "ukeys w v" by (rule keepsD [OF ukeys.keeps_submit_uid run])
  with assms run have u: "unique_keys (db w')" by (simp add: ukeys_def keyed_def)
  have a: "a = b" if "a \<in> set (referral_accounts (db w'))" "b \<in> set (referral_accounts (db w'))"
    "tenant_id a = tenant_id b \<and> acc_provider_type a = acc_provider_type b \<and> uid a = uid b" for a b
    using table_unique_pair [OF accounts.unique_get [OF u] accounts.clash_sym, of a b] that
    by (simp add: accounts_table_def)
  have m: "x = y" if "x \<in> set (vip_memberships (db w'))" "y \<in> set (vip_memberships (db w'))"
    "tenant_id x = tenant_id y \<and> mem_user_id x = mem_user_id y \<and> channel_id x = channel_id y" for x y
    using table_unique_pair [OF members.unique_get [OF u] members.clash_sym, of x y] that
    by (simp add: memberships_table_def)
  from a m show ?thesis by blast
qed

subsection \<open>Early refusals\<close>

lemma settle_outcome:
  "settle env tp t user m ch u v is_new account w = (Inr r, w') \<Longrightarrow>
     outcome r \<notin> {OO_INVALID_UID, OO_NOT_CONFIGURED, OO_UID_CLAIMED_BY_ANOTHER_USER} \<and>
     (outcome r = OO_PROVIDER_UNAVAILABLE \<longleftrightarrow> v_reason v = ER_PROVIDER_UNAVAILABLE)"
  by (auto simp: settle_def thenA_def bindA_eq_Inr eligible_def split: if_splits prod.splits)

lemma check_account_outcome:
  "check_account env rp tp t user m cfg ch u is_new account w = (Inr r, w') \<Longrightarrow>
     outcome r \<notin> {OO_INVALID_UID, OO_NOT_CONFIGURED, OO_UID_CLAIMED_BY_ANOTHER_USER}"
  unfolding check_account_def bindA_eq_Inr by (blast dest: settle_outcome)

lemma claim_account_outcome:
  assumes "claim_account env rp tp t user m cfg ch u v = (Inr r, w')"
  shows "outcome r \<notin> {OO_INVALID_UID, OO_NOT_CONFIGURED}"
  using assms
  by (auto simp: claim_account_def bindA_eq_Inr plain_result_def split: option.splits if_splits
      dest!: check_account_outcome)

lemma early_submit_uid:
  "keeps_when
     (\<lambda>r. outcome r \<in> {OO_INVALID_UID, OO_NOT_CONFIGURED, OO_UID_CLAIMED_BY_ANOTHER_USER}) quiet
     (submit_uid env rp tp t tg m raw uname fname)"
proof -
  have "keeps_when
     (\<lambda>r. outcome r \<in> {OO_INVALID_UID, OO_NOT_CONFIGURED, OO_UID_CLAIMED_BY_ANOTHER_USER}) quiet
     (check_account env rp tp t user m cfg ch u is_new account)" for user cfg ch u is_new account
    unfolding keeps_when_def by (blast dest: check_account_outcome)
  then show ?thesis
    unfolding submit_uid_def claim_account_def Let_def
    by (auto intro!: quiet.inner.keeps_when_bindA quiet.keeps_queries quiet.keeps_ensure_user
        quiet.keeps_new_scoped keeps_whenI [OF quiet.inner.keeps_retA] split: option.split)
qed

definition configured :: "uuid \<Rightarrow> provider_type \<Rightarrow> market \<Rightarrow> database \<Rightarrow> bool" where
  "configured t pt m d \<longleftrightarrow>
     (\<exists>cfg \<in> set (referral_configs d). tenant_id cfg = t \<and> cfg_provider_type cfg = pt \<and>
        cfg_market cfg = m \<and> cfg_is_active cfg) \<and>
     (\<exists>ch \<in> set (channels d). tenant_id ch = t \<and> ch_market ch = m \<and> ch_is_active ch)"

text \<open>Refusals that cost nothing: a submission is refused as malformed exactly when the
  normalized UID is not nine digits, and as not configured exactly when it is well formed but the
  market has no active referral programme or no active channel; in both cases nothing is written and
  nobody is called.\<close>

theorem early_refusals_cost_nothing:
  assumes "ready t w"
    and "submit_uid env rp tp t tg m raw uname fname w = (Inr r, w')"
  shows "(outcome r = OO_INVALID_UID \<longleftrightarrow> \<not> is_valid_bitunix_uid (normalize_uid (Some raw))) \<and>
    (outcome r = OO_NOT_CONFIGURED \<longleftrightarrow> is_valid_bitunix_uid (normalize_uid (Some raw)) \<and>
       \<not> configured t (rp_provider_type rp) m (db w)) \<and>
    (outcome r = OO_INVALID_UID \<or> outcome r = OO_NOT_CONFIGURED \<longrightarrow> w' = w)"
proof -
  let ?u = "normalize_uid (Some raw)" and ?pt = "rp_provider_type rp"
  show ?thesis
  proof (cases "is_valid_bitunix_uid ?u")
    case False
    with assms(2) have "r = plain_result OO_INVALID_UID ?u" "w' = w"
      by (simp_all add: submit_uid_def)
    with False show ?thesis by (simp add: plain_result_def)
  next
    case True
    obtain config channel where
      c: "one_or_none (filter (\<lambda>r. tenant_id r = t \<and> cfg_provider_type r = ?pt \<and> cfg_market r = m)
          (referral_configs (db w))) = Inr config"
      "one_or_none (filter (\<lambda>r. tenant_id r = t \<and> ch_market r = m \<and> ch_is_active r)
          (channels (db w))) = Inr channel"
      using assms True by (auto simp: submit_uid_def Let_def bindA_eq_Inr query_runs)
    then have q: "get_for t ?pt m w = (Inr config, w)" "get_for_market t m w = (Inr channel, w)"
      using assms(1) by (simp_all add: query_runs)
    have conf: "configured t ?pt m (db w) \<longleftrightarrow>
        (\<exists>cfg ch. config = Some cfg \<and> channel = Some ch \<and> cfg_is_active cfg)"
      using one_or_none_filter_ex [OF c(1), of cfg_is_active]
        one_or_none_filter_ex [OF c(2), of "\<lambda>_. True"]
      by (auto simp: configured_def conj_assoc)
    show ?thesis
    proof (cases "configured t ?pt m (db w)")
      case False
      with assms(2) True q conf have "r = plain_result OO_NOT_CONFIGURED ?u \<and> w' = w"
        by (auto simp: submit_uid_def Let_def bindA_Inr [of "get_for t ?pt m"]
            bindA_Inr [of "get_for_market t m"] split: option.splits)
      with True False show ?thesis by (simp add: plain_result_def)
    next
      case conf': True
      with conf obtain cfg ch where "config = Some cfg" "channel = Some ch" "cfg_is_active cfg"
        by blast
      with assms(2) True q obtain user :: telegram_user and v where
        "claim_account env rp tp t (row_id user) m cfg ch ?u v = (Inr r, w')"
        by (auto simp: submit_uid_def Let_def bindA_Inr [of "get_for t ?pt m"]
            bindA_Inr [of "get_for_market t m"]
            bindA_eq_Inr [of "ensure_user env t tg uname fname"])
      then have "outcome r \<notin> {OO_INVALID_UID, OO_NOT_CONFIGURED}"
        by (rule claim_account_outcome)
      with True conf' show ?thesis by simp
    qed
  qed
qed

text \<open>C6. One exchange account backs one member: a UID that a member of the tenant already holds is
  refused to every other Telegram user, before the exchange is asked and without a word to Telegram.\<close>

theorem claimed_uid_is_refused:
  assumes "ready t w" and "unique_keys (db w)"
    and "a \<in> set (referral_accounts (db w))" and "tenant_id a = t"
    and "acc_provider_type a = rp_provider_type rp" and "uid a = normalize_uid (Some raw)"
    and "holder \<in> set (telegram_users (db w))" and "row_id holder = acc_user_id a"
    and "telegram_user_id holder \<noteq> tg"
    and "submit_uid env rp tp t tg m raw uname fname w = (Inr r, w')"
  shows "outcome r \<in> {OO_INVALID_UID, OO_NOT_CONFIGURED, OO_UID_CLAIMED_BY_ANOTHER_USER} \<and>
    ref_log w' = ref_log w \<and> tg_log w' = tg_log w"
proof -
  have early: "outcome r \<in> {OO_INVALID_UID, OO_NOT_CONFIGURED, OO_UID_CLAIMED_BY_ANOTHER_USER}"
  proof (rule ccontr)
    assume "outcome r \<notin> {OO_INVALID_UID, OO_NOT_CONFIGURED, OO_UID_CLAIMED_BY_ANOTHER_USER}"
    then obtain user :: telegram_user and account where
      "acc_user_id account = row_id user"
      "\<forall>a \<in> set (referral_accounts (db w)). tenant_id a = t \<and>
         acc_provider_type a = rp_provider_type rp \<and> uid a = normalize_uid (Some raw) \<longrightarrow> a = account"
      "unique_keys (db w) \<longrightarrow>
        (\<forall>h \<in> set (telegram_users (db w)). row_id h = row_id user \<longrightarrow> telegram_user_id h = tg)"
      by (rule submit_uid_reaches_check [OF assms(10,1)])
    then have "acc_user_id a = row_id user"
      "\<forall>h \<in> set (telegram_users (db w)). row_id h = row_id user \<longrightarrow> telegram_user_id h = tg"
      using assms(2-6) by blast+
    with assms(7-9) show False by auto
  qed
  with keeps_whenD [OF early_submit_uid assms(10)] show ?thesis by (simp add: quiet_def)
qed

text \<open>An exchange outage blames nobody: when the exchange cannot be reached, a submission that gets
  as far as asking it is answered "try again", no entitlement or membership moves, nothing is sent,
  and the account it records keeps the balance and the verification date known before. (Its status
  does become \<open>UNVERIFIED\<close>, also where the account was verified.)\<close>

theorem outage_leaves_standing:
  assumes "ready t w"
    and "rp_validate_user rp (ref_log w) (normalize_uid (Some raw)) = Inl e" and "is_unavailable e"
    and "submit_uid env rp tp t tg m raw uname fname w = (Inr r, w')"
    and "outcome r \<notin> {OO_INVALID_UID, OO_NOT_CONFIGURED, OO_UID_CLAIMED_BY_ANOTHER_USER}"
  shows "outcome r = OO_PROVIDER_UNAVAILABLE \<and>
    subscriptions (db w') = subscriptions (db w) \<and>
    vip_memberships (db w') = vip_memberships (db w) \<and> tg_log w' = tg_log w \<and>
    (\<exists>a \<in> set (referral_accounts (db w')). tenant_id a = t \<and> uid a = normalize_uid (Some raw) \<and>
       acc_status a = UNVERIFIED \<and> compliance_state a = CS_PROVIDER_UNAVAILABLE \<and>
       (last_known_balance a = None \<or>
        (\<exists>b \<in> set (referral_accounts (db w)). row_id b = row_id a \<and>
           last_known_balance b = last_known_balance a \<and> verified_at b = verified_at a)))"
proof -
  let ?u = "normalize_uid (Some raw)"
  obtain cfg ch user v is_new account where
    v: "ready t v" "db v = (db w)\<lparr>telegram_users := telegram_users (db v)\<rparr>" "quiet w v"
    and acc: "uid account = ?u" "tenant_id account = t"
      "is_new \<longrightarrow> last_known_balance account = None"
      "\<not> is_new \<longrightarrow> account \<in> set (referral_accounts (db w))"
    and ck: "check_account env rp tp t (row_id (user :: telegram_user)) m cfg ch ?u is_new account v
        = (Inr r, w')"
    by (rule submit_uid_reaches_check [OF assms(4,1,5)])
  obtain us where us: "db v = (db w)\<lparr>telegram_users := us\<rparr>" using v(2) by blast
  have log: "ref_log v = ref_log w" "tg_log v = tg_log w" using v(3) by (simp_all add: quiet_def)
  obtain check vd stamp v1 where
    answer: "rp_validate_user rp (ref_log v) ?u = (case check of Some c \<Rightarrow> Inr c | None \<Rightarrow>
       rp_validate_user rp (ref_log v) ?u)"
    and ev: "evaluate_referral check (rules_of cfg) False = Inr vd"
    and v1: "ready t v1" "db v1 = db v" "tg_log v1 = tg_log v"
    and st: "settle env tp t (row_id user) m ch ?u vd is_new
        (record_check vd stamp (check \<noteq> None) account) v1 = (Inr r, w')"
    by (rule check_account_InrD [OF ck v(1)])
  have "check = None" using answer assms(2) log by (simp split: option.splits)
  with ev have vd: "v_reason vd = ER_PROVIDER_UNAVAILABLE"
    "v_compliance_state vd = CS_PROVIDER_UNAVAILABLE" by auto
  let ?a = "(record_check vd stamp False account)\<lparr>acc_status := UNVERIFIED\<rparr>"
  from st vd \<open>check = None\<close> obtain a2 where
    sv: "save accounts_table is_new t ?a v1 = (Inr a2, w')" and r: "outcome r = OO_PROVIDER_UNAVAILABLE"
    by (auto simp: settle_def thenA_def bindA_eq_Inr)
  from save_InrD [OF sv v1(1)] obtain rs where
    w': "w' = v1\<lparr>db := (db v1)\<lparr>referral_accounts := rs\<rparr>\<rparr>" and a2: "a2 = ?a\<lparr>tenant_id := t\<rparr>" "a2 \<in> set rs"
    by (auto simp: accounts_table_def)
  have a2': "tenant_id a2 = t" "uid a2 = ?u" "acc_status a2 = UNVERIFIED"
    "compliance_state a2 = CS_PROVIDER_UNAVAILABLE"
    "last_known_balance a2 = last_known_balance account" "row_id a2 = row_id account"
    "verified_at a2 = verified_at account"
    by (simp_all add: a2(1) record_check_def Let_def acc vd)
  have "last_known_balance a2 = None \<or>
      (\<exists>b \<in> set (referral_accounts (db w)). row_id b = row_id a2 \<and>
         last_known_balance b = last_known_balance a2 \<and> verified_at b = verified_at a2)"
    using acc(3,4) a2' by (cases is_new) auto
  moreover have "referral_accounts (db w') = rs" by (simp add: w')
  ultimately show ?thesis
    using r a2(2) a2' by (auto simp: w' v1(2,3) us log)
qed

end
