(* ===== verification/Demo.thy ===== *)
theory Demo
  imports Onboarding "HOL-Library.Code_Target_Nat"
begin

text \<open>
  The running example continued: a tenant with one market set up, a member with a funded account,
  and the worlds on which the witnesses of the flows are evaluated.
\<close>

definition demo_config :: referral_program_config where
  "demo_config = \<lparr>row_id = 10, created_at = Aware demo_now, tenant_id = 1,
     cfg_provider_type = BITUNIX, cfg_market = CRYPTO,
     referral_link = asc ''https://bitunix.com/r/1'', ib_id = None,
     cfg_minimum_balance = Fin False 300 0, cfg_minimum_trades_per_period = 1,
     cfg_trade_period_days = 7, compliance_grace_period_days = 30, cfg_is_active = True\<rparr>"

definition foreign_channel :: telegram_channel where
  "foreign_channel = \<lparr>row_id = 21, created_at = Aware demo_now, tenant_id = 2, ch_market = CRYPTO,
     chat_id = -200, title = None, ch_is_active = True\<rparr>"

definition demo_db :: database where
  "demo_db = empty_db\<lparr>referral_configs := [demo_config], channels := [foreign_channel, demo_channel]\<rparr>"

definition demo_world :: world where
  "demo_world = (new_world True demo_db)\<lparr>in_tx := True, bound := Some 1, published := Some 1\<rparr>"

definition demo_accounts :: "ustr \<rightharpoonup> referral_check" where
  "demo_accounts =
     mock_register (asc ''123456789'') (Fin False 350 0) True (Some 4)
       (mock_register (asc ''222222222'') (Fin False 120 0) True None Map.empty)"

definition demo_referral :: referral_provider where
  "demo_referral = mock_referral_provider BITUNIX demo_accounts False"

definition demo_referral_down :: referral_provider where
  "demo_referral_down = mock_referral_provider BITUNIX demo_accounts True"

definition demo_submit :: "referral_provider \<Rightarrow> string \<Rightarrow> onboarding_result res \<times> world" where
  "demo_submit rp raw =
     submit_uid demo_runtime rp demo_telegram 1 777 CRYPTO (asc raw) None (Some (asc ''Ali'')) demo_world"

text \<open>A member of the tenant, and an exchange account in their name.\<close>

definition demo_user :: telegram_user where
  "demo_user = \<lparr>row_id = 5, created_at = Aware demo_now, tenant_id = 1, telegram_user_id = 555,
     pending_market = Some CRYPTO, username = None, first_name = Some (asc ''Sara''),
     language_code = None\<rparr>"

definition demo_account :: referral_account where
  "demo_account = \<lparr>row_id = 6, created_at = Aware demo_now, tenant_id = 1, acc_user_id = 5,
     acc_provider_type = BITUNIX, acc_market = CRYPTO, uid = asc ''123456789'',
     acc_status = VERIFIED, compliance_state = CS_COMPLIANT,
     last_known_balance = Some (Fin False 350 0), last_checked_at = None,
     verified_at = Some (Aware demo_now), rejection_reason = None\<rparr>"

definition held_world :: world where
  "held_world = demo_world\<lparr>db := demo_db\<lparr>telegram_users := [demo_user],
     referral_accounts := [demo_account]\<rparr>\<rparr>"

definition held_submit :: "referral_provider \<Rightarrow> int \<Rightarrow> onboarding_result res \<times> world" where
  "held_submit rp tg =
     submit_uid demo_runtime rp demo_telegram 1 tg CRYPTO (asc ''123456789'') None None held_world"

lemma demo_ready: "ready 1 demo_world" "ready 1 held_world" "sess 1 demo_world"
  by (simp_all add: ready_def sess_def held_world_def demo_world_def new_world_def others_def
      demo_db_def empty_db_def foreign_channel_def demo_channel_def demo_config_def)

lemma demo_keyed: "keyed demo_world" "unique_keys (db held_world)"
  by (simp_all add: keyed_def unique_keys_def table_unique_def held_world_def demo_world_def
      new_world_def demo_db_def empty_db_def foreign_channel_def demo_channel_def table_defs)

text \<open>What the example runs come to, evaluated in the kernel.\<close>

fun gives :: "onboarding_result res \<times> world \<Rightarrow> onboarding_outcome \<Rightarrow> bool" where
  "gives (Inr r, w) out = (outcome r = out)"
| "gives (Inl e, w) out = False"

lemma demo_runs:
  "gives (demo_submit demo_referral ''123 456-789'') OO_INVITED"
  "gives (demo_submit demo_referral ''222222222'') OO_INSUFFICIENT_BALANCE"
  "gives (demo_submit demo_referral ''12345'') OO_INVALID_UID"
  "gives (held_submit demo_referral 777) OO_UID_CLAIMED_BY_ANOTHER_USER"
  "gives (held_submit demo_referral_down 555) OO_PROVIDER_UNAVAILABLE"
  by code_simp+

lemma givesD: "gives x out \<Longrightarrow> \<exists>r w. x = (Inr r, w) \<and> outcome r = out"
  by (cases "(x, out)" rule: gives.cases) auto

subsection \<open>Onboarding\<close>

theorem onboarding_success_is_recorded_witness:
  "\<exists>r w'. demo_submit demo_referral ''123 456-789'' = (Inr r, w') \<and> succeeded r \<and>
    (\<exists>mem \<in> set (vip_memberships (db w')). invite_link mem = res_invite_link r \<and>
       res_invite_link r \<noteq> None \<and> mem_status mem \<in> set LINK_IS_LIVE)"
proof -
  obtain r w' where run: "demo_submit demo_referral ''123 456-789'' = (Inr r, w')" "outcome r = OO_INVITED"
    using givesD [OF demo_runs(1)] by blast
  then have "succeeded r" by (simp add: succeeded_def)
  with onboarding_success_is_recorded [OF demo_ready(1) run(1) [unfolded demo_submit_def]] run
  show ?thesis by blast
qed

theorem refusal_leaves_access_witness:
  "\<exists>r w'. demo_submit demo_referral ''222222222'' = (Inr r, w') \<and> \<not> succeeded r \<and>
    subscriptions (db w') = [] \<and> vip_memberships (db w') = [] \<and> tg_log w' = []"
proof -
  obtain r w' where run: "demo_submit demo_referral ''222222222'' = (Inr r, w')"
      "outcome r = OO_INSUFFICIENT_BALANCE"
    using givesD [OF demo_runs(2)] by blast
  then have no: "\<not> succeeded r" by (simp add: succeeded_def)
  have start: "in_tx demo_world \<longrightarrow> access_of (start demo_world) = access_of (db demo_world)"
    by (simp add: demo_world_def new_world_def)
  have "subscriptions (db demo_world) = []" "vip_memberships (db demo_world) = []"
    "tg_log demo_world = []"
    by (simp_all add: demo_world_def new_world_def demo_db_def empty_db_def)
  with refusal_leaves_access [OF run(1) [unfolded demo_submit_def] no start] run(1) no
  show ?thesis by auto
qed

theorem submit_uid_isolated_witness:
  "others 1 (db (snd (demo_submit demo_referral ''123 456-789''))) = others 1 (db demo_world) \<and>
   channels (others 1 (db demo_world)) = [foreign_channel]"
  using submit_uid_isolated [OF demo_ready(3)]
  by (simp add: demo_submit_def)
    (simp add: others_def demo_world_def new_world_def demo_db_def foreign_channel_def demo_channel_def)

theorem submit_uid_keeps_accounts_unique_witness:
  "\<nexists>a b. a \<in> set (referral_accounts (db (snd (demo_submit demo_referral ''123 456-789'')))) \<and>
     b \<in> set (referral_accounts (db (snd (demo_submit demo_referral ''123 456-789'')))) \<and>
     tenant_id a = tenant_id b \<and> acc_provider_type a = acc_provider_type b \<and> uid a = uid b \<and> a \<noteq> b"
  using submit_uid_keeps_accounts_unique
    [OF demo_keyed(1) refl, of demo_runtime demo_referral demo_telegram 1 777 CRYPTO
      "asc ''123 456-789''" None "Some (asc ''Ali'')"]
  unfolding demo_submit_def by blast

theorem early_refusals_cost_nothing_witness:
  "\<exists>r. demo_submit demo_referral ''12345'' = (Inr r, demo_world) \<and> outcome r = OO_INVALID_UID"
proof -
  obtain r w' where run: "demo_submit demo_referral ''12345'' = (Inr r, w')" "outcome r = OO_INVALID_UID"
    using givesD [OF demo_runs(3)] by blast
  with early_refusals_cost_nothing [OF demo_ready(1) run(1) [unfolded demo_submit_def]] show ?thesis
    by auto
qed

theorem claimed_uid_is_refused_witness:
  "\<exists>r w'. held_submit demo_referral 777 = (Inr r, w') \<and>
     outcome r \<in> {OO_INVALID_UID, OO_NOT_CONFIGURED, OO_UID_CLAIMED_BY_ANOTHER_USER} \<and> ref_log w' = []"
proof -
  obtain r w' where run: "held_submit demo_referral 777 = (Inr r, w')"
    using givesD [OF demo_runs(4)] by blast
  have "normalize_uid (Some (asc ''123456789'')) = asc ''123456789''" by code_simp
  then have facts: "demo_account \<in> set (referral_accounts (db held_world))" "tenant_id demo_account = 1"
    "acc_provider_type demo_account = rp_provider_type demo_referral"
    "uid demo_account = normalize_uid (Some (asc ''123456789''))"
    "demo_user \<in> set (telegram_users (db held_world))" "row_id demo_user = acc_user_id demo_account"
    "telegram_user_id demo_user \<noteq> 777"
    by (simp_all add: held_world_def demo_account_def demo_user_def demo_referral_def
        mock_referral_provider_def)
  have "ref_log held_world = []" by (simp add: held_world_def demo_world_def new_world_def)
  with claimed_uid_is_refused [OF demo_ready(2) demo_keyed(2) facts run [unfolded held_submit_def]] run
  show ?thesis by simp
qed

theorem outage_leaves_standing_witness:
  "\<exists>r w' a. held_submit demo_referral_down 555 = (Inr r, w') \<and> outcome r = OO_PROVIDER_UNAVAILABLE \<and>
     a \<in> set (referral_accounts (db w')) \<and> acc_status a = UNVERIFIED"
proof -
  obtain r w' where run: "held_submit demo_referral_down 555 = (Inr r, w')"
      "outcome r = OO_PROVIDER_UNAVAILABLE"
    using givesD [OF demo_runs(5)] by blast
  have down: "rp_validate_user demo_referral_down h u = Inl mock_down" "is_unavailable mock_down" for h u
    by (simp_all add: demo_referral_down_def mock_referral_provider_def mock_down_def)
  have "outcome r \<notin> {OO_INVALID_UID, OO_NOT_CONFIGURED, OO_UID_CLAIMED_BY_ANOTHER_USER}"
    using run(2) by simp
  from outage_leaves_standing [OF demo_ready(2) down run(1) [unfolded held_submit_def] this] run
  show ?thesis by blast
qed

end
