(* ===== verification/PeriodLock.thy ===== *)
theory PeriodLock
  imports Runs "HOL-Library.Log_Nat"
begin

text \<open>
  \<open>app/jobs/period_lock.py\<close>: claiming a scheduled period, exactly once.

  \<open>period_start_for\<close> computes with Python floats. \<open>dbl\<close> rounds a rational to the nearest double
  (53 significant bits, ties to even); magnitudes here stay far from overflow and underflow, so no
  other feature of the format matters. The floor division of two doubles is computed exactly, as
  CPython's algorithm does while the quotient is below \<open>2 ^ 53\<close>.
\<close>

subsection \<open>Double precision\<close>

definition round_even :: "rat \<Rightarrow> int" where
  "round_even x =
     (let f = \<lfloor>x\<rfloor>; d = x - of_int f in
      if d < 1 / 2 then f else if d > 1 / 2 then f + 1 else if even f then f else f + 1)"

text \<open>The exponent of the last of 53 bits of a magnitude of at least \<open>2 ^ -40\<close>.\<close>

definition ulp_exp :: "rat \<Rightarrow> int" where
  "ulp_exp x = bitlen \<lfloor>\<bar>x\<bar> * 2 ^ 40\<rfloor> - 1 - 40 - 52"

definition pow2 :: "int \<Rightarrow> rat" where
  "pow2 e = (if 0 \<le> e then 2 ^ nat e else 1 / 2 ^ nat (- e))"

definition dbl :: "rat \<Rightarrow> rat" where
  "dbl x = of_int (round_even (x / pow2 (ulp_exp x))) * pow2 (ulp_exp x)"

definition total_seconds :: "int \<Rightarrow> rat" where
  "total_seconds us = dbl (of_int us / of_int micros_per_second)"

lemma round_even_near: "\<bar>of_int (round_even x) - x\<bar> \<le> 1 / 2"
proof -
  have "of_int \<lfloor>x\<rfloor> \<le> x" "x < of_int \<lfloor>x\<rfloor> + 1" by linarith+
  then show ?thesis unfolding round_even_def Let_def abs_if by (simp split: if_split) linarith
qed

lemma round_even_int [simp]: "round_even (of_int m) = m"
  by (simp add: round_even_def)

lemma round_even_ge: "of_int m \<le> x \<Longrightarrow> m \<le> round_even x"
proof -
  assume "of_int m \<le> x"
  then have "m \<le> \<lfloor>x\<rfloor>" by (simp add: le_floor_iff)
  then show ?thesis by (auto simp: round_even_def Let_def)
qed

lemma round_even_le: "x \<le> of_int m \<Longrightarrow> round_even x \<le> m"
proof -
  assume "x \<le> of_int m"
  have "of_int (round_even x) \<le> x + 1 / 2" using round_even_near [of x] by linarith
  show ?thesis
  proof (cases "x = of_int m")
    case False
    with \<open>x \<le> of_int m\<close> have "x < of_int m" by simp
    show ?thesis
    proof (rule ccontr)
      assume "\<not> round_even x \<le> m"
      then have "m + 1 \<le> round_even x" by simp
      then have "of_int m + 1 \<le> (of_int (round_even x) :: rat)"
        by (metis of_int_1 of_int_add of_int_le_iff)
      with \<open>of_int (round_even x) \<le> x + 1 / 2\<close> \<open>x < of_int m\<close> show False by linarith
    qed
  qed simp
qed

lemma pow2_pos [simp]: "0 < pow2 e"
  by (simp add: pow2_def)

lemma pow2_nonzero [simp]: "pow2 e \<noteq> 0"
  using pow2_pos [of e] by linarith

lemma pow2_le: "e \<le> - int k \<Longrightarrow> pow2 e \<le> 1 / 2 ^ k"
proof -
  assume e: "e \<le> - int k"
  show ?thesis
  proof (cases "0 \<le> e")
    case True
    with e have "e = 0" "k = 0" by auto
    then show ?thesis by (simp add: pow2_def)
  next
    case False
    with e have "k \<le> nat (- e)" by simp
    with False show ?thesis by (simp add: pow2_def frac_le power_increasing)
  qed
qed

lemma int_over_pow2: "e \<le> 0 \<Longrightarrow> of_int m / pow2 e = of_int (m * 2 ^ nat (- e))"
  by (cases "e = 0") (simp_all add: pow2_def)

text \<open>A magnitude below \<open>2 ^ N\<close> has its last bit at \<open>N - 53\<close> or below.\<close>

lemma ulp_exp_le: "\<bar>x\<bar> < 2 ^ N \<Longrightarrow> ulp_exp x \<le> int N - 53"
proof -
  assume "\<bar>x\<bar> < 2 ^ N"
  then have "\<bar>x\<bar> * 2 ^ 40 < 2 ^ (N + 40)" by (simp add: power_add)
  then have "of_int \<lfloor>\<bar>x\<bar> * 2 ^ 40\<rfloor> < (2 ^ (N + 40) :: rat)" by linarith
  then have "\<lfloor>\<bar>x\<bar> * 2 ^ 40\<rfloor> < 2 ^ (N + 40)"
    by (metis of_int_less_iff of_int_numeral of_int_power)
  then have "bitlen \<lfloor>\<bar>x\<bar> * 2 ^ 40\<rfloor> \<le> int (N + 40)"
    unfolding bitlen_le_iff_power by (simp only: nat_int) simp
  then show ?thesis by (simp add: ulp_exp_def)
qed

lemma dbl_near: "\<bar>dbl x - x\<bar> \<le> pow2 (ulp_exp x) / 2"
proof -
  let ?p = "pow2 (ulp_exp x)"
  have "dbl x - x = (of_int (round_even (x / ?p)) - x / ?p) * ?p"
    using pow2_pos [of "ulp_exp x"] by (simp add: dbl_def left_diff_distrib)
  then have "\<bar>dbl x - x\<bar> = \<bar>of_int (round_even (x / ?p)) - x / ?p\<bar> * ?p"
    by (simp add: abs_mult less_imp_le)
  also have "\<dots> \<le> 1 / 2 * ?p"
    by (intro mult_right_mono round_even_near) (simp add: less_imp_le)
  finally show ?thesis by simp
qed

lemma dbl_ge: "ulp_exp x \<le> 0 \<Longrightarrow> of_int m \<le> x \<Longrightarrow> of_int m \<le> dbl x"
proof -
  assume e: "ulp_exp x \<le> 0" and "of_int m \<le> x"
  then have "of_int m / pow2 (ulp_exp x) \<le> x / pow2 (ulp_exp x)"
    by (simp add: divide_right_mono less_imp_le)
  then have "m * 2 ^ nat (- ulp_exp x) \<le> round_even (x / pow2 (ulp_exp x))"
    unfolding int_over_pow2 [OF e] by (rule round_even_ge)
  then have "of_int m / pow2 (ulp_exp x) \<le> of_int (round_even (x / pow2 (ulp_exp x)))"
    unfolding int_over_pow2 [OF e] by (simp only: of_int_le_iff)
  then show ?thesis by (simp add: dbl_def field_simps)
qed

lemma dbl_le: "ulp_exp x \<le> 0 \<Longrightarrow> x \<le> of_int m \<Longrightarrow> dbl x \<le> of_int m"
proof -
  assume e: "ulp_exp x \<le> 0" and "x \<le> of_int m"
  then have "x / pow2 (ulp_exp x) \<le> of_int m / pow2 (ulp_exp x)"
    by (simp add: divide_right_mono less_imp_le)
  then have "round_even (x / pow2 (ulp_exp x)) \<le> m * 2 ^ nat (- ulp_exp x)"
    unfolding int_over_pow2 [OF e] by (rule round_even_le)
  then have "of_int (round_even (x / pow2 (ulp_exp x))) \<le> of_int m / pow2 (ulp_exp x)"
    unfolding int_over_pow2 [OF e] by (simp only: of_int_le_iff)
  then show ?thesis by (simp add: dbl_def field_simps)
qed

lemma dbl_int: "\<bar>m\<bar> < 2 ^ 53 \<Longrightarrow> dbl (of_int m) = of_int m"
proof -
  assume "\<bar>m\<bar> < 2 ^ 53"
  then have "of_int \<bar>m\<bar> < (of_int (2 ^ 53) :: rat)" by (simp only: of_int_less_iff)
  then have "ulp_exp (of_int m) \<le> 0" using ulp_exp_le [of "of_int m" 53] by simp
  then show ?thesis by (intro antisym dbl_le dbl_ge) simp_all
qed

text \<open>\<open>period_start_for\<close>; a period is given in microseconds.\<close>

definition period_start_for :: "datetime \<Rightarrow> int \<Rightarrow> datetime res" where
  "period_start_for now period =
     (let elapsed = total_seconds (micros (as_utc now)); p = total_seconds period in
      if p = 0 then Inl ZeroDivisionError
      else
        let s = dbl (of_int \<lfloor>elapsed / p\<rfloor> * p) in
        dt_add (Aware 0) (round_even (s * of_int micros_per_second)))"

subsection \<open>Claiming\<close>

definition new_execution :: "scoped \<Rightarrow> ustr \<Rightarrow> datetime \<Rightarrow> datetime \<Rightarrow> job_execution" where
  "new_execution s jn ps started =
     \<lparr>row_id = row_id s, created_at = created_at s, tenant_id = tenant_id s, job_name = jn,
      job_period_start = ps, job_state = RUNNING, started_at = Some started, finished_at = None,
      job_processed = 0, job_warned = 0, job_revoked = 0, job_skipped_unavailable = 0,
      job_error = None\<rparr>"

text \<open>The insert runs inside a SAVEPOINT, so its failure leaves the transaction usable.\<close>

definition claim_period ::
  "runtime \<Rightarrow> uuid \<Rightarrow> ustr \<Rightarrow> datetime \<Rightarrow> job_execution option act" where
  "claim_period env t jn ps =
     bindA (utcnow env) (\<lambda>started.
     bindA (new_scoped env t) (\<lambda>s.
     let x = new_execution s jn ps started in
     thenA flush
       (statement (tryA (bindA (insert_row executions_table x) (\<lambda>_. retA (Some x)))
          (\<lambda>e. if e = IntegrityError then Some (retA None) else None)))))"

definition finish :: "runtime \<Rightarrow> job_execution \<Rightarrow> ustr option \<Rightarrow> job_execution act" where
  "finish env x err =
     bindA (utcnow env) (\<lambda>stamp.
     retA (x\<lparr>job_state := (if str_falsy err then SUCCEEDED else FAILED),
             finished_at := Some stamp,
             job_error := (if str_falsy err then None else map_option (take 1000) err)\<rparr>))"

context job_relation
begin

lemma keeps_insert_execution [keeps_rules]: "keeps S (insert_row executions_table x)"
  by (rule executions_kept(1))

lemma keeps_claim_period [keeps_rules]: "keeps R (claim_period env t jn ps)"
  unfolding claim_period_def Let_def
  by (auto intro!: keeps_bindA keeps_utcnow keeps_new_scoped keeps_thenA keeps_flush keeps_statement
      inner.keeps_tryA inner.keeps_bindA executions_kept(1) inner.keeps_retA split: if_splits)

lemma keeps_touch_execution [keeps_rules]: "keeps R (touch_row executions_table x)"
  by (intro keeps_touch_row executions_kept)

lemma keeps_finish [keeps_rules]: "keeps R (finish env x err)"
  by (simp add: finish_def keeps_bindA keeps_utcnow keeps_retA)

end

subsection \<open>The claim\<close>

definition period_taken :: "uuid \<Rightarrow> ustr \<Rightarrow> datetime \<Rightarrow> job_execution list \<Rightarrow> bool" where
  "period_taken t jn ps xs \<longleftrightarrow>
     (\<exists>x \<in> set xs. tenant_id x = t \<and> job_name x = jn \<and> as_utc (job_period_start x) = as_utc ps)"

lemma claim_period_ready:
  assumes "ready t w"
    and "\<And>x. x \<in> set (job_executions (db w)) \<Longrightarrow> row_id x \<noteq> uuid4 env (draws w)"
  obtains w' where "ready t w'" "start w' = start w" "tg_log w' = tg_log w" "ref_log w' = ref_log w"
    "if period_taken t jn ps (job_executions (db w))
     then claim_period env t jn ps w = (Inr None, w') \<and> db w' = db w
     else \<exists>x. claim_period env t jn ps w = (Inr (Some x), w') \<and>
       db w' = (db w)\<lparr>job_executions := job_executions (db w) @ [x]\<rparr> \<and>
       tenant_id x = t \<and> job_name x = jn \<and> job_period_start x = ps \<and> job_state x = RUNNING"
proof -
  let ?s = "\<lparr>row_id = uuid4 env (draws w), created_at = Aware (clock env (Suc (ticks w))), tenant_id = t\<rparr>"
  let ?x = "new_execution ?s jn ps (Aware (clock env (ticks w)))"
  let ?v = "w\<lparr>draws := Suc (draws w), ticks := Suc (Suc (ticks w))\<rparr>"
  have v: "ready t ?v" using assms(1) by simp
  then have flush: "flush ?v = (Inr (), ?v)" by (simp add: flush_def ready_def)
  have run: "claim_period env t jn ps w =
      tryA (bindA (insert_row executions_table ?x) (\<lambda>_. retA (Some ?x)))
          (\<lambda>e. if e = IntegrityError then Some (retA None) else None) ?v"
    using v flush
    by (simp add: claim_period_def bindA_def utcnow_def new_scoped_def new_id_def thenA_def Let_def
        statement_def ready_begin_tx)
      (simp add: ready_def cong: prod.case_cong sum.case_cong)
  have pol: "row_policy ?v ?x"
    using v by (rule ready_policy) (simp add: new_execution_def)
  have clash: "(\<exists>y \<in> set (tbl_get executions_table (db ?v)). row_id y = row_id ?x \<or>
      tbl_clash executions_table y ?x) \<longleftrightarrow> period_taken t jn ps (job_executions (db w))"
    using assms(2) by (auto simp: executions_table_def new_execution_def period_taken_def)
  show thesis
  proof (cases "period_taken t jn ps (job_executions (db w))")
    case True
    with run pol clash have "claim_period env t jn ps w = (Inr None, ?v)"
      by (simp add: insert_row_def tryA_def bindA_def)
    with True v show thesis by (intro that [of ?v]) simp_all
  next
    case False
    let ?w = "?v\<lparr>db := (db w)\<lparr>job_executions := job_executions (db w) @ [?x]\<rparr>\<rparr>"
    have "claim_period env t jn ps w = (Inr (Some ?x), ?w)"
      using False run pol clash
      by (simp add: insert_row_def tryA_def bindA_def) (simp add: executions_table_def)
    with False v show thesis
      by (intro that [of ?w]) (simp_all add: new_execution_def)
  qed
qed

subsection \<open>The boundary is exact\<close>

text \<open>Moments less than \<open>2 ^ 33\<close> seconds from the epoch, until the year 2242: the error of the
  conversion to a float is below half a microsecond.\<close>

definition float_range :: "int \<Rightarrow> bool" where
  "float_range us \<longleftrightarrow> \<bar>us\<bar> < 2 ^ 33 * micros_per_second"

lemma float_seconds:
  assumes "float_range us"
  shows "ulp_exp (of_int us / of_int micros_per_second) \<le> - 20"
proof -
  have "\<bar>us\<bar> < 2 ^ 33 * 1000000" using assms by (simp add: float_range_def micros_per_second_def)
  then have "(of_int \<bar>us\<bar> :: rat) < of_int (2 ^ 33 * 1000000)" by (simp only: of_int_less_iff)
  then have "\<bar>of_int us / of_int micros_per_second\<bar> < (2 ^ 33 :: rat)"
    by (simp add: micros_per_second_def abs_divide)
  then show ?thesis using ulp_exp_le [of _ 33] by fastforce
qed

lemma div_bounds: "0 < D \<Longrightarrow> x div D * D \<le> x \<and> x < x div D * D + D" for x D :: int
proof -
  assume "0 < D"
  then have "x = x div D * D + x mod D" "0 \<le> x mod D" "x mod D < D" by simp_all
  then show ?thesis by linarith
qed

lemma total_seconds_floor:
  assumes "float_range us" and "0 < P"
  shows "\<lfloor>total_seconds us / of_int P\<rfloor> = us div (P * micros_per_second)"
proof -
  let ?x = "of_int us / of_int micros_per_second :: rat"
  let ?k = "us div (P * micros_per_second)"
  note e = float_seconds [OF assms(1)]
  then have e0: "ulp_exp ?x \<le> 0" by simp
  define D where "D = P * micros_per_second"
  have D: "0 < D" using assms(2) by (simp add: D_def micros_per_second_def)
  have "us div D * D \<le> us" "us + 1 \<le> us div D * D + D" using div_bounds [OF D, of us] by auto
  then have "(of_int (us div D * D) :: rat) \<le> of_int us"
    "(of_int (us + 1) :: rat) \<le> of_int (us div D * D + D)"
    by (simp_all only: of_int_le_iff)
  then have lo: "of_int (us div D * P) \<le> ?x"
    and hi: "?x + 1 / 1000000 \<le> of_int (us div D * P + P)"
    by (simp_all add: D_def micros_per_second_def field_simps)
  have "pow2 (ulp_exp ?x) \<le> 1 / 1048576" using pow2_le [of "ulp_exp ?x" 20] e by simp
  moreover have "total_seconds us - ?x \<le> pow2 (ulp_exp ?x) / 2"
    unfolding total_seconds_def by (rule order_trans [OF abs_ge_self dbl_near])
  ultimately have "total_seconds us < of_int (us div D * P + P)"
    using hi by linarith
  note near = this
  have "of_int (us div D * P) \<le> total_seconds us"
    unfolding total_seconds_def by (rule dbl_ge [OF e0 lo])
  with near have "of_int (us div D) \<le> total_seconds us / of_int P"
    "total_seconds us / of_int P < of_int (us div D) + 1"
    using assms(2) by (simp_all add: field_simps)
  then have "\<lfloor>total_seconds us / of_int P\<rfloor> = us div D" by (simp add: floor_eq_iff)
  then show ?thesis by (simp add: D_def)
qed

lemma total_seconds_whole: "\<bar>P\<bar> < 2 ^ 53 \<Longrightarrow> total_seconds (P * micros_per_second) = of_int P"
  using dbl_int [of P] by (simp add: total_seconds_def micros_per_second_def)

lemma period_start_exact:
  assumes "float_range (micros now)" and "0 < P" and "P < 2 ^ 33"
  shows "period_start_for now (P * micros_per_second) =
    dt_add (Aware 0) (micros now div (P * micros_per_second) * (P * micros_per_second))"
proof -
  let ?D = "P * micros_per_second"
  let ?k = "micros now div ?D"
  have D: "0 < ?D" using assms(2) by (simp add: micros_per_second_def)
  have "?k * ?D \<le> micros now" "micros now < ?k * ?D + ?D" using div_bounds [OF D] by auto
  moreover have "\<bar>micros now\<bar> < 2 ^ 33 * 1000000" "?D < 2 ^ 33 * 1000000"
    using assms(1,3) by (simp_all add: float_range_def micros_per_second_def)
  ultimately have "\<bar>?k * ?D\<bar> < 2 ^ 34 * 1000000" by (simp add: abs_if split: if_splits)
  then have "\<bar>?k * P\<bar> * 1000000 < 2 ^ 34 * 1000000"
    by (simp add: micros_per_second_def abs_mult)
  then have "\<bar>?k * P\<bar> < 2 ^ 53" by simp
  then have exact: "dbl (of_int (?k * P)) = of_int (?k * P)" by (rule dbl_int)
  have P: "total_seconds ?D = of_int P" "(of_int P :: rat) \<noteq> 0"
    using assms(2,3) total_seconds_whole [of P] by simp_all
  have "of_int (?k * P) * of_int micros_per_second = (of_int (?k * ?D) :: rat)" by simp
  then have "round_even (of_int (?k * P) * of_int micros_per_second) = ?k * ?D"
    using round_even_int [of "?k * ?D"] by presburger
  then show ?thesis
    unfolding period_start_for_def Let_def micros_as_utc P(1) total_seconds_floor [OF assms(1,2)]
      of_int_mult [symmetric] exact
    using P(2) by simp
qed

text \<open>Every instance computes the same period from the same wall clock: for a period of a whole
  number of seconds and a moment within 272 years of 1970, the start of the period is at or before
  the moment, the moment lies within the period, and exactly the moments of that period get this
  start, float arithmetic notwithstanding.\<close>

theorem period_start_is_stable:
  assumes "float_range (micros now)" and "0 < P" and "P < 2 ^ 33"
  shows "\<exists>s. period_start_for now (P * micros_per_second) = Inr (Aware s) \<and>
    s \<le> micros now \<and> micros now < s + P * micros_per_second \<and>
    (\<forall>later. float_range (micros later) \<longrightarrow>
       (period_start_for later (P * micros_per_second) = Inr (Aware s) \<longleftrightarrow>
        s \<le> micros later \<and> micros later < s + P * micros_per_second))"
proof -
  define D where "D = P * micros_per_second"
  have D: "0 < D" "D < 2 ^ 33 * 1000000" using assms(2,3) by (simp_all add: D_def micros_per_second_def)
  have start: "period_start_for m D = Inr (Aware (micros m div D * D))"
    if "float_range (micros m)" for m
  proof -
    have "\<bar>micros m\<bar> < 2 ^ 33 * 1000000" using that by (simp add: float_range_def micros_per_second_def)
    with div_bounds [OF D(1), of "micros m"] D(2) have "in_range (micros m div D * D)"
      by (simp add: in_range_def datetime_min_def datetime_max_def abs_if split: if_splits)
    with period_start_exact [OF that assms(2,3)] show ?thesis by (simp add: D_def)
  qed
  have same: "y div D * D = s \<longleftrightarrow> s \<le> y \<and> y < s + D" if s: "s = k * D" for y s k
  proof
    assume "y div D * D = s" then show "s \<le> y \<and> y < s + D" using div_bounds [OF D(1), of y] by simp
  next
    assume y: "s \<le> y \<and> y < s + D"
    have "y div D = k" by (rule int_div_pos_eq [of _ _ _ "y - s"]) (use s y in \<open>simp_all add: mult.commute\<close>)
    with s show "y div D * D = s" by simp
  qed
  show ?thesis
    unfolding D_def [symmetric]
    by (rule exI [of _ "micros now div D * D"])
      (use start assms(1) div_bounds [OF D(1), of "micros now"] same [OF refl] in auto)
qed

text \<open>The weekly period of the scheduler, one second before the end of its first week.\<close>

theorem period_start_is_stable_witness:
  "period_start_for (Aware 604799000000) (604800 * micros_per_second) = Inr (Aware 0)"
proof -
  have fr: "float_range (micros (Aware 5))" "float_range (micros (Aware 604799000000))"
    by (simp_all add: float_range_def micros_per_second_def)
  obtain s where s: "s \<le> 5" "5 < s + 604800 * micros_per_second"
    "\<forall>later. float_range (micros later) \<longrightarrow>
       (period_start_for later (604800 * micros_per_second) = Inr (Aware s) \<longleftrightarrow>
        s \<le> micros later \<and> micros later < s + 604800 * micros_per_second)"
    "period_start_for (Aware 5) (604800 * micros_per_second) = Inr (Aware s)"
    using period_start_is_stable [OF fr(1), of 604800] by auto
  have "s = 0"
    using s(4) period_start_exact [OF fr(1), of 604800]
    by (simp add: micros_per_second_def in_range_def datetime_min_def datetime_max_def)
  with s(3) fr(2) show ?thesis by (simp add: micros_per_second_def)
qed

text \<open>C10. A period is claimed at most once: a claim that succeeds found no claim of this job for the
  period, and from then on, as long as its row is there, every further claim of the same tenant, job
  and instant, by any instance at any time, is turned down and changes nothing in the database.\<close>

theorem claims_are_exclusive:
  assumes "claim_period env t jn ps w = (Inr (Some x), w')" and "ready t w"
    and "\<And>y. y \<in> set (job_executions (db w)) \<Longrightarrow> row_id y \<noteq> uuid4 env (draws w)"
    and "ready t v" and "\<And>y. y \<in> set (job_executions (db v)) \<Longrightarrow> row_id y \<noteq> uuid4 env' (draws v)"
    and "x \<in> set (job_executions (db v))" and "as_utc ps' = as_utc ps"
  shows "\<not> period_taken t jn ps (job_executions (db w)) \<and>
    db w' = (db w)\<lparr>job_executions := job_executions (db w) @ [x]\<rparr> \<and>
    (\<exists>v'. claim_period env' t jn ps' v = (Inr None, v') \<and> db v' = db v)"
proof -
  obtain w2 where w2: "if period_taken t jn ps (job_executions (db w))
     then claim_period env t jn ps w = (Inr None, w2) \<and> db w2 = db w
     else \<exists>x. claim_period env t jn ps w = (Inr (Some x), w2) \<and>
       db w2 = (db w)\<lparr>job_executions := job_executions (db w) @ [x]\<rparr> \<and>
       tenant_id x = t \<and> job_name x = jn \<and> job_period_start x = ps \<and> job_state x = RUNNING"
    by (rule claim_period_ready [OF assms(2,3)])
  with assms(1) have free: "\<not> period_taken t jn ps (job_executions (db w))"
    and x: "db w' = (db w)\<lparr>job_executions := job_executions (db w) @ [x]\<rparr>"
      "tenant_id x = t" "job_name x = jn" "job_period_start x = ps"
    by (auto split: if_splits)
  then have "period_taken t jn ps' (job_executions (db v))"
    using assms(6,7) by (auto simp: period_taken_def)
  moreover obtain v2 where "if period_taken t jn ps' (job_executions (db v))
     then claim_period env' t jn ps' v = (Inr None, v2) \<and> db v2 = db v
     else \<exists>x. claim_period env' t jn ps' v = (Inr (Some x), v2) \<and>
       db v2 = (db v)\<lparr>job_executions := job_executions (db v) @ [x]\<rparr> \<and>
       tenant_id x = t \<and> job_name x = jn \<and> job_period_start x = ps' \<and> job_state x = RUNNING"
    by (rule claim_period_ready [OF assms(4,5)])
  ultimately show ?thesis using free x(1) by auto
qed

end
