(* ===== verification/Compliance.thy ===== *)
theory Compliance
  imports Eligibility PyTime
begin

text \<open>
  \<open>app/domain/compliance.py\<close>: what to do about a member who stopped qualifying. The decision is
  a function of a snapshot of the membership, the eligibility verdict, the policy and the moment.
  Below it, the life of a membership under repeated monitoring passes is a step relation, and the
  safety rules of the module (grace, spacing, cap) are proved over whole runs.
\<close>

record compliance_policy =
  max_warnings :: int
  warning_interval_days :: int
  onboarding_grace_days :: int

definition default_policy :: compliance_policy where
  "default_policy = \<lparr>max_warnings = 3, warning_interval_days = 5, onboarding_grace_days = 30\<rparr>"

record membership_snapshot =
  ms_status :: membership_status
  member_since :: datetime
  ms_warnings_sent :: int
  ms_last_warning_at :: "datetime option"

record compliance_decision =
  action :: compliance_action
  skip_reason :: "compliance_skip_reason option"
  warnings_after :: int
  detail :: "ustr option"

definition MONITORED :: "membership_status list" where
  "MONITORED = [MS_INVITED, MS_ACTIVE, MS_SUSPENDED]"

text \<open>\<open>_aware\<close>: a naive moment is read as UTC.\<close>

definition aware :: "datetime \<Rightarrow> datetime" where
  "aware moment = (if is_aware moment then moment else as_utc moment)"

definition no_action :: "compliance_skip_reason \<Rightarrow> int \<Rightarrow> compliance_decision" where
  "no_action r n = \<lparr>action = NONE, skip_reason = Some r, warnings_after = n, detail = None\<rparr>"

definition decide_compliance ::
  "membership_snapshot \<Rightarrow> eligibility_verdict \<Rightarrow> compliance_policy \<Rightarrow> datetime
     \<Rightarrow> compliance_decision res" where
  "decide_compliance m v policy now =
     (if ms_status m \<notin> set MONITORED then
        Inr (no_action NOT_AN_ACTIVE_MEMBERSHIP (ms_warnings_sent m))
      else if v_reason v = ER_PROVIDER_UNAVAILABLE then
        Inr (no_action CSR_PROVIDER_UNAVAILABLE (ms_warnings_sent m))
      else if eligible v then
        (if 0 < ms_warnings_sent m \<or> ms_status m = MS_SUSPENDED then
           Inr \<lparr>action = RESTORE, skip_reason = None, warnings_after = 0, detail = None\<rparr>
         else Inr (no_action STILL_COMPLIANT 0))
      else
        bindR (timedelta_days (onboarding_grace_days policy)) (\<lambda>grace.
        bindR (dt_add (aware (member_since m)) grace) (\<lambda>grace_ends.
        bindR (dt_lt now grace_ends) (\<lambda>in_grace.
          if in_grace then Inr (no_action ONBOARDING_GRACE (ms_warnings_sent m))
          else
            bindR (case ms_last_warning_at m of
                     None \<Rightarrow> Inr False
                   | Some l \<Rightarrow>
                       bindR (timedelta_days (warning_interval_days policy)) (\<lambda>gap.
                       bindR (dt_add (aware l) gap) (\<lambda>next_allowed.
                         dt_lt now next_allowed))) (\<lambda>too_soon.
              if too_soon then
                Inr (no_action WARNING_INTERVAL_NOT_ELAPSED (ms_warnings_sent m))
              else if ms_warnings_sent m \<ge> max_warnings policy then
                Inr \<lparr>action = REVOKE, skip_reason = None, warnings_after = ms_warnings_sent m,
                     detail = Some (eligibility_reason_value (v_reason v))\<rparr>
              else
                Inr \<lparr>action = WARN, skip_reason = None, warnings_after = ms_warnings_sent m + 1,
                     detail = Some (eligibility_reason_value (v_reason v))\<rparr>)))))"

subsection \<open>One decision\<close>

lemma aware_eq [simp]: "aware m = Aware (micros m)"
  by (cases m) (simp_all add: aware_def)

text \<open>The deadlines a decision compares with, in microseconds.\<close>

definition grace_end :: "membership_snapshot \<Rightarrow> compliance_policy \<Rightarrow> int" where
  "grace_end m p = micros (member_since m) + onboarding_grace_days p * micros_per_day"

definition next_warning :: "compliance_policy \<Rightarrow> datetime \<Rightarrow> int" where
  "next_warning p l = micros l + warning_interval_days p * micros_per_day"

text \<open>What any acting decision implies; the facts every property below is built from.\<close>

lemma decide_punish:
  assumes "decide_compliance m v p now = Inr d" "action d = WARN \<or> action d = REVOKE"
  shows "ms_status m \<in> set MONITORED" "\<not> eligible v" "v_reason v \<noteq> ER_PROVIDER_UNAVAILABLE"
    "is_aware now" "grace_end m p \<le> micros now"
    "ms_last_warning_at m = Some l \<Longrightarrow> next_warning p l \<le> micros now"
  using assms
  by (auto simp: decide_compliance_def no_action_def res_simps timedelta_days_def dt_lt_Inr
      grace_end_def next_warning_def split: if_splits option.splits)

lemma decide_revoke:
  assumes "decide_compliance m v p now = Inr d" "action d = REVOKE"
  shows "max_warnings p \<le> ms_warnings_sent m" "warnings_after d = ms_warnings_sent m"
    "detail d = Some (eligibility_reason_value (v_reason v))"
  using assms
  by (auto simp: decide_compliance_def no_action_def res_simps split: if_splits option.splits)

lemma decide_warn:
  assumes "decide_compliance m v p now = Inr d" "action d = WARN"
  shows "ms_warnings_sent m < max_warnings p" "warnings_after d = ms_warnings_sent m + 1"
    "detail d = Some (eligibility_reason_value (v_reason v))"
  using assms
  by (auto simp: decide_compliance_def no_action_def res_simps split: if_splits option.splits)

lemma decide_restore:
  assumes "decide_compliance m v p now = Inr d" "action d = RESTORE"
  shows "ms_status m \<in> set MONITORED" "eligible v" "warnings_after d = 0"
    "0 < ms_warnings_sent m \<or> ms_status m = MS_SUSPENDED"
  using assms
  by (auto simp: decide_compliance_def no_action_def res_simps split: if_splits option.splits)

lemma decide_outage:
  "v_reason v = ER_PROVIDER_UNAVAILABLE \<Longrightarrow>
     \<exists>r. decide_compliance m v p now = Inr (no_action r (ms_warnings_sent m))"
  by (auto simp: decide_compliance_def)

lemma decide_skip_iff:
  "decide_compliance m v p now = Inr d \<Longrightarrow> action d = NONE \<longleftrightarrow> skip_reason d \<noteq> None"
  by (auto simp: decide_compliance_def no_action_def res_simps split: if_splits option.splits)

subsection \<open>The life of a membership under monitoring\<close>

text \<open>
  \<open>apply_decision\<close> is what \<open>MembershipMonitor._apply\<close> does to the snapshot's four fields. A
  \<open>pass\<close> is one monitoring pass over one member with some verdict at some moment, and a \<open>life\<close>
  is a sequence of passes, recorded as the list of moments and actions taken.
\<close>

definition apply_decision ::
  "compliance_decision \<Rightarrow> datetime \<Rightarrow> membership_snapshot \<Rightarrow> membership_snapshot" where
  "apply_decision d now m =
     (case action d of
        NONE \<Rightarrow> m
      | RESTORE \<Rightarrow>
          m\<lparr>ms_warnings_sent := 0, ms_last_warning_at := None,
            ms_status := (if ms_status m = MS_SUSPENDED then MS_ACTIVE else ms_status m)\<rparr>
      | WARN \<Rightarrow> m\<lparr>ms_warnings_sent := warnings_after d, ms_last_warning_at := Some now\<rparr>
      | REVOKE \<Rightarrow> m\<lparr>ms_status := MS_REVOKED\<rparr>)"

type_synonym pass_event = "datetime \<times> compliance_action"

inductive pass ::
  "compliance_policy \<Rightarrow> membership_snapshot \<Rightarrow> pass_event \<Rightarrow> membership_snapshot \<Rightarrow> bool"
  for p where
  passI: "decide_compliance m v p now = Inr d \<Longrightarrow>
            pass p m (now, action d) (apply_decision d now m)"

inductive_cases pass_elim: "pass p m (now, a) m'"

inductive_simps pass_iff: "pass p m e m'"

inductive life ::
  "compliance_policy \<Rightarrow> membership_snapshot \<Rightarrow> pass_event list \<Rightarrow> membership_snapshot \<Rightarrow> bool"
  for p m where
  life_nil: "life p m [] m"
| life_snoc: "life p m es m' \<Longrightarrow> pass p m' e m'' \<Longrightarrow> life p m (es @ [e]) m''"

inductive_cases life_snoc_elim: "life p m (es @ [e]) m''"

definition fresh :: "membership_snapshot \<Rightarrow> bool" where
  "fresh m \<longleftrightarrow> ms_warnings_sent m = 0 \<and> ms_last_warning_at m = None"

definition warns :: "pass_event list \<Rightarrow> int" where
  "warns es = int (length (filter (\<lambda>e. snd e = WARN) es))"

lemma warns_simps [simp]:
  "warns [] = 0" "warns (es @ [(t, a)]) = warns es + (if a = WARN then 1 else 0)"
  by (simp_all add: warns_def)

lemma apply_decision_member_since [simp]:
  "member_since (apply_decision d now m) = member_since m"
  by (cases "action d") (simp_all add: apply_decision_def)

lemma pass_member_since: "pass p m e m' \<Longrightarrow> member_since m' = member_since m"
  by (auto simp: pass_iff)

lemma life_member_since: "life p m es m' \<Longrightarrow> member_since m' = member_since m"
  by (induction rule: life.induct) (auto dest: pass_member_since)

text \<open>
  The invariant of a life that starts fresh: the counter is between zero and both the cap and the
  number of warnings actually given, and a positive counter comes with a last warning that lies
  late enough for every counted warning to have been spaced.
\<close>

definition life_inv ::
  "compliance_policy \<Rightarrow> membership_snapshot \<Rightarrow> pass_event list \<Rightarrow> membership_snapshot \<Rightarrow> bool" where
  "life_inv p m es m' \<longleftrightarrow>
     0 \<le> ms_warnings_sent m' \<and> ms_warnings_sent m' \<le> max_warnings p \<and>
     ms_warnings_sent m' \<le> warns es \<and>
     (0 < ms_warnings_sent m' \<longrightarrow>
        (\<exists>l. ms_last_warning_at m' = Some l \<and>
             grace_end m p + (ms_warnings_sent m' - 1) * (warning_interval_days p * micros_per_day)
               \<le> micros l))"

lemma grace_end_cong: "member_since m' = member_since m \<Longrightarrow> grace_end m' p = grace_end m p"
  by (simp add: grace_end_def)

text \<open>A warning keeps the invariant: it comes one interval after the last counted one.\<close>

lemma life_inv_warn:
  assumes inv: "life_inv p m es m'" and since: "member_since m' = member_since m"
    and d: "decide_compliance m' v p now = Inr d" "action d = WARN"
  shows "life_inv p m (es @ [(now, WARN)]) (apply_decision d now m')"
proof -
  define n where "n = ms_warnings_sent m'"
  define g where "g = warning_interval_days p * micros_per_day"
  have "grace_end m p + n * g \<le> micros now"
  proof (cases "0 < n")
    case True
    then obtain l where l: "ms_last_warning_at m' = Some l" "grace_end m p + (n - 1) * g \<le> micros l"
      using inv by (auto simp: life_inv_def n_def g_def)
    have "micros l + g \<le> micros now"
      using decide_punish(6) [OF d(1) _ l(1)] d(2) by (simp add: next_warning_def g_def)
    with l(2) show ?thesis by (simp add: algebra_simps)
  next
    case False
    with inv have "n = 0" by (auto simp: life_inv_def n_def)
    then show ?thesis
      using decide_punish(5) [OF d(1)] d(2) grace_end_cong [OF since] by simp
  qed
  then show ?thesis
    using inv d decide_warn [OF d]
    by (simp add: life_inv_def apply_decision_def n_def g_def)
qed

lemma life_inv_holds:
  assumes "life p m es m'" "fresh m" "0 \<le> max_warnings p"
  shows "life_inv p m es m'"
  using assms
proof (induction rule: life.induct)
  case life_nil
  then show ?case by (simp add: life_inv_def fresh_def)
next
  case (life_snoc es m' e m'')
  then have inv: "life_inv p m es m'" and since: "member_since m' = member_since m"
    by (auto dest: life_member_since)
  from life_snoc.hyps(2) obtain v now d where
    d: "decide_compliance m' v p now = Inr d" "e = (now, action d)" "m'' = apply_decision d now m'"
    by (auto simp: pass_iff)
  show ?case
  proof (cases "action d")
    case WARN
    with life_inv_warn [OF inv since d(1)] d show ?thesis by simp
  qed (use inv d life_snoc.prems in \<open>auto simp: life_inv_def apply_decision_def warns_def\<close>)
qed

text \<open>A revoked membership is never acted on again.\<close>

lemma revoked_inert: "ms_status m = MS_REVOKED \<Longrightarrow> pass p m (t, a) m' \<Longrightarrow> a = NONE \<and> m' = m"
  by (auto elim!: pass_elim simp: decide_compliance_def MONITORED_def no_action_def
      apply_decision_def)

subsection \<open>Properties of one decision\<close>

definition sample_snapshot :: "int \<Rightarrow> datetime option \<Rightarrow> membership_snapshot" where
  "sample_snapshot n l = \<lparr>ms_status = MS_ACTIVE, member_since = Aware 0, ms_warnings_sent = n,
                          ms_last_warning_at = l\<rparr>"

definition sample_verdict :: "eligibility_reason \<Rightarrow> eligibility_verdict" where
  "sample_verdict r = \<lparr>v_reason = r, v_compliance_state = CS_NON_COMPLIANT, balance = dec_zero,
                       shortfall = dec_zero\<rparr>"

definition day :: "int \<Rightarrow> datetime" where
  "day n = Aware (n * micros_per_day)"

lemmas sample_decide = sample_snapshot_def sample_verdict_def day_def default_policy_def
  decide_compliance_def MONITORED_def eligible_def no_action_def timedelta_days_def in_range_def
  datetime_min_def datetime_max_def micros_per_day_def

text \<open>An outage decides nothing: when the verdict is PROVIDER_UNAVAILABLE the decision takes no
  action and leaves the warning count as it was, at any moment, under any policy, for any
  membership; and it always returns.\<close>

theorem outage_decides_nothing:
  assumes "v_reason v = ER_PROVIDER_UNAVAILABLE"
  shows "\<exists>d. decide_compliance m v p now = Inr d \<and> action d = NONE \<and>
           warnings_after d = ms_warnings_sent m \<and> apply_decision d now m = m"
  using decide_outage [OF assms, of m p now] by (auto simp: no_action_def apply_decision_def)

theorem outage_decides_nothing_witness:
  "\<exists>d. decide_compliance (sample_snapshot 3 (Some (day 100))) (sample_verdict ER_PROVIDER_UNAVAILABLE)
         default_policy (day 200) = Inr d \<and> action d = NONE"
  using outage_decides_nothing [of "sample_verdict ER_PROVIDER_UNAVAILABLE"
      "sample_snapshot 3 (Some (day 100))" default_policy "day 200"]
  by (auto simp: sample_verdict_def)

text \<open>C7. A revocation is only ever decided for a monitored member whom the provider found
  ineligible, after the onboarding grace, at least one warning interval after the last warning, and
  with the configured number of warnings already given; it is decided at once when all of this
  holds.\<close>

theorem revoke_iff:
  assumes "decide_compliance m v p now = Inr d"
  shows "action d = REVOKE \<longleftrightarrow>
     ms_status m \<in> set MONITORED \<and> \<not> eligible v \<and> v_reason v \<noteq> ER_PROVIDER_UNAVAILABLE \<and>
     grace_end m p \<le> micros now \<and>
     (\<forall>l. ms_last_warning_at m = Some l \<longrightarrow> next_warning p l \<le> micros now) \<and>
     max_warnings p \<le> ms_warnings_sent m"
  using assms
  by (auto simp: decide_compliance_def no_action_def res_simps timedelta_days_def dt_lt_Inr
      grace_end_def next_warning_def eligible_def split: if_splits option.splits)

theorem revoke_iff_witness:
  "\<exists>d. decide_compliance (sample_snapshot 3 (Some (day 40))) (sample_verdict NOT_REGISTERED)
         default_policy (day 45) = Inr d \<and> action d = REVOKE"
proof -
  obtain d where d: "decide_compliance (sample_snapshot 3 (Some (day 40)))
      (sample_verdict NOT_REGISTERED) default_policy (day 45) = Inr d"
    by (simp add: sample_decide)
  then show ?thesis
    using revoke_iff [OF d]
    by (simp add: sample_snapshot_def sample_verdict_def day_def default_policy_def MONITORED_def
        eligible_def grace_end_def next_warning_def micros_per_day_def)
qed

text \<open>A warning raises the count by exactly one and never past the cap; it is decided exactly
  when a revocation would be, except that the cap is not reached yet.\<close>

theorem warn_iff:
  assumes "decide_compliance m v p now = Inr d"
  shows "(action d = WARN \<longleftrightarrow>
     ms_status m \<in> set MONITORED \<and> \<not> eligible v \<and> v_reason v \<noteq> ER_PROVIDER_UNAVAILABLE \<and>
     grace_end m p \<le> micros now \<and>
     (\<forall>l. ms_last_warning_at m = Some l \<longrightarrow> next_warning p l \<le> micros now) \<and>
     ms_warnings_sent m < max_warnings p) \<and>
     (action d = WARN \<longrightarrow> warnings_after d = ms_warnings_sent m + 1 \<and>
        warnings_after d \<le> max_warnings p)"
  using assms
  by (auto simp: decide_compliance_def no_action_def res_simps timedelta_days_def dt_lt_Inr
      grace_end_def next_warning_def eligible_def split: if_splits option.splits)

theorem warn_iff_witness:
  "\<exists>d. decide_compliance (sample_snapshot 2 (Some (day 40))) (sample_verdict NOT_REGISTERED)
         default_policy (day 45) = Inr d \<and> action d = WARN"
proof -
  obtain d where d: "decide_compliance (sample_snapshot 2 (Some (day 40)))
      (sample_verdict NOT_REGISTERED) default_policy (day 45) = Inr d"
    by (simp add: sample_decide)
  then show ?thesis
    using warn_iff [OF d]
    by (simp add: sample_snapshot_def sample_verdict_def day_def default_policy_def MONITORED_def
        eligible_def grace_end_def next_warning_def micros_per_day_def)
qed

subsection \<open>Properties of a life\<close>

text \<open>In every life that starts with a clean record, the warning count stays between zero and the
  cap and never exceeds the warnings actually given since the start.\<close>

theorem warnings_stay_capped:
  assumes "life p m es m'" "fresh m" "0 \<le> max_warnings p"
  shows "0 \<le> ms_warnings_sent m' \<and> ms_warnings_sent m' \<le> max_warnings p \<and>
    ms_warnings_sent m' \<le> warns es"
  using life_inv_holds [OF assms] by (simp add: life_inv_def)

definition sample_life :: "pass_event list" where
  "sample_life = [(day 30, WARN), (day 35, WARN), (day 40, WARN), (day 45, REVOKE)]"

lemma sample_pass:
  "(case decide_compliance m (sample_verdict NOT_REGISTERED) default_policy now of
      Inl _ \<Rightarrow> False | Inr d \<Rightarrow> a = action d \<and> m' = apply_decision d now m) \<Longrightarrow>
   pass default_policy m (now, a) m'"
  by (auto intro: passI split: sum.splits)

lemma sample_two_passes:
  "life default_policy (sample_snapshot 0 None) ([] @ [(day 30, WARN)] @ [] @ [(day 35, WARN)])
     (sample_snapshot 2 (Some (day 35)))"
proof -
  have 1: "pass default_policy (sample_snapshot 0 None) (day 30, WARN)
      (sample_snapshot 1 (Some (day 30)))"
    by (rule sample_pass) (simp add: sample_decide apply_decision_def)
  have 2: "pass default_policy (sample_snapshot 1 (Some (day 30))) (day 35, WARN)
      (sample_snapshot 2 (Some (day 35)))"
    by (rule sample_pass) (simp add: sample_decide apply_decision_def)
  show ?thesis using life_snoc [OF life_snoc [OF life_nil 1] 2] by simp
qed

lemma sample_life_reached:
  "life default_policy (sample_snapshot 0 None) sample_life
     ((sample_snapshot 3 (Some (day 40)))\<lparr>ms_status := MS_REVOKED\<rparr>)"
proof -
  have 3: "pass default_policy (sample_snapshot 2 (Some (day 35))) (day 40, WARN)
      (sample_snapshot 3 (Some (day 40)))"
    by (rule sample_pass) (simp add: sample_decide apply_decision_def)
  have 4: "pass default_policy (sample_snapshot 3 (Some (day 40))) (day 45, REVOKE)
      ((sample_snapshot 3 (Some (day 40)))\<lparr>ms_status := MS_REVOKED\<rparr>)"
    by (rule sample_pass) (simp add: sample_decide apply_decision_def)
  show ?thesis
    using life_snoc [OF life_snoc [OF sample_two_passes 3] 4] by (simp add: sample_life_def)
qed

lemma sample_fresh: "fresh (sample_snapshot 0 None)" "0 \<le> max_warnings default_policy"
  by (simp_all add: fresh_def sample_snapshot_def default_policy_def)

theorem warnings_stay_capped_witness: "(3::int) \<le> warns sample_life"
  using warnings_stay_capped [OF sample_life_reached sample_fresh]
  by (simp add: sample_snapshot_def)

text \<open>C1. No member is removed early. In every life that starts with a clean record, a revocation
  comes only after at least the configured number of warnings, and not before the end of the
  onboarding grace plus one warning interval for each of them. With the default policy that is 45
  days after joining.\<close>

theorem revocation_not_before:
  assumes "life p m (es @ [(t, REVOKE)]) m'" "fresh m"
    and "0 \<le> max_warnings p" "0 \<le> warning_interval_days p"
  shows "max_warnings p \<le> warns es \<and>
     grace_end m p + max_warnings p * (warning_interval_days p * micros_per_day) \<le> micros t"
proof -
  obtain m1 where l: "life p m es m1" and ps: "pass p m1 (t, REVOKE) m'"
    using assms(1) by (auto elim: life_snoc_elim)
  obtain v d where d: "decide_compliance m1 v p t = Inr d" "action d = REVOKE"
    using ps by (auto elim!: pass_elim)
  define n where "n = ms_warnings_sent m1"
  define g where "g = warning_interval_days p * micros_per_day"
  have inv: "life_inv p m es m1" using l assms by (intro life_inv_holds) simp_all
  have n: "max_warnings p = n" "n \<le> warns es"
    using inv decide_revoke(1) [OF d] by (simp_all add: life_inv_def n_def)
  have "grace_end m p + n * g \<le> micros t"
  proof (cases "0 < n")
    case True
    then obtain w where w: "ms_last_warning_at m1 = Some w"
        "grace_end m p + (n - 1) * g \<le> micros w"
      using inv by (auto simp: life_inv_def n_def g_def)
    have "micros w + g \<le> micros t"
      using decide_punish(6) [OF d(1) _ w(1)] d(2) by (simp add: next_warning_def g_def)
    with w(2) show ?thesis by (simp add: algebra_simps)
  next
    case False
    with assms(3) n have "n = 0" by simp
    then show ?thesis
      using decide_punish(5) [OF d(1)] d(2) grace_end_cong [OF life_member_since [OF l]] by simp
  qed
  with n show ?thesis by (simp add: g_def)
qed

theorem revocation_not_before_witness: "45 * micros_per_day \<le> micros (day 45)"
proof -
  have "life default_policy (sample_snapshot 0 None)
      ([(day 30, WARN), (day 35, WARN), (day 40, WARN)] @ [(day 45, REVOKE)])
      ((sample_snapshot 3 (Some (day 40)))\<lparr>ms_status := MS_REVOKED\<rparr>)"
    using sample_life_reached by (simp add: sample_life_def)
  from revocation_not_before [OF this sample_fresh(1)] show ?thesis
    by (simp add: default_policy_def grace_end_def sample_snapshot_def micros_per_day_def)
qed

text \<open>C18. Warnings are spaced. In any life, from any record, two warnings with no recovery between
  them lie at least one warning interval apart.\<close>

theorem warnings_are_spaced:
  assumes "life p m0 (es1 @ [(s, WARN)] @ es2 @ [(t, WARN)]) m'"
    and "\<forall>e \<in> set es2. snd e \<noteq> RESTORE" "0 \<le> warning_interval_days p"
  shows "micros s + warning_interval_days p * micros_per_day \<le> micros t"
proof -
  define g where "g = warning_interval_days p * micros_per_day"
  have g: "0 \<le> g" using assms(3) by (simp add: g_def micros_per_day_def)
  have last: "\<exists>w. ms_last_warning_at m1 = Some w \<and> micros s \<le> micros w"
    if "life p m0 (es1 @ [(s, WARN)] @ es2) m1" "\<forall>e \<in> set es2. snd e \<noteq> RESTORE" for es2 m1
    using that
  proof (induction es2 arbitrary: m1 rule: rev_induct)
    case Nil
    then have "life p m0 (es1 @ [(s, WARN)]) m1" by simp
    then obtain m2 where "pass p m2 (s, WARN) m1" by (auto elim: life_snoc_elim)
    then show ?case by (auto elim!: pass_elim simp: apply_decision_def)
  next
    case (snoc e es2)
    then have "life p m0 ((es1 @ [(s, WARN)] @ es2) @ [e]) m1" by simp
    then obtain m2 where m2: "life p m0 (es1 @ [(s, WARN)] @ es2) m2" "pass p m2 e m1"
      by (rule life_snoc_elim)
    with snoc obtain w where w: "ms_last_warning_at m2 = Some w" "micros s \<le> micros w" by auto
    from m2(2) obtain v now d where d: "decide_compliance m2 v p now = Inr d" "e = (now, action d)"
        "m1 = apply_decision d now m2"
      by (auto simp: pass_iff)
    show ?case
    proof (cases "action d")
      case WARN
      then have "micros w + g \<le> micros now"
        using decide_punish(6) [OF d(1) _ w(1)] by (simp add: next_warning_def g_def)
      with WARN d w g show ?thesis by (simp add: apply_decision_def)
    qed (use d w snoc.prems in \<open>auto simp: apply_decision_def\<close>)
  qed
  have "life p m0 ((es1 @ [(s, WARN)] @ es2) @ [(t, WARN)]) m'" using assms(1) by simp
  then obtain m1 where m1: "life p m0 (es1 @ [(s, WARN)] @ es2) m1" "pass p m1 (t, WARN) m'"
    by (rule life_snoc_elim)
  obtain w where w: "ms_last_warning_at m1 = Some w" "micros s \<le> micros w"
    using last [OF m1(1) assms(2)] by auto
  from m1(2) obtain v d where d: "decide_compliance m1 v p t = Inr d" "action d = WARN"
    by (auto elim!: pass_elim)
  have "micros w + g \<le> micros t"
    using decide_punish(6) [OF d(1) _ w(1)] d(2) by (simp add: next_warning_def g_def)
  with w(2) show ?thesis by (simp add: g_def)
qed

theorem warnings_are_spaced_witness: "micros (day 30) + 5 * micros_per_day \<le> micros (day 35)"
  using warnings_are_spaced [OF sample_two_passes] by (simp add: default_policy_def)

end
