(* ===== verification/Monitor.thy ===== *)
theory Monitor
  imports Onboarding PeriodLock Compliance Messages
begin

text \<open>
  \<open>app/jobs/membership_monitor.py\<close>: the periodic pass over one tenant. \<open>process_member\<close> is \<open>_process\<close>,
  \<open>apply_action\<close> is \<open>_apply\<close> and \<open>run\<close> is \<open>run\<close>; the report the code mutates is threaded through and
  returned. A membership the code mutates is written back at once with \<open>touch_row\<close>.
\<close>

definition JOB_NAME :: ustr where
  "JOB_NAME = asc ''referral_compliance_check''"

record monitor_report =
  claimed :: bool
  rep_period_start :: "datetime option"
  processed :: int
  warned :: int
  revoked :: int
  restored :: int
  skipped_unavailable :: int

definition new_report :: "bool \<Rightarrow> datetime \<Rightarrow> monitor_report" where
  "new_report c ps =
     \<lparr>claimed = c, rep_period_start = Some ps, processed = 0, warned = 0, revoked = 0,
      restored = 0, skipped_unavailable = 0\<rparr>"

definition reason_text :: "compliance_decision \<Rightarrow> ustr" where
  "reason_text d =
     (case REASON_TEXT (case detail d of None \<Rightarrow> [] | Some s \<Rightarrow> s) of None \<Rightarrow> [] | Some s \<Rightarrow> s)"

text \<open>\<open>if chat_id: await self._telegram.send_message(chat_id, ...)\<close>; the text is only rendered when
  there is somebody to send it to.\<close>

definition notify :: "telegram_provider \<Rightarrow> int option \<Rightarrow> ustr res \<Rightarrow> unit act" where
  "notify tp chat txt =
     (case chat of
        None \<Rightarrow> retA ()
      | Some c \<Rightarrow> if c = 0 then retA () else bindA (liftR txt) (\<lambda>s. send_message tp c s None))"

definition warning_text :: "compliance_decision \<Rightarrow> compliance_policy \<Rightarrow> ustr res" where
  "warning_text d policy =
     py_format COMPLIANCE_WARNING
       [(asc ''warning_number'', int_str (warnings_after d)),
        (asc ''max_warnings'', int_str (max_warnings policy)),
        (asc ''reason_text'', reason_text d)]"

definition revoked_text :: "compliance_decision \<Rightarrow> ustr res" where
  "revoked_text d = py_format MEMBERSHIP_REVOKED [(asc ''reason_text'', reason_text d)]"

text \<open>The membership after each action.\<close>

definition restored_member :: "vip_membership \<Rightarrow> vip_membership" where
  "restored_member m =
     m\<lparr>warnings_sent := 0, last_warning_at := None,
       mem_status := (if mem_status m = MS_SUSPENDED then MS_ACTIVE else mem_status m)\<rparr>"

definition warned_member :: "compliance_decision \<Rightarrow> datetime \<Rightarrow> vip_membership \<Rightarrow> vip_membership" where
  "warned_member d moment m = m\<lparr>warnings_sent := warnings_after d, last_warning_at := Some moment\<rparr>"

definition revoked_member :: "compliance_decision \<Rightarrow> datetime \<Rightarrow> vip_membership \<Rightarrow> vip_membership" where
  "revoked_member d moment m =
     m\<lparr>mem_status := MS_REVOKED, revoked_at := Some moment, revocation_reason := detail d,
       invite_link := None\<rparr>"

definition remove_from_channel :: "telegram_provider \<Rightarrow> telegram_channel option \<Rightarrow> int \<Rightarrow> unit act" where
  "remove_from_channel tp channel user_chat =
     (case channel of
        None \<Rightarrow> retA ()
      | Some ch \<Rightarrow>
          thenA (ban_chat_member tp (chat_id ch) user_chat)
                (unban_chat_member tp (chat_id ch) user_chat))"

definition expire_subscription :: "datetime \<Rightarrow> subscription option \<Rightarrow> unit act" where
  "expire_subscription moment sub =
     (case sub of
        None \<Rightarrow> retA ()
      | Some s \<Rightarrow>
          touch_row subscriptions_table (s\<lparr>sub_status := SS_EXPIRED, ends_at := Some moment\<rparr>))"

text \<open>The branches of \<open>_apply\<close> for a decision to act, with the member's chat id.\<close>

definition carry_out ::
  "telegram_provider \<Rightarrow> uuid \<Rightarrow> vip_membership \<Rightarrow> market \<Rightarrow> compliance_decision \<Rightarrow> datetime \<Rightarrow>
     monitor_report \<Rightarrow> compliance_policy \<Rightarrow> int option \<Rightarrow> monitor_report act" where
  "carry_out tp t mem m d moment rep policy chat =
     (case action d of
        NONE \<Rightarrow> retA rep
      | RESTORE \<Rightarrow>
          thenA (touch_row memberships_table (restored_member mem))
          (thenA (notify tp chat (Inr MEMBERSHIP_RESTORED))
          (retA (rep\<lparr>restored := restored rep + 1\<rparr>)))
      | WARN \<Rightarrow>
          thenA (touch_row memberships_table (warned_member d moment mem))
          (thenA (notify tp chat (warning_text d policy))
          (retA (rep\<lparr>warned := warned rep + 1\<rparr>)))
      | REVOKE \<Rightarrow>
          bindA (get_for_market t m) (\<lambda>channel.
          thenA (remove_from_channel tp channel (case chat of None \<Rightarrow> 0 | Some c \<Rightarrow> c))
          (thenA (touch_row memberships_table (revoked_member d moment mem))
          (bindA (get_active_for_user t (mem_user_id mem) m) (\<lambda>sub.
          thenA (expire_subscription moment sub)
          (thenA (notify tp chat (revoked_text d))
          (retA (rep\<lparr>revoked := revoked rep + 1\<rparr>))))))))"

definition apply_action ::
  "telegram_provider \<Rightarrow> uuid \<Rightarrow> vip_membership \<Rightarrow> market \<Rightarrow> compliance_decision \<Rightarrow> datetime \<Rightarrow>
     monitor_report \<Rightarrow> compliance_policy \<Rightarrow> monitor_report act" where
  "apply_action tp t mem m d moment rep policy =
     (if action d = NONE then
        retA (if skip_reason d = Some CSR_PROVIDER_UNAVAILABLE
              then rep\<lparr>skipped_unavailable := skipped_unavailable rep + 1\<rparr> else rep)
      else
        bindA (get_by_id users_table t (mem_user_id mem)) (\<lambda>user.
        carry_out tp t mem m d moment rep policy (map_option telegram_user_id user)))"

definition new_snapshot ::
  "scoped \<Rightarrow> uuid \<Rightarrow> datetime \<Rightarrow> datetime \<Rightarrow> referral_check \<Rightarrow> eligibility_verdict \<Rightarrow>
     trading_activity_snapshot" where
  "new_snapshot s account ps pe ck v =
     \<lparr>row_id = row_id s, created_at = created_at s, tenant_id = tenant_id s,
      referral_account_id = account, snap_period_start = ps, snap_period_end = pe,
      snap_qualifying_trades = (case qualifying_trades ck of None \<Rightarrow> 0 | Some n \<Rightarrow> n),
      snap_balance = Some (deposit_total ck), still_under_referral = Some (registered ck),
      provider_state = v_compliance_state v\<rparr>"

definition record_snapshot ::
  "runtime \<Rightarrow> uuid \<Rightarrow> uuid \<Rightarrow> datetime \<Rightarrow> int \<Rightarrow> referral_check option \<Rightarrow>
     eligibility_verdict \<Rightarrow> unit act" where
  "record_snapshot env t account ps period check v =
     (case check of
        None \<Rightarrow> retA ()
      | Some ck \<Rightarrow>
          bindA (liftR (dt_add ps period)) (\<lambda>pe.
          bindA (new_scoped env t) (\<lambda>s.
          add_snapshot (new_snapshot s account ps pe ck v))))"

definition tenant_policy :: "compliance_policy \<Rightarrow> referral_program_config \<Rightarrow> compliance_policy" where
  "tenant_policy policy config =
     \<lparr>max_warnings = max_warnings policy, warning_interval_days = warning_interval_days policy,
      onboarding_grace_days = compliance_grace_period_days config\<rparr>"

definition snapshot_of :: "vip_membership \<Rightarrow> membership_snapshot" where
  "snapshot_of mem =
     \<lparr>ms_status = mem_status mem,
      member_since = (case joined_at mem of None \<Rightarrow> created_at mem | Some j \<Rightarrow> j),
      ms_warnings_sent = warnings_sent mem, ms_last_warning_at = last_warning_at mem\<rparr>"

text \<open>The part of \<open>_process\<close> that starts with asking the exchange.\<close>

definition check_member ::
  "runtime \<Rightarrow> referral_provider \<Rightarrow> telegram_provider \<Rightarrow> compliance_policy \<Rightarrow> int \<Rightarrow> uuid \<Rightarrow>
     vip_membership \<Rightarrow> datetime \<Rightarrow> datetime \<Rightarrow> monitor_report \<Rightarrow> referral_account \<Rightarrow>
     referral_program_config \<Rightarrow> monitor_report act" where
  "check_member env rp tp policy period t mem ps moment rep account config =
     bindA (try_validate rp (uid account)) (\<lambda>check.
     bindA (liftR (evaluate_referral check (rules_of config) True)) (\<lambda>v.
     thenA (touch_row accounts_table (record_check v moment (check \<noteq> None) account))
     (thenA (record_snapshot env t (row_id account) ps period check v)
     (bindA (liftR (decide_compliance (snapshot_of mem) v (tenant_policy policy config) moment)) (\<lambda>d.
     apply_action tp t mem (acc_market account) d moment rep (tenant_policy policy config))))))"

definition process_member ::
  "runtime \<Rightarrow> referral_provider \<Rightarrow> telegram_provider \<Rightarrow> compliance_policy \<Rightarrow> int \<Rightarrow> uuid \<Rightarrow>
     datetime \<Rightarrow> datetime \<Rightarrow> vip_membership \<Rightarrow> monitor_report \<Rightarrow> monitor_report act" where
  "process_member env rp tp policy period t ps moment mem rep =
     (let rep' = rep\<lparr>processed := processed rep + 1\<rparr> in
      bindA (list_for_user t (mem_user_id mem)) (\<lambda>accounts.
      case accounts of
        [] \<Rightarrow> retA rep'
      | account # _ \<Rightarrow>
          bindA (get_for t (acc_provider_type account) (acc_market account)) (\<lambda>config.
          case config of
            None \<Rightarrow> retA rep'
          | Some cfg \<Rightarrow> check_member env rp tp policy period t mem ps moment rep' account cfg)))"

definition run_members ::
  "runtime \<Rightarrow> referral_provider \<Rightarrow> telegram_provider \<Rightarrow> compliance_policy \<Rightarrow> int \<Rightarrow> uuid \<Rightarrow>
     datetime \<Rightarrow> datetime \<Rightarrow> monitor_report act" where
  "run_members env rp tp policy period t ps moment =
     bindA (list_by_status t [MS_INVITED, MS_ACTIVE, MS_SUSPENDED]) (\<lambda>members.
     foldA (process_member env rp tp policy period t ps moment) members (new_report True ps))"

text \<open>The job row after a pass that went through.\<close>

definition counted :: "monitor_report \<Rightarrow> job_execution \<Rightarrow> job_execution" where
  "counted rep x =
     x\<lparr>job_processed := processed rep, job_warned := warned rep, job_revoked := revoked rep,
       job_skipped_unavailable := skipped_unavailable rep\<rparr>"

text \<open>What \<open>run\<close> does with the period it has claimed.\<close>

definition run_claimed ::
  "runtime \<Rightarrow> referral_provider \<Rightarrow> telegram_provider \<Rightarrow> compliance_policy \<Rightarrow> int \<Rightarrow> uuid \<Rightarrow>
     datetime \<Rightarrow> datetime \<Rightarrow> job_execution \<Rightarrow> monitor_report act" where
  "run_claimed env rp tp policy period t ps moment x =
     bindA (tryA (run_members env rp tp policy period t ps moment)
       (\<lambda>e. Some (bindA (finish env x (Some (exn_text env e))) (\<lambda>x'.
                 thenA (touch_row executions_table x') (raiseA e))))) (\<lambda>rep.
     bindA (finish env (counted rep x) None) (\<lambda>x'.
     thenA (touch_row executions_table x') (retA rep)))"

definition run ::
  "runtime \<Rightarrow> referral_provider \<Rightarrow> telegram_provider \<Rightarrow> compliance_policy \<Rightarrow> int \<Rightarrow> uuid \<Rightarrow>
     datetime option \<Rightarrow> monitor_report act" where
  "run env rp tp policy period t now =
     bindA (now_or_utcnow env now) (\<lambda>moment.
     bindA (liftR (period_start_for moment period)) (\<lambda>ps.
     bindA (claim_period env t JOB_NAME ps) (\<lambda>execution.
     case execution of
       None \<Rightarrow> retA (new_report False ps)
     | Some x \<Rightarrow> run_claimed env rp tp policy period t ps moment x)))"

subsection \<open>What the pass keeps\<close>

context effect_relation
begin

lemma keeps_notify [keeps_rules]: "keeps R (notify tp chat txt)"
  unfolding notify_def
  by (intro keeps_case_option keeps_retA keeps_if keeps_bindA keeps_liftR keeps_telegram)

lemma keeps_apply_action [keeps_rules]:
  "keeps R (apply_action tp t mem m d moment rep policy)"
proof -
  have rm: "keeps R (remove_from_channel tp channel c)" for channel c
    unfolding remove_from_channel_def
    by (intro keeps_case_option keeps_retA keeps_thenA keeps_telegram)
  have ex: "keeps R (expire_subscription moment sub)" for sub
    unfolding expire_subscription_def by (intro keeps_case_option keeps_retA keeps_touches)
  show ?thesis
    unfolding apply_action_def carry_out_def
    by (cases "action d")
      (auto intro!: keeps_bindA keeps_queries keeps_thenA keeps_touches keeps_notify keeps_retA rm ex)
qed

lemma keeps_record_snapshot [keeps_rules]:
  "keeps R (record_snapshot env t account ps period check v)"
  unfolding record_snapshot_def
  by (intro keeps_case_option keeps_retA keeps_bindA keeps_liftR keeps_new_scoped keeps_add_snapshot)

lemma keeps_process_member [keeps_rules]:
  "keeps R (process_member env rp tp policy period t ps moment mem rep)"
  unfolding process_member_def check_member_def Let_def
  by (intro keeps_bindA keeps_queries keeps_case_list keeps_case_option keeps_retA keeps_try_validate
      keeps_liftR keeps_thenA keeps_enrol_writes keeps_record_snapshot keeps_apply_action)

lemma keeps_run_members [keeps_rules]:
  "keeps R (run_members env rp tp policy period t ps moment)"
  unfolding run_members_def by (intro keeps_bindA keeps_queries keeps_foldA keeps_process_member)

end

context sweep_relation
begin

lemma keeps_run [keeps_rules]: "keeps R (run env rp tp policy period t now)"
  unfolding run_def run_claimed_def
  by (auto intro!: keeps_bindA keeps_now_or_utcnow keeps_liftR keeps_claim_period keeps_case_option
      keeps_retA keeps_tryA keeps_run_members keeps_finish keeps_thenA keeps_touch_execution keeps_raiseA)

end

subsection \<open>One action\<close>

text \<open>What a decision makes of the membership row; the fields the rules look at change as the pure
  rules say.\<close>

definition member_after :: "compliance_decision \<Rightarrow> datetime \<Rightarrow> vip_membership \<Rightarrow> vip_membership" where
  "member_after d moment mem =
     (case action d of
        NONE \<Rightarrow> mem
      | RESTORE \<Rightarrow> restored_member mem
      | WARN \<Rightarrow> warned_member d moment mem
      | REVOKE \<Rightarrow> revoked_member d moment mem)"

lemma snapshot_of_member_after:
  "snapshot_of (member_after d moment mem) = apply_decision d moment (snapshot_of mem)"
  by (simp add: member_after_def apply_decision_def snapshot_of_def restored_member_def
      warned_member_def revoked_member_def split: compliance_action.split option.split)

lemma row_id_member_after [simp]: "row_id (member_after d moment mem) = row_id mem"
  by (simp add: member_after_def restored_member_def warned_member_def revoked_member_def
      split: compliance_action.split)

lemma row_hit_member_after: "row_hit w (member_after d moment mem) x = row_hit w mem x"
  by (simp add: row_hit_def)

lemma notify_InrD:
  assumes "notify tp chat txt w = (Inr x, w')"
  obtains evs where "w' = w\<lparr>tg_log := tg_log w @ evs\<rparr>"
    "evs = [] \<or> (\<exists>c s. chat = Some c \<and> c \<noteq> 0 \<and> txt = Inr s \<and> evs = [SendMessage c s None (Inr ())])"
    "\<And>c. chat = Some c \<Longrightarrow> c \<noteq> 0 \<Longrightarrow> evs \<noteq> []"
proof (cases "\<exists>c. chat = Some c \<and> c \<noteq> 0")
  case True
  then obtain c where c: "chat = Some c" "c \<noteq> 0" by blast
  with assms obtain s where s: "txt = Inr s" "send_message tp c s None w = (Inr x, w')"
    by (auto simp: notify_def bindA_eq_Inr)
  then have "w' = w\<lparr>tg_log := tg_log w @ [SendMessage c s None (Inr ())]\<rparr>"
    by (auto simp: send_message_run)
  with c s show thesis by (intro that [of "[SendMessage c s None (Inr ())]"]) auto
next
  case False
  then have "w' = w\<lparr>tg_log := tg_log w @ []\<rparr>"
    using assms by (cases chat) (auto simp: notify_def)
  with False show thesis by (intro that [of "[]"]) auto
qed

lemma remove_from_channel_InrD:
  assumes "remove_from_channel tp channel c w = (Inr x, w')"
  shows "w' = w\<lparr>tg_log := tg_log w @ (case channel of None \<Rightarrow> [] | Some ch \<Rightarrow>
      [BanChatMember (chat_id ch) c (Inr ()), UnbanChatMember (chat_id ch) c (Inr ())])\<rparr>"
  using assms
  by (auto simp: remove_from_channel_def thenA_def bindA_eq_Inr telegram_calls Let_def
      split: option.splits)

lemma expire_subscription_InrD:
  assumes "expire_subscription moment sub w = (Inr x, w')" and "ready t w"
  shows "w' = w\<lparr>db := (db w)\<lparr>subscriptions := (case sub of None \<Rightarrow> subscriptions (db w) | Some s \<Rightarrow>
      update_where (row_hit w s) (\<lambda>_. s\<lparr>sub_status := SS_EXPIRED, ends_at := Some moment\<rparr>)
        (subscriptions (db w)))\<rparr>\<rparr>"
proof (cases sub)
  case None
  with assms show ?thesis by (simp add: expire_subscription_def)
next
  case (Some s)
  with assms(1) have "touch_row subscriptions_table
      (s\<lparr>sub_status := SS_EXPIRED, ends_at := Some moment\<rparr>) w = (Inr (), w')"
    by (simp add: expire_subscription_def)
  from touch_row_InrD [OF this assms(2)] Some show ?thesis
    by (simp add: subscriptions_table_def row_hit_def [abs_def])
qed

lemma touch_member_InrD:
  assumes "touch_row memberships_table (member_after d moment mem) w = (Inr x, w')" and "ready t w"
  shows "w' = w\<lparr>db := (db w)\<lparr>vip_memberships :=
      update_where (row_hit w mem) (\<lambda>_. member_after d moment mem) (vip_memberships (db w))\<rparr>\<rparr>"
  using touch_row_InrD [OF assms]
  by (simp add: memberships_table_def row_hit_member_after [abs_def])

text \<open>What carrying out a decision comes to, when it returns: the events, the expired subscription,
  the counted report.\<close>

definition action_events :: "compliance_decision \<Rightarrow> telegram_channel option \<Rightarrow> int option \<Rightarrow> tg_event list" where
  "action_events d channel chat =
     (case (action d, channel) of
        (REVOKE, Some ch) \<Rightarrow>
          (let c = (case chat of None \<Rightarrow> 0 | Some c \<Rightarrow> c) in
           [BanChatMember (chat_id ch) c (Inr ()), UnbanChatMember (chat_id ch) c (Inr ())])
      | _ \<Rightarrow> [])"

definition action_subscriptions ::
  "compliance_decision \<Rightarrow> datetime \<Rightarrow> uuid \<Rightarrow> uuid \<Rightarrow> market \<Rightarrow> world \<Rightarrow> subscription list" where
  "action_subscriptions d moment t user m w =
     (case find_first (\<lambda>r. tenant_id r = t \<and> sub_user_id r = user \<and> sub_market r = m)
        (subscriptions (db w)) of
        Some s \<Rightarrow>
          if action d = REVOKE
          then update_where (row_hit w s) (\<lambda>_. s\<lparr>sub_status := SS_EXPIRED, ends_at := Some moment\<rparr>)
            (subscriptions (db w))
          else subscriptions (db w)
      | None \<Rightarrow> subscriptions (db w))"

definition action_report :: "compliance_decision \<Rightarrow> monitor_report \<Rightarrow> monitor_report" where
  "action_report d rep =
     (case action d of
        NONE \<Rightarrow> if skip_reason d = Some CSR_PROVIDER_UNAVAILABLE
                then rep\<lparr>skipped_unavailable := skipped_unavailable rep + 1\<rparr> else rep
      | WARN \<Rightarrow> rep\<lparr>warned := warned rep + 1\<rparr>
      | REVOKE \<Rightarrow> rep\<lparr>revoked := revoked rep + 1\<rparr>
      | RESTORE \<Rightarrow> rep\<lparr>restored := restored rep + 1\<rparr>)"

definition notice :: "int option \<Rightarrow> tg_event list \<Rightarrow> bool" where
  "notice chat evs \<longleftrightarrow>
     (if chat = None \<or> chat = Some 0 then evs = []
      else \<exists>s. evs = [SendMessage (the chat) s None (Inr ())])"

lemma notify_notice:
  "notify tp chat txt w = (Inr x, w') \<Longrightarrow> \<exists>evs. w' = w\<lparr>tg_log := tg_log w @ evs\<rparr> \<and> notice chat evs"
  by (erule notify_InrD) (auto simp: notice_def)

lemma carry_out_simple:
  assumes "action d = WARN \<or> action d = RESTORE"
    and "carry_out tp t mem m d moment rep policy chat w = (Inr rep', w')" and "ready t w"
  shows "\<exists>evs. ready t w' \<and> ref_log w' = ref_log w \<and> tg_log w' = tg_log w @ evs \<and>
    db w' = (db w)\<lparr>vip_memberships :=
      update_where (row_hit w mem) (\<lambda>_. member_after d moment mem) (vip_memberships (db w))\<rparr> \<and>
    notice chat evs \<and> rep' = action_report d rep"
proof -
  from assms(1,2) obtain body v where
    tr: "touch_row memberships_table (member_after d moment mem) w = (Inr (), v)"
    and nt: "notify tp chat body v = (Inr (), w')" and rep: "rep' = action_report d rep"
    by (elim disjE)
      (auto simp: carry_out_def member_after_def action_report_def thenA_def bindA_eq_Inr)
  from touch_member_InrD [OF tr assms(3)] notify_notice [OF nt] rep assms(3) show ?thesis
    by auto
qed

lemma carry_out_revoke:
  assumes "action d = REVOKE"
    and "carry_out tp t mem m d moment rep policy chat w = (Inr rep', w')" and "ready t w"
  shows "\<exists>channel evs.
    one_or_none (filter (\<lambda>r. tenant_id r = t \<and> ch_market r = m \<and> ch_is_active r) (channels (db w)))
      = Inr channel \<and>
    ready t w' \<and> ref_log w' = ref_log w \<and>
    tg_log w' = tg_log w @ action_events d channel chat @ evs \<and>
    db w' = (db w)\<lparr>vip_memberships :=
        update_where (row_hit w mem) (\<lambda>_. member_after d moment mem) (vip_memberships (db w)),
      subscriptions := action_subscriptions d moment t (mem_user_id mem) m w\<rparr> \<and>
    notice chat evs \<and> rep' = action_report d rep"
proof -
  obtain channel where
    ch: "one_or_none (filter (\<lambda>r. tenant_id r = t \<and> ch_market r = m \<and> ch_is_active r) (channels (db w)))
      = Inr channel"
    using assms by (auto simp: carry_out_def bindA_eq_Inr query_runs)
  from assms ch obtain v1 v2 sub v3 v4 where
    rm: "remove_from_channel tp channel (case chat of None \<Rightarrow> 0 | Some c \<Rightarrow> c) w = (Inr (), v1)"
    and tr: "touch_row memberships_table (member_after d moment mem) v1 = (Inr (), v2)"
    and gs: "get_active_for_user t (mem_user_id mem) m v2 = (Inr sub, v3)"
    and ex: "expire_subscription moment sub v3 = (Inr (), v4)"
    and nt: "notify tp chat (revoked_text d) v4 = (Inr (), w')" and rep: "rep' = action_report d rep"
    by (auto simp: carry_out_def member_after_def action_report_def thenA_def bindA_eq_Inr query_runs)
  from rm have v1: "v1 = w\<lparr>tg_log := tg_log w @ action_events d channel chat\<rparr>"
    using remove_from_channel_InrD [OF rm] assms(1)
    by (auto simp: action_events_def Let_def split: option.splits)
  then have "ready t v1" using assms(3) by simp
  note v2 = touch_member_InrD [OF tr this]
  have "ready t v2" using v1 v2 assms(3) by simp
  with gs have v3: "v3 = v2" "sub = find_first (\<lambda>r. tenant_id r = t \<and> sub_user_id r = mem_user_id mem \<and>
      sub_market r = m) (subscriptions (db w))"
    using v1 v2 by (auto simp: query_runs)
  have v4: "v4 = v2\<lparr>db := (db v2)\<lparr>subscriptions :=
      action_subscriptions d moment t (mem_user_id mem) m w\<rparr>\<rparr>"
    using expire_subscription_InrD [OF ex, of t] \<open>ready t v2\<close> v3 assms(1)
    by (simp add: action_subscriptions_def v1 v2 split: option.splits)
  from notify_notice [OF nt] obtain evs where
    "w' = v4\<lparr>tg_log := tg_log v4 @ evs\<rparr>" "notice chat evs" by blast
  with ch rep v1 v2 v4 assms(3) show ?thesis by auto
qed

text \<open>The first step of an action: the member's user, with everything flushed.\<close>

lemma apply_action_user:
  assumes "apply_action tp t mem m d moment rep policy w = (Inr rep', w')" and "open_tx t w"
    and "action d \<noteq> NONE"
  obtains user v where "flushed w v" "ready t v"
    "one_or_none (filter (\<lambda>r. tenant_id r = t \<and> row_id r = mem_user_id mem) (telegram_users (db w)))
       = Inr user"
    "carry_out tp t mem m d moment rep policy (map_option telegram_user_id user) v = (Inr rep', w')"
proof -
  from assms(1,3) obtain user v where g: "get_by_id users_table t (mem_user_id mem) w = (Inr user, v)"
    and rest: "carry_out tp t mem m d moment rep policy (map_option telegram_user_id user) v
        = (Inr rep', w')"
    by (auto simp: apply_action_def bindA_eq_Inr)
  from g obtain us where sel: "select_rows users_table (\<lambda>r. tenant_id r = t \<and> row_id r = mem_user_id mem) w
      = (Inr us, v)" and us: "one_or_none us = Inr user"
    by (auto simp: get_by_id_def bindA_eq_Inr)
  note fl = select_rows_open_InrD [OF sel assms(2)]
  with fl us rest assms(2) show thesis
    by (intro that [of v user]) (auto simp: users_table_def dest: flushedD)
qed

lemma apply_action_members:
  assumes "apply_action tp t mem m d moment rep policy w = (Inr rep', w')" and "open_tx t w"
  shows "open_tx t w' \<and> ref_log w' = ref_log w \<and> rep' = action_report d rep \<and>
    referral_configs (db w') = referral_configs (db w) \<and>
    referral_accounts (db w') = referral_accounts (db w) \<and>
    vip_memberships (db w') = (if action d = NONE then vip_memberships (db w)
      else update_where (row_hit w mem) (\<lambda>_. member_after d moment mem) (vip_memberships (db w)))"
proof (cases "action d = NONE")
  case True
  with assms show ?thesis by (auto simp: apply_action_def action_report_def)
next
  case False
  obtain user :: "telegram_user option" and v where
    v: "flushed w v" "ready t v"
    and co: "carry_out tp t mem m d moment rep policy (map_option telegram_user_id user) v
        = (Inr rep', w')"
    by (rule apply_action_user [OF assms False])
  note same = flushedD [OF v(1) assms(2)]
  have hit: "row_hit v mem = row_hit w mem" by (simp add: flushed_row_hit [OF v(1)])
  from False consider "action d = WARN \<or> action d = RESTORE" | "action d = REVOKE"
    by (cases "action d") auto
  then show ?thesis
  proof cases
    case 1
    from carry_out_simple [OF 1 co v(2)] False same hit show ?thesis
      by (auto simp: ready_open)
  next
    case 2
    from carry_out_revoke [OF 2 co v(2)] False same hit show ?thesis
      by (auto simp: ready_open)
  qed
qed

text \<open>C9. A revocation is carried out completely and in order: when the decision is REVOKE and the pass
  over the member returns, the user was banned and then unbanned, so that they are out but can come
  back, in the active channel of the account's market (if there is one; whatever channel the
  membership names); the membership row is revoked with the moment and reason and carries no link;
  the user's first entitlement for the market has expired at that moment; the user was told, unless
  they are unknown; and the report counts one more revocation.\<close>

theorem revocation_is_complete:
  assumes "action d = REVOKE" and "open_tx t w"
    and "apply_action tp t mem m d moment rep policy w = (Inr rep', w')"
    and "mem \<in> set (vip_memberships (db w))" and "tenant_id mem = t"
  shows "\<exists>user channel evs.
    one_or_none (filter (\<lambda>r. tenant_id r = t \<and> row_id r = mem_user_id mem) (telegram_users (db w)))
      = Inr user \<and>
    one_or_none (filter (\<lambda>r. tenant_id r = t \<and> ch_market r = m \<and> ch_is_active r) (channels (db w)))
      = Inr channel \<and>
    tg_log w' = tg_log w @
      (case channel of None \<Rightarrow> [] | Some ch \<Rightarrow>
         (let c = (case user of None \<Rightarrow> 0 | Some u \<Rightarrow> telegram_user_id u) in
          [BanChatMember (chat_id ch) c (Inr ()), UnbanChatMember (chat_id ch) c (Inr ())])) @ evs \<and>
    notice (map_option telegram_user_id user) evs \<and>
    mem\<lparr>mem_status := MS_REVOKED, revoked_at := Some moment, revocation_reason := detail d,
        invite_link := None\<rparr> \<in> set (vip_memberships (db w')) \<and>
    (\<forall>s. find_first (\<lambda>r. tenant_id r = t \<and> sub_user_id r = mem_user_id mem \<and> sub_market r = m)
           (subscriptions (db w)) = Some s \<longrightarrow>
       s\<lparr>sub_status := SS_EXPIRED, ends_at := Some moment\<rparr> \<in> set (subscriptions (db w'))) \<and>
    rep' = rep\<lparr>revoked := revoked rep + 1\<rparr>"
proof -
  have act: "action d \<noteq> NONE" using assms(1) by simp
  obtain user :: "telegram_user option" and v where
    v: "flushed w v" "ready t v"
    and user: "one_or_none (filter (\<lambda>r. tenant_id r = t \<and> row_id r = mem_user_id mem)
        (telegram_users (db w))) = Inr user"
    and co: "carry_out tp t mem m d moment rep policy (map_option telegram_user_id user) v
        = (Inr rep', w')"
    by (rule apply_action_user [OF assms(3,2) act])
  note same = flushedD [OF v(1) assms(2)]
  obtain channel evs where
    ch: "one_or_none (filter (\<lambda>r. tenant_id r = t \<and> ch_market r = m \<and> ch_is_active r) (channels (db v)))
      = Inr channel"
    and log: "tg_log w' = tg_log v @ action_events d channel (map_option telegram_user_id user) @ evs"
    and dbs: "db w' = (db v)\<lparr>vip_memberships :=
        update_where (row_hit v mem) (\<lambda>_. member_after d moment mem) (vip_memberships (db v)),
      subscriptions := action_subscriptions d moment t (mem_user_id mem) m v\<rparr>"
    and nt: "notice (map_option telegram_user_id user) evs" and rep: "rep' = action_report d rep"
    using carry_out_revoke [OF assms(1) co v(2)] by blast
  have "row_hit v mem mem" using ready_policy [OF v(2) assms(5)] by (simp add: row_hit_def)
  then have "member_after d moment mem \<in> set (vip_memberships (db w'))"
    using assms(4) same by (auto simp: dbs set_update_where image_iff intro!: bexI [of _ mem])
  moreover have "s\<lparr>sub_status := SS_EXPIRED, ends_at := Some moment\<rparr> \<in> set (subscriptions (db w'))"
    if "find_first (\<lambda>r. tenant_id r = t \<and> sub_user_id r = mem_user_id mem \<and> sub_market r = m)
           (subscriptions (db w)) = Some s" for s
  proof -
    have "s \<in> set (subscriptions (db v))" "tenant_id s = t"
      using find_first_SomeD [OF that] same by auto
    moreover then have "row_hit v s s" using ready_policy [OF v(2), of s] by (simp add: row_hit_def)
    ultimately show ?thesis
      using that same assms(1)
      by (auto simp: dbs action_subscriptions_def set_update_where image_iff intro!: bexI [of _ s])
  qed
  ultimately show ?thesis
    using user ch log nt rep same assms(1)
    by (intro exI [of _ user] exI [of _ channel] exI [of _ evs])
      (auto simp: action_events_def member_after_def revoked_member_def action_report_def Let_def
        split: option.split)
qed

subsection \<open>One member, one pass\<close>

lemma record_snapshot_InrD:
  assumes "record_snapshot env t account ps period check v w = (Inr x, w')"
  obtains ps k n where "w' = w\<lparr>draws := n, ticks := k, pending := ps\<rparr>"
proof (cases check)
  case None
  with assms have "w' = w" by (simp add: record_snapshot_def)
  also have "w = w\<lparr>draws := draws w, ticks := ticks w, pending := pending w\<rparr>" by simp
  finally show thesis by (rule that)
next
  case (Some ck)
  with assms obtain pe s v' where "new_scoped env t w = (Inr s, v')"
    and "w' = v'\<lparr>pending := pending v' @ [new_snapshot s account ps pe ck v]\<rparr>"
    by (auto simp: record_snapshot_def bindA_eq_Inr add_snapshot_def)
  with new_scoped_InrD [of env t w s v'] show thesis by (intro that) simp
qed

lemma check_member_InrD:
  assumes "check_member env rp tp policy period t mem ps moment rep account config w = (Inr rep', w')"
    and "open_tx t w"
  obtains check v d where
    "rp_validate_user rp (ref_log w) (uid account) = (case check of Some c \<Rightarrow> Inr c | None \<Rightarrow>
       rp_validate_user rp (ref_log w) (uid account))"
    "evaluate_referral check (rules_of config) True = Inr v"
    "decide_compliance (snapshot_of mem) v (tenant_policy policy config) moment = Inr d"
    "open_tx t w'" "rep' = action_report d rep"
    "referral_configs (db w') = referral_configs (db w)"
    "vip_memberships (db w') = (if action d = NONE then vip_memberships (db w)
      else update_where (row_hit w mem) (\<lambda>_. member_after d moment mem) (vip_memberships (db w)))"
proof -
  from assms(1) obtain check w1 v w2 w3 d where
    tv: "try_validate rp (uid account) w = (Inr check, w1)"
    and ev: "evaluate_referral check (rules_of config) True = Inr v"
    and tr: "touch_row accounts_table (record_check v moment (check \<noteq> None) account) w1 = (Inr (), w2)"
    and rs: "record_snapshot env t (row_id account) ps period check v w2 = (Inr (), w3)"
    and dc: "decide_compliance (snapshot_of mem) v (tenant_policy policy config) moment = Inr d"
    and ap: "apply_action tp t mem (acc_market account) d moment rep (tenant_policy policy config) w3
        = (Inr rep', w')"
    by (auto simp: check_member_def bindA_eq_Inr thenA_def)
  have w1: "w1 = w\<lparr>ref_log := ref_log w @ [uid account]\<rparr>"
    and answer: "rp_validate_user rp (ref_log w) (uid account) = (case check of Some c \<Rightarrow> Inr c
      | None \<Rightarrow> rp_validate_user rp (ref_log w) (uid account))"
    using tv by (auto simp: try_validate_run split: sum.splits if_splits option.splits)
  have "open_tx t w1" using assms(2) by (simp add: w1)
  then obtain as where w2: "w2 = w1\<lparr>db := (db w1)\<lparr>referral_accounts := as\<rparr>\<rparr>"
    using touch_row_open_InrD [OF tr] by (auto simp: accounts_table_def)
  obtain qs k n where w3: "w3 = w2\<lparr>draws := n, ticks := k, pending := qs\<rparr>"
    by (rule record_snapshot_InrD [OF rs])
  have "open_tx t w3" using assms(2) by (simp add: w3 w2 w1)
  from apply_action_members [OF ap this] have fin: "open_tx t w'" "rep' = action_report d rep"
    "referral_configs (db w') = referral_configs (db w3)"
    "vip_memberships (db w') = (if action d = NONE then vip_memberships (db w3)
      else update_where (row_hit w3 mem) (\<lambda>_. member_after d moment mem) (vip_memberships (db w3)))"
    by simp_all
  show thesis
    by (rule that [OF answer ev dc fin(1,2)]) (use fin(3,4) in \<open>simp_all add: w3 w2 w1\<close>)
qed

text \<open>What one pass may make of a membership row: it stays, or moves by one step of the pure rules
  under the policy of one of the tenant's programmes.\<close>

definition moved ::
  "compliance_policy \<Rightarrow> referral_program_config list \<Rightarrow> datetime \<Rightarrow> vip_membership \<Rightarrow> vip_membership
     \<Rightarrow> bool" where
  "moved policy configs moment x y \<longleftrightarrow> row_id y = row_id x \<and>
     (y = x \<or> (\<exists>cfg \<in> set configs. \<exists>a. a \<noteq> NONE \<and>
        pass (tenant_policy policy cfg) (snapshot_of x) (moment, a) (snapshot_of y)))"

lemma update_where_id: "update_where p (\<lambda>_. x) xs = xs" if "\<And>y. y \<in> set xs \<Longrightarrow> p y \<Longrightarrow> y = x"
  using that unfolding update_where_def by (induction xs) auto

lemma update_where_cong:
  "(\<And>x. x \<in> set xs \<Longrightarrow> p x = q x) \<Longrightarrow> update_where p f xs = update_where q f xs"
  by (simp add: update_where_def)

text \<open>How a report grows: one more processed, at most one more of the other counts.\<close>

definition tally :: "monitor_report \<Rightarrow> int" where
  "tally rep = warned rep + revoked rep + restored rep + skipped_unavailable rep"

definition advances :: "monitor_report \<Rightarrow> int \<Rightarrow> monitor_report \<Rightarrow> bool" where
  "advances rep n rep' \<longleftrightarrow> claimed rep' = claimed rep \<and> rep_period_start rep' = rep_period_start rep \<and>
     processed rep' = processed rep + n \<and> warned rep \<le> warned rep' \<and> revoked rep \<le> revoked rep' \<and>
     restored rep \<le> restored rep' \<and> skipped_unavailable rep \<le> skipped_unavailable rep' \<and>
     tally rep' \<le> tally rep + n"

lemma advances_process: "advances rep 1 (rep\<lparr>processed := processed rep + 1\<rparr>)"
  "advances rep 1 (action_report d (rep\<lparr>processed := processed rep + 1\<rparr>))"
  by (simp_all add: advances_def tally_def action_report_def split: compliance_action.split)

lemma advances_trans: "advances a m b \<Longrightarrow> advances b n c \<Longrightarrow> advances a (m + n) c"
  by (auto simp: advances_def)

lemma table_unique_ids: "table_unique tbl rs \<Longrightarrow> distinct (map row_id rs)"
  unfolding table_unique_def by (induction rs) auto

text \<open>A member that was processed was either passed over, or checked under a programme of the tenant.\<close>

lemma process_member_cases:
  assumes "process_member env rp tp policy period t ps moment mem rep w = (Inr rep', w')" and "open_tx t w"
  obtains (passed_over) "flushed w w'" "rep' = rep\<lparr>processed := processed rep + 1\<rparr>"
  | (checked) account cfg v where "flushed w v" "cfg \<in> set (referral_configs (db w))"
      "check_member env rp tp policy period t mem ps moment (rep\<lparr>processed := processed rep + 1\<rparr>) account cfg v
        = (Inr rep', w')"
proof -
  let ?r = "rep\<lparr>processed := processed rep + 1\<rparr>"
  from assms(1) obtain accounts v where
    ls: "list_for_user t (mem_user_id mem) w = (Inr accounts, v)"
    and rest: "(case accounts of [] \<Rightarrow> retA ?r | account # _ \<Rightarrow>
          bindA (get_for t (acc_provider_type account) (acc_market account)) (\<lambda>config.
          case config of None \<Rightarrow> retA ?r
          | Some cfg \<Rightarrow> check_member env rp tp policy period t mem ps moment ?r account cfg)) v
        = (Inr rep', w')"
    by (auto simp: process_member_def Let_def bindA_eq_Inr [of "list_for_user t (mem_user_id mem)"])
  have fl: "flushed w v"
    using ls assms(2) by (auto simp: list_for_user_def dest!: select_rows_open_InrD)
  note same = flushedD [OF fl assms(2)]
  show thesis
  proof (cases accounts)
    case Nil
    with rest fl show thesis by (intro passed_over) auto
  next
    case (Cons account as)
    from rest Cons same obtain config where
      c: "one_or_none (filter (\<lambda>r. tenant_id r = t \<and> cfg_provider_type r = acc_provider_type account \<and>
          cfg_market r = acc_market account) (referral_configs (db v))) = Inr config"
      and rest': "(case config of None \<Rightarrow> retA ?r
          | Some cfg \<Rightarrow> check_member env rp tp policy period t mem ps moment ?r account cfg) v
        = (Inr rep', w')"
      by (auto simp: bindA_eq_Inr query_runs)
    show thesis
    proof (cases config)
      case None
      with rest' fl show thesis by (intro passed_over) auto
    next
      case (Some cfg)
      with one_or_none_filterD [OF c [unfolded Some]] same rest' fl show thesis by (intro checked) auto
    qed
  qed
qed

lemma process_member_InrD:
  assumes "process_member env rp tp policy period t ps moment mem rep w = (Inr rep', w')"
    and "open_tx t w" and "mem \<in> set (vip_memberships (db w))" and "tenant_id mem = t"
    and "distinct (map row_id (vip_memberships (db w)))"
  shows "open_tx t w' \<and> advances rep 1 rep' \<and> referral_configs (db w') = referral_configs (db w) \<and>
    (\<exists>y. moved policy (referral_configs (db w)) moment mem y \<and>
      vip_memberships (db w') =
        update_where (\<lambda>x. row_id x = row_id mem) (\<lambda>_. y) (vip_memberships (db w)))"
proof -
  have only: "x = mem" if "x \<in> set (vip_memberships (db w))" "row_id x = row_id mem" for x
    using assms(3,5) that by (auto simp: distinct_map dest: inj_onD)
  have self: "update_where (\<lambda>x. row_id x = row_id mem) (\<lambda>_. mem) (vip_memberships (db w)) = vip_memberships (db w)"
    by (rule update_where_id) (rule only)
  have stay: ?thesis if "open_tx t w'" "advances rep 1 rep'" "referral_configs (db w') = referral_configs (db w)"
    "vip_memberships (db w') = vip_memberships (db w)"
    using that self by (intro conjI exI [of _ mem]) (simp_all add: moved_def)
  from assms(1,2) show ?thesis
  proof (cases rule: process_member_cases)
    case passed_over
    with flushedD [OF _ assms(2)] show ?thesis by (intro stay) (auto simp: ready_open advances_process)
  next
    case (checked account cfg v)
    note same = flushedD [OF checked(1) assms(2)]
    have "open_tx t v" using same by (simp add: ready_open)
    from check_member_InrD [OF checked(3) this] obtain check vd d where
      dc: "decide_compliance (snapshot_of mem) vd (tenant_policy policy cfg) moment = Inr d"
      and fin: "open_tx t w'" "rep' = action_report d (rep\<lparr>processed := processed rep + 1\<rparr>)"
        "referral_configs (db w') = referral_configs (db v)"
      and vip: "vip_memberships (db w') = (if action d = NONE then vip_memberships (db v)
        else update_where (row_hit v mem) (\<lambda>_. member_after d moment mem) (vip_memberships (db v)))"
      by metis
    show ?thesis
    proof (cases "action d = NONE")
      case True
      with fin vip same show ?thesis by (intro stay) (simp_all add: advances_process)
    next
      case False
      have "row_hit v mem x \<longleftrightarrow> row_id x = row_id mem" if "x \<in> set (vip_memberships (db w))" for x
        using only [OF that] same ready_policy [of t v mem] assms(4) by (auto simp: row_hit_def)
      then have "update_where (row_hit v mem) (\<lambda>_. member_after d moment mem) (vip_memberships (db w)) =
          update_where (\<lambda>x. row_id x = row_id mem) (\<lambda>_. member_after d moment mem) (vip_memberships (db w))"
        by (rule update_where_cong)
      then have "vip_memberships (db w') =
          update_where (\<lambda>x. row_id x = row_id mem) (\<lambda>_. member_after d moment mem) (vip_memberships (db w))"
        using vip False same by simp
      moreover have "moved policy (referral_configs (db w)) moment mem (member_after d moment mem)"
        using checked(2) False passI [OF dc] by (auto simp: moved_def snapshot_of_member_after)
      ultimately show ?thesis using fin same by (auto simp: advances_process)
    qed
  qed
qed

lemma returns_claimed:
  "returns (\<lambda>r. claimed r = claimed rep) (process_member env rp tp policy period t ps moment mem rep)"
proof -
  have "returns (\<lambda>r. claimed r = claimed rep) (apply_action tp t mem m d moment r policy)"
    if "claimed r = claimed rep" for m d r policy
    unfolding apply_action_def carry_out_def using that
    by (cases "action d") (auto intro!: returns_rules)
  then show ?thesis
    unfolding process_member_def check_member_def Let_def by (auto intro!: returns_rules)
qed

lemma run_members_claimed:
  assumes "run_members env rp tp policy period t ps moment w = (Inr rep, w')"
  shows "claimed rep"
proof -
  have "foldA (process_member env rp tp policy period t ps moment) ms rep0 v = (Inr rep, w') \<Longrightarrow>
      claimed rep = claimed rep0" for ms rep0 v
    by (induction ms arbitrary: rep0 v)
      (auto simp: bindA_eq_Inr dest!: returnsD [OF returns_claimed])
  with assms show ?thesis by (auto simp: run_members_def bindA_eq_Inr new_report_def)
qed

text \<open>A pass over a list of members moves each of them at most one step and no other row.\<close>

lemma fold_members_InrD:
  assumes "foldA (process_member env rp tp policy period t ps moment) ms rep w = (Inr rep', w')"
    and "open_tx t w" and "set ms \<subseteq> set (vip_memberships (db w))" and "\<forall>x \<in> set ms. tenant_id x = t"
    and "distinct (map row_id (vip_memberships (db w)))" and "distinct (map row_id ms)"
  shows "open_tx t w' \<and> advances rep (int (length ms)) rep' \<and> (\<exists>f. vip_memberships (db w') = map f (vip_memberships (db w)) \<and>
    (\<forall>x \<in> set (vip_memberships (db w)). if x \<in> set ms
       then moved policy (referral_configs (db w)) moment x (f x) else f x = x))"
  using assms
proof (induction ms arbitrary: rep w)
  case Nil
  then show ?case by (auto simp: advances_def intro!: exI [of _ id])
next
  case (Cons m ms)
  from Cons.prems(1) obtain rep1 v where
    pm: "process_member env rp tp policy period t ps moment m rep w = (Inr rep1, v)"
    and rest: "foldA (process_member env rp tp policy period t ps moment) ms rep1 v = (Inr rep', w')"
    by (auto simp: bindA_eq_Inr)
  have m: "m \<in> set (vip_memberships (db w))" "tenant_id m = t" using Cons.prems(3,4) by auto
  from process_member_InrD [OF pm Cons.prems(2) m Cons.prems(5)] obtain y where
    v: "open_tx t v" "referral_configs (db v) = referral_configs (db w)" and g1: "advances rep 1 rep1"
    and y: "moved policy (referral_configs (db w)) moment m y"
    and vip: "vip_memberships (db v) =
        update_where (\<lambda>x. row_id x = row_id m) (\<lambda>_. y) (vip_memberships (db w))"
    by blast
  let ?T = "vip_memberships (db w)"
  let ?g = "\<lambda>x. if row_id x = row_id m then y else x"
  have only: "x = m" if "x \<in> set ?T" "row_id x = row_id m" for x
    using m(1) Cons.prems(5) that by (auto simp: distinct_map dest: inj_onD)
  have idy: "row_id y = row_id m" using y by (simp add: moved_def)
  have g: "vip_memberships (db v) = map ?g ?T" by (simp add: vip update_where_def)
  have ids: "map row_id (vip_memberships (db v)) = map row_id ?T"
    unfolding vip using idy by (intro map_update_where) simp
  have far: "row_id x \<noteq> row_id m" if "x \<in> set ms" for x
    using Cons.prems(6) that by (auto simp: image_iff)
  have sub: "set ms \<subseteq> set (vip_memberships (db v))"
    using Cons.prems(3) far by (auto simp: g image_iff)
  have "distinct (map row_id (vip_memberships (db v)))" "distinct (map row_id ms)"
    "\<forall>x \<in> set ms. tenant_id x = t"
    using Cons.prems(4,5,6) ids by auto
  from Cons.IH [OF rest v(1) sub this(3,1,2), unfolded v(2)] obtain f where
    w': "open_tx t w'" and g2: "advances rep1 (int (length ms)) rep'" and f: "vip_memberships (db w') = map f (vip_memberships (db v))"
    "\<forall>x \<in> set (vip_memberships (db v)). if x \<in> set ms
       then moved policy (referral_configs (db w)) moment x (f x) else f x = x"
    by blast
  have "if x \<in> set (m # ms) then moved policy (referral_configs (db w)) moment x (f (?g x))
      else f (?g x) = x" if x: "x \<in> set ?T" for x
  proof (cases "row_id x = row_id m")
    case True
    with only x have "x = m" by blast
    have "y \<in> set (vip_memberships (db v))" using m(1) by (auto simp: g image_iff)
    moreover have "y \<notin> set ms" using far idy by auto
    ultimately have "f y = y" using f(2) by auto
    with y \<open>x = m\<close> show ?thesis by simp
  next
    case False
    then have "x \<in> set (vip_memberships (db v))" using x by (auto simp: g image_iff)
    with f(2) False show ?thesis by auto
  qed
  with f(1) g w' advances_trans [OF g1 g2] show ?case
    by (intro conjI exI [of _ "f \<circ> ?g"]) (simp_all add: comp_def)
qed

subsection \<open>The whole pass\<close>

definition moment_of :: "runtime \<Rightarrow> world \<Rightarrow> datetime option \<Rightarrow> datetime" where
  "moment_of env w now = (case now of Some m \<Rightarrow> m | None \<Rightarrow> Aware (clock env (ticks w)))"

lemma now_or_utcnow_InrD:
  "now_or_utcnow env now w = (Inr m, w') \<Longrightarrow>
     m = moment_of env w now \<and> (\<exists>k. w' = w\<lparr>ticks := k\<rparr>)"
proof (cases now)
  case None
  assume "now_or_utcnow env now w = (Inr m, w')"
  with None show ?thesis by (auto simp: now_or_utcnow_def utcnow_def moment_of_def)
next
  case (Some a)
  assume "now_or_utcnow env now w = (Inr m, w')"
  with Some have "m = a" "w' = w\<lparr>ticks := ticks w\<rparr>" by (simp_all add: now_or_utcnow_def)
  with Some show ?thesis by (simp only: moment_of_def option.case) blast
qed

definition fresh_job_id :: "runtime \<Rightarrow> world \<Rightarrow> bool" where
  "fresh_job_id env w \<longleftrightarrow> (\<forall>x \<in> set (job_executions (db w)). row_id x \<noteq> uuid4 env (draws w))"

text \<open>A run that returned either stood down, or claimed the period, went through the members and
  wrote its counts to the job row.\<close>

lemma run_InrD:
  assumes "run env rp tp policy period t now w = (Inr rep, w')" and "ready t w" and "fresh_job_id env w"
  obtains (stood_down) ps where
      "period_start_for (moment_of env w now) period = Inr ps"
      "period_taken t JOB_NAME ps (job_executions (db w))" "rep = new_report False ps"
      "db w' = db w" "tg_log w' = tg_log w" "ref_log w' = ref_log w" "ready t w'"
  | (ran) ps x v where
      "period_start_for (moment_of env w now) period = Inr ps"
      "\<not> period_taken t JOB_NAME ps (job_executions (db w))"
      "ready t v" "db v = (db w)\<lparr>job_executions := job_executions (db w) @ [x]\<rparr>"
      "tenant_id x = t" "job_name x = JOB_NAME" "job_period_start x = ps"
      "tg_log v = tg_log w" "ref_log v = ref_log w"
      "run_claimed env rp tp policy period t ps (moment_of env w now) x v = (Inr rep, w')"
proof -
  from assms(1) obtain moment w1 ps ex w2 where
    mo: "now_or_utcnow env now w = (Inr moment, w1)"
    and ps: "period_start_for moment period = Inr ps"
    and cl: "claim_period env t JOB_NAME ps w1 = (Inr ex, w2)"
    and rest: "(case ex of None \<Rightarrow> retA (new_report False ps)
     | Some x \<Rightarrow> run_claimed env rp tp policy period t ps moment x) w2 = (Inr rep, w')"
    by (auto simp: run_def bindA_eq_Inr)
  from now_or_utcnow_InrD [OF mo] obtain k where w1: "w1 = w\<lparr>ticks := k\<rparr>"
    and m: "moment = moment_of env w now" by blast
  have r1: "ready t w1" and f1: "\<And>x. x \<in> set (job_executions (db w1)) \<Longrightarrow> row_id x \<noteq> uuid4 env (draws w1)"
    using assms(2,3) by (auto simp: w1 fresh_job_id_def)
  obtain w3 where w3: "ready t w3" "tg_log w3 = tg_log w1" "ref_log w3 = ref_log w1"
    "if period_taken t JOB_NAME ps (job_executions (db w1))
     then claim_period env t JOB_NAME ps w1 = (Inr None, w3) \<and> db w3 = db w1
     else \<exists>x. claim_period env t JOB_NAME ps w1 = (Inr (Some x), w3) \<and>
       db w3 = (db w1)\<lparr>job_executions := job_executions (db w1) @ [x]\<rparr> \<and>
       tenant_id x = t \<and> job_name x = JOB_NAME \<and> job_period_start x = ps \<and> job_state x = RUNNING"
    by (rule claim_period_ready [OF r1 f1])
  show thesis
  proof (cases ex)
    case None
    with cl w3 rest show thesis
      by (intro stood_down [of ps]) (use ps m in \<open>auto simp: w1 split: if_splits\<close>)
  next
    case (Some x)
    with cl w3 rest show thesis
      by (intro ran [of ps w2 x]) (use ps m in \<open>auto simp: w1 split: if_splits\<close>)
  qed
qed

lemma run_claimed_InrD:
  assumes "run_claimed env rp tp policy period t ps moment x v = (Inr rep, w')"
  obtains v1 x' k where
    "run_members env rp tp policy period t ps moment v = (Inr rep, v1)"
    "touch_row executions_table x' (v1\<lparr>ticks := k\<rparr>) = (Inr (), w')"
    "x' = (counted rep x)\<lparr>job_state := SUCCEEDED, finished_at := Some (Aware (clock env (ticks v1))),
       job_error := None\<rparr>"
proof -
  from assms obtain rep2 v1 x' v2 where
    t: "tryA (run_members env rp tp policy period t ps moment)
       (\<lambda>e. Some (bindA (finish env x (Some (exn_text env e))) (\<lambda>x'.
                 thenA (touch_row executions_table x') (raiseA e)))) v = (Inr rep, v1)"
    and f: "finish env (counted rep x) None v1 = (Inr x', v2)"
    and u: "touch_row executions_table x' v2 = (Inr (), w')"
    by (auto simp: run_claimed_def bindA_eq_Inr thenA_def)
  from t have "run_members env rp tp policy period t ps moment v = (Inr rep, v1)"
    by (auto simp: tryA_def bindA_eq_Inr thenA_def split: prod.splits sum.splits)
  moreover from f have "v2 = v1\<lparr>ticks := Suc (ticks v1)\<rparr>"
    "x' = (counted rep x)\<lparr>job_state := SUCCEEDED, finished_at := Some (Aware (clock env (ticks v1))),
       job_error := None\<rparr>"
    by (auto simp: finish_def bindA_eq_Inr utcnow_def)
  ultimately show thesis using u that by blast
qed

text \<open>What a run that returned comes to.\<close>

definition monitored_of :: "uuid \<Rightarrow> database \<Rightarrow> vip_membership list" where
  "monitored_of t d =
     filter (\<lambda>r. tenant_id r = t \<and> mem_status r \<in> set [MS_INVITED, MS_ACTIVE, MS_SUSPENDED])
       (vip_memberships d)"

lemma run_pass:
  assumes "ready t w" and "fresh_job_id env w" and "unique_keys (db w)"
    and "run env rp tp policy period t now w = (Inr rep, w')" and "claimed rep"
  obtains ps f x v1 k where
    "period_start_for (moment_of env w now) period = Inr ps"
    "\<not> period_taken t JOB_NAME ps (job_executions (db w))"
    "advances (new_report True ps) (int (length (monitored_of t (db w)))) rep"
    "vip_memberships (db w') = map f (vip_memberships (db w))"
    "\<forall>m \<in> set (vip_memberships (db w)). if m \<in> set (monitored_of t (db w))
       then moved policy (referral_configs (db w)) (moment_of env w now) m (f m) else f m = m"
    "open_tx t v1"
    "touch_row executions_table x v1 = (Inr (), w')"
    "tenant_id x = t" "job_name x = JOB_NAME" "job_period_start x = ps" "job_state x = SUCCEEDED"
    "job_error x = None" "job_processed x = processed rep" "job_warned x = warned rep"
    "job_revoked x = revoked rep" "job_skipped_unavailable x = skipped_unavailable rep"
  using assms(4,1,2)
proof (cases rule: run_InrD)
  case (stood_down ps)
  with assms(5) show ?thesis by (simp add: new_report_def)
next
  case (ran ps x v)
  let ?m = "moment_of env w now" and ?ms = "monitored_of t (db w)"
  from run_claimed_InrD [OF ran(10)] obtain v1 x' k where
    rm: "run_members env rp tp policy period t ps ?m v = (Inr rep, v1)"
    and tr: "touch_row executions_table x' (v1\<lparr>ticks := k\<rparr>) = (Inr (), w')"
    and x': "x' = (counted rep x)\<lparr>job_state := SUCCEEDED,
      finished_at := Some (Aware (clock env (ticks v1))), job_error := None\<rparr>"
    by metis
  have vip: "vip_memberships (db v) = vip_memberships (db w)"
    "referral_configs (db v) = referral_configs (db w)" by (simp_all add: ran(4))
  have fm: "foldA (process_member env rp tp policy period t ps ?m) ?ms (new_report True ps) v
      = (Inr rep, v1)"
    using rm ran(3) vip by (simp add: run_members_def bindA_def query_runs monitored_of_def)
  have "table_unique memberships_table (vip_memberships (db w))"
    using assms(3) by (simp add: unique_keys_def)
  then have d: "distinct (map row_id (vip_memberships (db v)))"
    unfolding vip by (rule table_unique_ids)
  then have dm: "distinct (map row_id ?ms)"
    unfolding monitored_of_def vip by (rule distinct_map_filter)
  have "open_tx t v" using ran(3) by (simp add: ready_open)
  moreover have "set ?ms \<subseteq> set (vip_memberships (db v))" "\<forall>x \<in> set ?ms. tenant_id x = t"
    by (auto simp: vip monitored_of_def)
  ultimately obtain f where o: "open_tx t v1" and g: "advances (new_report True ps) (int (length ?ms)) rep"
    and f: "vip_memberships (db v1) = map f (vip_memberships (db w))"
    "\<forall>x \<in> set (vip_memberships (db w)). if x \<in> set ?ms
       then moved policy (referral_configs (db w)) ?m x (f x) else f x = x"
    using fold_members_InrD [OF fm _ _ _ d dm, unfolded vip] vip(1) by auto
  have "vip_memberships (db w') = map f (vip_memberships (db w))"
    using touch_row_open_InrD [OF tr, of t] o f(1) by (simp add: executions_table_def)
  with ran(1,2) g f(2) o tr ran(5-7) x' show ?thesis
    by (intro that [of ps f "v1\<lparr>ticks := k\<rparr>" x']) (simp_all add: counted_def)
qed

lemma run_stood_down:
  assumes "ready t w" and "fresh_job_id env w"
    and "run env rp tp policy period t now w = (Inr rep, w')" and "\<not> claimed rep"
  shows "db w' = db w \<and> tg_log w' = tg_log w \<and> ref_log w' = ref_log w \<and> ready t w' \<and>
    (\<exists>ps. period_start_for (moment_of env w now) period = Inr ps \<and>
       period_taken t JOB_NAME ps (job_executions (db w)))"
  using assms(3,1,2)
proof (cases rule: run_InrD)
  case (ran ps x v)
  from run_claimed_InrD [OF ran(10)] obtain v1 where
    "run_members env rp tp policy period t ps (moment_of env w now) v = (Inr rep, v1)" by metis
  then have "claimed rep" by (rule run_members_claimed)
  with assms(4) show ?thesis by simp
qed auto

text \<open>C3. The monitoring pass is the pure rules: a pass that returns either stood down without touching
  a membership, or moved each monitored membership of its tenant by at most one step of the
  compliance rules at that one moment, under the policy of one of the tenants' programmes, and left
  every other membership row alone. (So whatever is proved of whole lives under the rules, the cap,
  the spacing and the grace, holds of the rows the passes write.)\<close>

theorem pass_refines_rules:
  assumes "ready t w" and "fresh_job_id env w" and "unique_keys (db w)"
    and "run env rp tp policy period t now w = (Inr rep, w')"
  shows "\<exists>f. vip_memberships (db w') = map f (vip_memberships (db w)) \<and>
    (\<forall>x \<in> set (vip_memberships (db w)). row_id (f x) = row_id x \<and>
      (f x = x \<or> (claimed rep \<and> tenant_id x = t \<and> mem_status x \<in> set MONITORED \<and>
        (\<exists>cfg \<in> set (referral_configs (db w)). \<exists>a. a \<noteq> NONE \<and>
           pass (tenant_policy policy cfg) (snapshot_of x) (moment_of env w now, a) (snapshot_of (f x))))))"
proof (cases "claimed rep")
  case True
  from run_pass [OF assms True] obtain f where
    "vip_memberships (db w') = map f (vip_memberships (db w))"
    "\<forall>m \<in> set (vip_memberships (db w)). if m \<in> set (monitored_of t (db w))
       then moved policy (referral_configs (db w)) (moment_of env w now) m (f m) else f m = m"
    by metis
  with True show ?thesis
    by (intro exI [of _ f]) (auto simp: moved_def monitored_of_def MONITORED_def split: if_splits)
next
  case False
  from run_stood_down [OF assms(1,2,4) False] show ?thesis by (intro exI [of _ id]) simp
qed

text \<open>A pass that went through is recorded as it was: the claimed period's job row is marked
  SUCCEEDED, without an error, and carries the counts of the report; the pass processed exactly the
  tenant's invited, active and suspended memberships, and its warnings, revocations, restorations and
  skips together are no more than those.\<close>

theorem pass_is_recorded:
  assumes "ready t w" and "fresh_job_id env w" and "unique_keys (db w)"
    and "run env rp tp policy period t now w = (Inr rep, w')" and "claimed rep"
  shows "processed rep = int (length (monitored_of t (db w))) \<and>
    warned rep + revoked rep + restored rep + skipped_unavailable rep \<le> processed rep \<and>
    (\<exists>x \<in> set (job_executions (db w')). tenant_id x = t \<and> job_name x = JOB_NAME \<and>
       job_state x = SUCCEEDED \<and> job_error x = None \<and> job_processed x = processed rep \<and>
       job_warned x = warned rep \<and> job_revoked x = revoked rep \<and>
       job_skipped_unavailable x = skipped_unavailable rep)"
proof -
  obtain ps x v1 where
    g: "advances (new_report True ps) (int (length (monitored_of t (db w)))) rep"
    and o: "open_tx t v1" and tr: "touch_row executions_table x v1 = (Inr (), w')"
    and x: "tenant_id x = t" "job_name x = JOB_NAME" "job_state x = SUCCEEDED" "job_error x = None"
      "job_processed x = processed rep" "job_warned x = warned rep" "job_revoked x = revoked rep"
      "job_skipped_unavailable x = skipped_unavailable rep"
    using run_pass [OF assms] by metis
  have "x \<in> set (job_executions (db w'))"
    using touch_row_open_InrD [OF tr o] by (auto simp: executions_table_def set_update_where image_iff)
  moreover have "processed rep = int (length (monitored_of t (db w)))"
    "warned rep + revoked rep + restored rep + skipped_unavailable rep \<le> processed rep"
    using g by (simp_all add: advances_def tally_def new_report_def)
  ultimately show ?thesis using x by auto
qed

text \<open>On PostgreSQL a pass over tenant \<open>t\<close> leaves every row of every other tenant as it was, also
  when it fails half-way.\<close>

theorem pass_isolated:
  assumes "sess t w"
  shows "others t (db (snd (run env rp tp policy period t' now w))) = others t (db w)"
proof -
  obtain r w' where run: "run env rp tp policy period t' now w = (r, w')" by fastforce
  have "iso t w w'" by (rule keepsD [OF iso.keeps_run run])
  with assms run show ?thesis by (simp add: iso_def)
qed

subsection \<open>Replays\<close>

lemma run_taken:
  assumes "ready t v" and "fresh_job_id env v"
    and "period_start_for (moment_of env v now) period = Inr ps"
    and "period_taken t JOB_NAME ps (job_executions (db v))"
  shows "\<exists>v'. run env rp tp policy period t now v = (Inr (new_report False ps), v') \<and>
    db v' = db v \<and> tg_log v' = tg_log v \<and> ref_log v' = ref_log v"
proof -
  obtain v1 where v1: "now_or_utcnow env now v = (Inr (moment_of env v now), v1)" "ready t v1"
    "db v1 = db v" "tg_log v1 = tg_log v" "ref_log v1 = ref_log v" "draws v1 = draws v"
    using assms(1) by (cases now) (auto simp: now_or_utcnow_def utcnow_def moment_of_def)
  have f: "\<And>x. x \<in> set (job_executions (db v1)) \<Longrightarrow> row_id x \<noteq> uuid4 env (draws v1)"
    using assms(2) v1 by (auto simp: fresh_job_id_def)
  obtain v2 where "tg_log v2 = tg_log v1" "ref_log v2 = ref_log v1"
    "if period_taken t JOB_NAME ps (job_executions (db v1))
     then claim_period env t JOB_NAME ps v1 = (Inr None, v2) \<and> db v2 = db v1
     else \<exists>x. claim_period env t JOB_NAME ps v1 = (Inr (Some x), v2) \<and>
       db v2 = (db v1)\<lparr>job_executions := job_executions (db v1) @ [x]\<rparr> \<and>
       tenant_id x = t \<and> job_name x = JOB_NAME \<and> job_period_start x = ps \<and> job_state x = RUNNING"
    by (rule claim_period_ready [OF v1(2) f])
  with assms(3,4) v1 show ?thesis by (simp add: run_def bindA_def)
qed

lemma run_takes_period:
  assumes "ready t w" and "fresh_job_id env w" and "unique_keys (db w)"
    and "run env rp tp policy period t now w = (Inr rep, w')"
  shows "\<exists>ps. period_start_for (moment_of env w now) period = Inr ps \<and>
    period_taken t JOB_NAME ps (job_executions (db w'))"
proof (cases "claimed rep")
  case True
  obtain ps x v1 where ps: "period_start_for (moment_of env w now) period = Inr ps"
    and o: "open_tx t v1" and tr: "touch_row executions_table x v1 = (Inr (), w')"
    and x: "tenant_id x = t" "job_name x = JOB_NAME" "job_period_start x = ps"
    using run_pass [OF assms True] by metis
  have "x \<in> set (job_executions (db w'))"
    using touch_row_open_InrD [OF tr o] by (auto simp: executions_table_def set_update_where image_iff)
  with ps x show ?thesis by (auto simp: period_taken_def)
next
  case False
  with run_stood_down [OF assms(1,2,4)] show ?thesis by simp
qed

text \<open>C11. Running the job twice does nothing twice: once a pass of the tenant has returned, every later
  run for a moment of the same period, with whatever providers, policy or instance, as long as the job
  rows are still there, returns without having claimed the period, changes nothing in the database,
  sends nothing and does not ask the exchange.\<close>

theorem replay_is_noop:
  assumes "ready t w" and "fresh_job_id env w" and "unique_keys (db w)"
    and "run env rp tp policy period t now w = (Inr rep, w')"
    and "ready t v" and "fresh_job_id env' v"
    and "set (job_executions (db w')) \<subseteq> set (job_executions (db v))"
    and "period_start_for (moment_of env' v now') period = period_start_for (moment_of env w now) period"
  shows "\<exists>rep' v'. run env' rp' tp' policy' period t now' v = (Inr rep', v') \<and> \<not> claimed rep' \<and>
    db v' = db v \<and> tg_log v' = tg_log v \<and> ref_log v' = ref_log v"
proof -
  obtain ps where ps: "period_start_for (moment_of env w now) period = Inr ps"
    "period_taken t JOB_NAME ps (job_executions (db w'))"
    using run_takes_period [OF assms(1-4)] by blast
  then have "period_taken t JOB_NAME ps (job_executions (db v))"
    using assms(7) by (auto simp: period_taken_def)
  from run_taken [OF assms(5,6) _ this, of now' period rp' tp' policy'] ps(1) assms(8)
  show ?thesis by (auto simp: new_report_def)
qed

subsection \<open>Outages\<close>

definition outage :: "referral_provider \<Rightarrow> bool" where
  "outage rp \<longleftrightarrow> (\<forall>h u. \<exists>e. rp_validate_user rp h u = Inl e \<and> is_unavailable e)"

lemma try_validate_outage:
  assumes "outage rp"
  shows "try_validate rp u = thenA (writeA (\<lambda>w. w\<lparr>ref_log := ref_log w @ [u]\<rparr>)) (retA None)"
proof
  fix w :: world
  obtain e where "rp_validate_user rp (ref_log w) u = Inl e" "is_unavailable e"
    using assms unfolding outage_def by blast
  then show "try_validate rp u w = thenA (writeA (\<lambda>w. w\<lparr>ref_log := ref_log w @ [u]\<rparr>)) (retA None) w"
    by (simp add: try_validate_run thenA_def bindA_def)
qed

text \<open>In an outage the check of a member comes down to writing the state of the account.\<close>

lemma check_member_outage:
  assumes "outage rp"
  shows "\<exists>rep'. warned rep' = warned rep \<and> revoked rep' = revoked rep \<and> restored rep' = restored rep \<and>
    check_member env rp tp policy period t mem ps moment rep account config =
      thenA (writeA (\<lambda>w. w\<lparr>ref_log := ref_log w @ [uid account]\<rparr>))
        (thenA (touch_row accounts_table (record_check
            \<lparr>v_reason = ER_PROVIDER_UNAVAILABLE, v_compliance_state = CS_PROVIDER_UNAVAILABLE,
             balance = dec_zero, shortfall = dec_zero\<rparr> moment False account))
          (retA rep'))"
proof -
  let ?v = "\<lparr>v_reason = ER_PROVIDER_UNAVAILABLE, v_compliance_state = CS_PROVIDER_UNAVAILABLE,
             balance = dec_zero, shortfall = dec_zero\<rparr>"
  obtain r where d: "decide_compliance (snapshot_of mem) ?v (tenant_policy policy config) moment
      = Inr (no_action r (ms_warnings_sent (snapshot_of mem)))"
    using decide_outage [of ?v "snapshot_of mem"] by auto
  let ?d = "no_action r (ms_warnings_sent (snapshot_of mem))"
  have "check_member env rp tp policy period t mem ps moment rep account config =
      thenA (writeA (\<lambda>w. w\<lparr>ref_log := ref_log w @ [uid account]\<rparr>))
        (thenA (touch_row accounts_table (record_check ?v moment False account))
          (retA (action_report ?d rep)))"
    unfolding check_member_def try_validate_outage [OF assms] thenA_def bindA_assoc
    by (simp add: d record_snapshot_def apply_action_def no_action_def bindA_liftR action_report_def
        del: retA_run)
  then show ?thesis
    by (intro exI [of _ "action_report ?d rep"]) (simp add: action_report_def no_action_def)
qed

interpretation access: job_relation access_tx access_kept
  by unfold_locales (auto intro!: access_insert_row access_put_row simp: access_of_def executions_table_def)

lemma outage_member:
  assumes "outage rp"
  shows "keeps access_kept (process_member env rp tp policy period t ps moment mem rep)"
    and "returns (\<lambda>r. warned r = warned rep \<and> revoked r = revoked rep \<and> restored r = restored rep)
      (process_member env rp tp policy period t ps moment mem rep)"
proof -
  have wr: "keeps access_kept (writeA (\<lambda>w. w\<lparr>ref_log := ref_log w @ [u]\<rparr>))" for u
    by (simp add: keeps_def access.referral_kept)
  have k: "keeps access_kept (check_member env rp tp policy period t mem ps moment r account config)"
    for r account config
    using check_member_outage [OF assms, of r env tp policy period t mem ps moment account config]
    by (auto intro!: access.keeps_thenA wr access.keeps_enrol_writes access.keeps_retA)
  have q: "returns (\<lambda>r'. warned r' = warned r \<and> revoked r' = revoked r \<and> restored r' = restored r)
      (check_member env rp tp policy period t mem ps moment r account config)" for r account config
    using check_member_outage [OF assms, of r env tp policy period t mem ps moment account config]
    by (auto intro!: returns_rules)
  show "keeps access_kept (process_member env rp tp policy period t ps moment mem rep)"
    unfolding process_member_def Let_def
    by (intro access.keeps_bindA access.keeps_queries access.keeps_case_list
        access.keeps_case_option access.keeps_retA k)
  show "returns (\<lambda>r. warned r = warned rep \<and> revoked r = revoked rep \<and> restored r = restored rep)
      (process_member env rp tp policy period t ps moment mem rep)"
    unfolding process_member_def Let_def
    using q [of "rep\<lparr>processed := processed rep + 1\<rparr>"] by (auto intro!: returns_rules)
qed

text \<open>C14. An exchange that is down costs nobody anything: whatever a pass does while every check fails
  as unavailable, returning or raising, no membership and no entitlement changes and nothing is sent
  to Telegram.\<close>

theorem outage_pass_is_silent:
  assumes "outage rp" and "in_tx w \<longrightarrow> access_of (start w) = access_of (db w)"
    and "run env rp tp policy period t now w = (r, w')"
  shows "vip_memberships (db w') = vip_memberships (db w) \<and>
    subscriptions (db w') = subscriptions (db w) \<and> tg_log w' = tg_log w"
proof -
  have "keeps access_kept (run env rp tp policy period t now)"
    unfolding run_def run_claimed_def run_members_def
    by (auto intro!: access.keeps_bindA access.keeps_now_or_utcnow access.keeps_liftR
        access.keeps_claim_period access.keeps_case_option access.keeps_retA access.keeps_tryA
        access.keeps_queries access.keeps_foldA outage_member(1) [OF assms(1)] access.keeps_finish
        access.keeps_thenA access.keeps_touch_execution access.keeps_raiseA)
  from keepsD [OF this assms(3)] assms(2) show ?thesis
    by (simp add: access_kept_def access_of_def)
qed

end
