(* ===== verification/DemoJobs.thy ===== *)
theory DemoJobs
  imports Demo Monitor
begin

text \<open>
  The running example at the end of a period: two members of the tenant's channel, one still
  compliant, one who has had their three warnings, and the pass of the compliance job over them.
\<close>

definition long_ago :: datetime where
  "long_ago = Aware (demo_now - 200 * micros_per_day)"

definition lapsed_user :: telegram_user where
  "lapsed_user = demo_user\<lparr>row_id := 7, telegram_user_id := 888\<rparr>"

definition lapsed_account :: referral_account where
  "lapsed_account = demo_account\<lparr>row_id := 8, acc_user_id := 7, uid := asc ''222222222''\<rparr>"

definition member :: "uuid \<Rightarrow> uuid \<Rightarrow> int \<Rightarrow> vip_membership" where
  "member i u warnings = demo_membership\<lparr>row_id := i, created_at := long_ago, mem_user_id := u,
     mem_status := MS_ACTIVE, invite_link := Some (asc ''https://t.me/+mock''),
     warnings_sent := warnings, last_warning_at := Some long_ago\<rparr>"

definition lapsed_subscription :: subscription where
  "lapsed_subscription = \<lparr>row_id = 15, created_at = long_ago, tenant_id = 1, sub_user_id = 7,
     sub_market = CRYPTO, access_type = AT_REFERRAL, plan_code = asc ''referral'', sub_status = SS_ACTIVE,
     starts_at = Some long_ago, ends_at = None, source_reference = None\<rparr>"

definition pass_db :: database where
  "pass_db = demo_db\<lparr>telegram_users := [demo_user, lapsed_user],
     referral_accounts := [demo_account, lapsed_account],
     vip_memberships := [member 12 5 1, member 13 7 3],
     subscriptions := [lapsed_subscription]\<rparr>"

definition pass_world :: world where
  "pass_world = demo_world\<lparr>db := pass_db, start := pass_db\<rparr>"

definition week :: int where "week = 7 * micros_per_day"

definition demo_pass :: "referral_provider \<Rightarrow> world \<Rightarrow> monitor_report res \<times> world" where
  "demo_pass rp w = run demo_runtime rp demo_telegram default_policy week 1 None w"

fun reports :: "monitor_report res \<times> world \<Rightarrow> bool \<Rightarrow> int list \<Rightarrow> bool" where
  "reports (Inr r, w) c ns \<longleftrightarrow>
     claimed r = c \<and> ns = [processed r, warned r, revoked r, restored r, skipped_unavailable r]"
| "reports (Inl e, w) c ns = False"

lemma reportsD: "reports x c ns \<Longrightarrow> \<exists>r w. x = (Inr r, w) \<and> claimed r = c \<and>
    [processed r, warned r, revoked r, restored r, skipped_unavailable r] = ns"
  by (cases "(x, c, ns)" rule: reports.cases) auto

text \<open>The pass starts with the clock at \<open>demo_now\<close>, a Thursday: the week's period began that day.\<close>

definition week_start :: datetime where
  "week_start = Aware demo_now"

lemma week_starts: "period_start_for (Aware demo_now) week = Inr week_start"
  by code_simp

text \<open>The part of the pass after the period is known.\<close>

definition demo_claimed_pass :: "referral_provider \<Rightarrow> world \<Rightarrow> monitor_report res \<times> world" where
  "demo_claimed_pass rp w =
     bindA (claim_period demo_runtime 1 JOB_NAME week_start) (\<lambda>execution.
       case execution of
         None \<Rightarrow> retA (new_report False week_start)
       | Some x \<Rightarrow> run_claimed demo_runtime rp demo_telegram default_policy week 1 week_start
           (Aware demo_now) x) (w\<lparr>ticks := Suc (ticks w)\<rparr>)"

lemma demo_pass_claimed:
  assumes "ticks w = 0"
  shows "demo_pass rp w = demo_claimed_pass rp w"
proof -
  have "now_or_utcnow demo_runtime None w = (Inr (Aware demo_now), w\<lparr>ticks := Suc (ticks w)\<rparr>)"
    using assms by (simp add: now_or_utcnow_def utcnow_def demo_runtime_def)
  then show ?thesis
    by (simp add: demo_pass_def demo_claimed_pass_def run_def bindA_Inr week_starts
        del: One_nat_def)
qed

lemma pass_ticks: "ticks pass_world = 0"
  by (simp add: pass_world_def demo_world_def new_world_def)

lemma demo_pass_reports: "reports (demo_pass demo_referral pass_world) True [2, 0, 1, 1, 0]"
  unfolding demo_pass_claimed [OF pass_ticks] by code_simp

lemma demo_outage_reports: "reports (demo_pass demo_referral_down pass_world) True [2, 0, 0, 0, 2]"
  unfolding demo_pass_claimed [OF pass_ticks] by code_simp

lemma pass_ready: "ready 1 pass_world" "sess 1 pass_world" "fresh_job_id demo_runtime pass_world"
  "unique_keys (db pass_world)"
  by (simp_all add: ready_def sess_def fresh_job_id_def unique_keys_def table_unique_def table_defs
      pass_world_def pass_db_def demo_world_def new_world_def others_def demo_db_def empty_db_def
      foreign_channel_def demo_channel_def demo_config_def member_def lapsed_user_def demo_user_def
      lapsed_account_def demo_account_def asc_def demo_membership_def lapsed_subscription_def)

subsection \<open>The pass\<close>

theorem pass_refines_rules_witness:
  "\<exists>rep w' f. demo_pass demo_referral pass_world = (Inr rep, w') \<and> revoked rep = 1 \<and>
     vip_memberships (db w') = [f (member 12 5 1), f (member 13 7 3)]"
proof -
  obtain rep w' where run: "demo_pass demo_referral pass_world = (Inr rep, w')" "revoked rep = 1"
    using reportsD [OF demo_pass_reports] by auto
  have "vip_memberships (db pass_world) = [member 12 5 1, member 13 7 3]"
    by (simp add: pass_world_def pass_db_def)
  with pass_refines_rules [OF pass_ready(1,3,4) run(1) [unfolded demo_pass_def]] run
  show ?thesis by (metis list.simps(8,9))
qed

theorem pass_is_recorded_witness:
  "\<exists>rep w'. demo_pass demo_referral pass_world = (Inr rep, w') \<and>
     (\<exists>x \<in> set (job_executions (db w')). job_state x = SUCCEEDED \<and> job_processed x = 2 \<and> job_revoked x = 1)"
proof -
  obtain rep w' where run: "demo_pass demo_referral pass_world = (Inr rep, w')" "claimed rep"
    and counts: "processed rep = 2" "revoked rep = 1"
    using reportsD [OF demo_pass_reports] by auto
  from pass_is_recorded [OF pass_ready(1,3,4) run(1) [unfolded demo_pass_def] run(2)] run counts
  show ?thesis by metis
qed

theorem pass_isolated_witness:
  "others 1 (db (snd (demo_pass demo_referral pass_world))) = others 1 (db pass_world)"
  unfolding demo_pass_def by (rule pass_isolated [OF pass_ready(2)])

theorem outage_pass_is_silent_witness:
  "\<exists>rep w'. demo_pass demo_referral_down pass_world = (Inr rep, w') \<and> skipped_unavailable rep = 2 \<and>
     vip_memberships (db w') = [member 12 5 1, member 13 7 3] \<and> tg_log w' = []"
proof -
  obtain rep w' where run: "demo_pass demo_referral_down pass_world = (Inr rep, w')"
      "skipped_unavailable rep = 2"
    using reportsD [OF demo_outage_reports] by auto
  have down: "outage demo_referral_down"
    by (auto simp: outage_def demo_referral_down_def mock_referral_provider_def mock_down_def)
  have "in_tx pass_world \<longrightarrow> access_of (start pass_world) = access_of (db pass_world)"
    by (simp add: pass_world_def)
  from outage_pass_is_silent [OF down this run(1) [unfolded demo_pass_def]] run
  show ?thesis by (auto simp: pass_world_def pass_db_def demo_world_def new_world_def)
qed

subsection \<open>A revocation\<close>

definition lapsed_decision :: compliance_decision where
  "lapsed_decision = \<lparr>action = REVOKE, skip_reason = None, warnings_after = 3,
     detail = Some (asc ''insufficient_balance'')\<rparr>"

definition demo_revocation :: "monitor_report res \<times> world" where
  "demo_revocation = apply_action demo_telegram 1 (member 13 7 3) CRYPTO lapsed_decision
     (Aware demo_now) (new_report True week_start) default_policy pass_world"

lemma demo_revocation_reports: "reports demo_revocation True [0, 0, 1, 0, 0]"
  by code_simp

theorem revocation_is_complete_witness:
  "\<exists>rep w' evs. demo_revocation = (Inr rep, w') \<and> revoked rep = 1 \<and>
     tg_log w' = BanChatMember (-100) 888 (Inr ()) # UnbanChatMember (-100) 888 (Inr ()) # evs \<and>
     lapsed_subscription\<lparr>sub_status := SS_EXPIRED, ends_at := Some (Aware demo_now)\<rparr>
       \<in> set (subscriptions (db w'))"
proof -
  obtain rep w' where run: "demo_revocation = (Inr rep, w')"
    using reportsD [OF demo_revocation_reports] by auto
  have tx: "open_tx 1 pass_world" using pass_ready(1) by (simp only: ready_open)
  have pre: "action lapsed_decision = REVOKE" "member 13 7 3 \<in> set (vip_memberships (db pass_world))" "tenant_id (member 13 7 3) = 1"
    by (simp_all add: lapsed_decision_def pass_world_def pass_db_def member_def
        demo_membership_def)
  have "one_or_none (filter (\<lambda>r. tenant_id r = 1 \<and> row_id r = mem_user_id (member 13 7 3))
      (telegram_users (db pass_world))) = Inr (Some lapsed_user)"
    "one_or_none (filter (\<lambda>r. tenant_id r = 1 \<and> ch_market r = CRYPTO \<and> ch_is_active r)
      (channels (db pass_world))) = Inr (Some demo_channel)"
    "find_first (\<lambda>r. tenant_id r = 1 \<and> sub_user_id r = mem_user_id (member 13 7 3) \<and> sub_market r = CRYPTO)
      (subscriptions (db pass_world)) = Some lapsed_subscription"
    by (simp_all add: pass_world_def pass_db_def member_def demo_user_def lapsed_user_def demo_db_def
        foreign_channel_def demo_channel_def lapsed_subscription_def find_first_def)
  moreover have "telegram_user_id lapsed_user = 888" "chat_id demo_channel = -100" "tg_log pass_world = []"
    by (simp_all add: lapsed_user_def demo_channel_def pass_world_def demo_world_def new_world_def)
  ultimately have "revoked rep = 1 \<and> (\<exists>evs. tg_log w' =
      BanChatMember (-100) 888 (Inr ()) # UnbanChatMember (-100) 888 (Inr ()) # evs) \<and>
     lapsed_subscription\<lparr>sub_status := SS_EXPIRED, ends_at := Some (Aware demo_now)\<rparr>
       \<in> set (subscriptions (db w'))"
    using revocation_is_complete [OF pre(1) tx run [unfolded demo_revocation_def] pre(2,3)]
    by (auto simp: Let_def new_report_def)
  with run show ?thesis by blast
qed

subsection \<open>Claims and replays\<close>

theorem claims_are_exclusive_witness:
  "\<exists>x w' env' v'. claim_period demo_runtime 1 JOB_NAME week_start pass_world = (Inr (Some x), w') \<and>
     claim_period env' 1 JOB_NAME week_start (pass_world\<lparr>db := db w'\<rparr>) = (Inr None, v')"
proof -
  have free: "job_executions (db pass_world) = []"
    by (simp add: pass_world_def pass_db_def demo_db_def empty_db_def)
  then have "\<not> period_taken 1 JOB_NAME week_start (job_executions (db pass_world))"
    by (simp add: period_taken_def)
  moreover obtain w' where "if period_taken 1 JOB_NAME week_start (job_executions (db pass_world))
     then claim_period demo_runtime 1 JOB_NAME week_start pass_world = (Inr None, w') \<and>
       db w' = db pass_world
     else \<exists>x. claim_period demo_runtime 1 JOB_NAME week_start pass_world = (Inr (Some x), w') \<and>
       db w' = (db pass_world)\<lparr>job_executions := job_executions (db pass_world) @ [x]\<rparr> \<and>
       tenant_id x = 1 \<and> job_name x = JOB_NAME \<and> job_period_start x = week_start \<and>
       job_state x = RUNNING"
    by (rule claim_period_ready [OF pass_ready(1)]) (simp add: free)
  ultimately obtain x where claim: "claim_period demo_runtime 1 JOB_NAME week_start pass_world = (Inr (Some x), w')"
    and only: "db w' = (db pass_world)\<lparr>job_executions := [x]\<rparr>"
    using free by auto
  let ?env = "demo_runtime\<lparr>uuid4 := \<lambda>_. Suc (row_id x)\<rparr>" and ?v = "pass_world\<lparr>db := db w'\<rparr>"
  have "ready 1 ?v" using pass_ready(1) by (simp add: ready_def)
  then have "\<exists>v'. claim_period ?env 1 JOB_NAME week_start ?v = (Inr None, v')"
    using claims_are_exclusive [OF claim pass_ready(1), of ?v ?env week_start] free only by auto
  with claim show ?thesis by blast
qed

definition next_runtime :: runtime where
  "next_runtime = demo_runtime\<lparr>uuid4 := \<lambda>k. 500 + k\<rparr>"

definition ids_below :: "nat \<Rightarrow> 'a \<times> world \<Rightarrow> bool" where
  "ids_below n x \<longleftrightarrow> (\<forall>r \<in> set (job_executions (db (snd x))). row_id r < n)"

lemma demo_pass_ids: "ids_below 500 (demo_pass demo_referral pass_world)"
  unfolding demo_pass_claimed [OF pass_ticks] by code_simp

theorem replay_is_noop_witness:
  "\<exists>rep w' rep' v'. demo_pass demo_referral pass_world = (Inr rep, w') \<and> claimed rep \<and>
     run next_runtime demo_referral demo_telegram default_policy week 1
       (Some (Aware (demo_now + 3600 * micros_per_second))) (pass_world\<lparr>db := db w'\<rparr>) = (Inr rep', v') \<and>
     \<not> claimed rep' \<and> db v' = db w'"
proof -
  obtain rep w' where run: "demo_pass demo_referral pass_world = (Inr rep, w')" "claimed rep"
    using reportsD [OF demo_pass_reports] by auto
  let ?v = "pass_world\<lparr>db := db w'\<rparr>" and ?now = "Some (Aware (demo_now + 3600 * micros_per_second))"
  have "fresh_job_id next_runtime ?v"
    using demo_pass_ids run(1)
    by (fastforce simp: ids_below_def fresh_job_id_def next_runtime_def)
  moreover have "ready 1 ?v" using pass_ready(1) by (simp add: ready_def)
  moreover have "period_start_for (moment_of next_runtime ?v ?now) week = Inr week_start"
    unfolding moment_of_def option.case by code_simp
  moreover have "period_start_for (moment_of demo_runtime pass_world None) week = Inr week_start"
    using week_starts by (simp add: moment_of_def demo_runtime_def pass_ticks)
  ultimately show ?thesis
    using replay_is_noop [OF pass_ready(1,3,4) run(1) [unfolded demo_pass_def], of ?v next_runtime ?now
        demo_referral demo_telegram default_policy] run
    by fastforce
qed

end
