(* ===== verification/Json.thy ===== *)
theory Json
  imports PyText PyDecimal
begin

text \<open>
  Decoded JSON as Python has it (\<open>dict\<close>, \<open>list\<close>, \<open>str\<close>, \<open>int\<close>, \<open>float\<close>, \<open>bool\<close>, \<open>None\<close>) and the operations
  the adapters apply to it. An object lists its keys without repetition. Of a float, what \<open>int\<close> and \<open>str\<close>
  make of it is kept. Also \<open>Decimal(text)\<close>, the parser of decimal numbers.
\<close>

datatype json =
    JNull
  | JBool bool
  | JInt int
  | JFloat "int res" ustr
  | JStr ustr
  | JList "json list"
  | JObj "(ustr \<times> json) list"

text \<open>The answer to an HTTP request: a decoded body, or the text of an \<open>httpx.HTTPError\<close> or \<open>ValueError\<close> (no connection, timeout, bad
  status, a body that is not JSON).\<close>

datatype http_answer = HttpError ustr | HttpBody json

text \<open>\<open>d.get(key)\<close> and \<open>d[key]\<close>; a value that is not a dictionary has no \<open>get\<close>.\<close>

fun jget :: "ustr \<Rightarrow> json \<Rightarrow> json res" where
  "jget k (JObj kvs) = Inr (case map_of kvs k of None \<Rightarrow> JNull | Some v \<Rightarrow> v)"
| "jget k _ = Inl AttributeError"

fun jindex :: "ustr \<Rightarrow> json \<Rightarrow> json res" where
  "jindex k (JObj kvs) = (case map_of kvs k of None \<Rightarrow> Inl KeyError | Some v \<Rightarrow> Inr v)"
| "jindex k _ = Inl TypeError"

text \<open>Truth of a value. A float is false when it is zero.\<close>

definition zero_float :: "ustr \<Rightarrow> bool" where
  "zero_float s \<longleftrightarrow> s = asc ''0.0'' \<or> s = asc ''-0.0''"

fun truthy :: "json \<Rightarrow> bool" where
  "truthy JNull = False"
| "truthy (JBool b) = b"
| "truthy (JInt i) = (i \<noteq> 0)"
| "truthy (JFloat i s) = (\<not> zero_float s)"
| "truthy (JStr s) = (s \<noteq> [])"
| "truthy (JList xs) = (xs \<noteq> [])"
| "truthy (JObj kvs) = (kvs \<noteq> [])"

text \<open>\<open>x or y\<close>.\<close>

definition jor :: "json \<Rightarrow> json \<Rightarrow> json" where
  "jor x y = (if truthy x then x else y)"

fun is_obj :: "json \<Rightarrow> bool" where
  "is_obj (JObj kvs) = True"
| "is_obj _ = False"

subsection \<open>Decimal(text)\<close>

text \<open>The decimal value of a digit in any script; the digits of a script are ten consecutive code
  points, in the ranges of \<open>nd_ranges\<close>.\<close>

definition digit_value :: "nat \<Rightarrow> nat option" where
  "digit_value c =
     (case filter (\<lambda>(lo, hi). lo \<le> c \<and> c \<le> hi) nd_ranges of
        [] \<Rightarrow> None
      | (lo, _) # _ \<Rightarrow> Some ((c - lo) mod 10))"

fun digits_value :: "nat \<Rightarrow> ustr \<Rightarrow> nat option" where
  "digits_value acc [] = Some acc"
| "digits_value acc (c # cs) =
     (case digit_value c of None \<Rightarrow> None | Some d \<Rightarrow> digits_value (10 * acc + d) cs)"

definition lower_ascii :: "nat \<Rightarrow> nat" where
  "lower_ascii c = (if 65 \<le> c \<and> c \<le> 90 then c + 32 else c)"

definition split_sign :: "ustr \<Rightarrow> bool \<times> ustr" where
  "split_sign s = (case s of [] \<Rightarrow> (False, []) | c # cs \<Rightarrow>
     if c = 45 then (True, cs) else if c = 43 then (False, cs) else (False, s))"

definition exponent_value :: "ustr \<Rightarrow> int option" where
  "exponent_value s =
     (case split_sign s of (neg, ds) \<Rightarrow>
        if ds = [] then None
        else map_option (\<lambda>n. if neg then - int n else int n) (digits_value 0 ds))"

text \<open>A finite number must have an exponent and a magnitude that the C implementation can hold.\<close>

definition representable :: "nat \<Rightarrow> int \<Rightarrow> bool" where
  "representable c e \<longleftrightarrow> c = 0 \<or>
     (e + int (ndigits c) - 1 \<le> 999999999999999999 \<and> -1999999999999999997 \<le> e)"

definition number_of_text :: "bool \<Rightarrow> ustr \<Rightarrow> decimal option" where
  "number_of_text neg s =
     (let mant = takeWhile (\<lambda>c. c \<noteq> 101) s;
          ex = (case dropWhile (\<lambda>c. c \<noteq> 101) s of [] \<Rightarrow> Some 0 | _ # cs \<Rightarrow> exponent_value cs);
          ip = takeWhile (\<lambda>c. c \<noteq> 46) mant;
          fp = drop 1 (dropWhile (\<lambda>c. c \<noteq> 46) mant) in
      if ip @ fp = [] then None
      else case (digits_value 0 (ip @ fp), ex) of
          (Some c, Some e) \<Rightarrow>
            if representable c (e - int (length fp)) then Some (Fin neg c (e - int (length fp))) else None
        | _ \<Rightarrow> None)"

definition decimal_of_text :: "ustr \<Rightarrow> decimal option" where
  "decimal_of_text s =
     (case split_sign (map lower_ascii (filter (\<lambda>c. c \<noteq> 95) (py_strip s))) of (neg, body) \<Rightarrow>
        if body \<in> {asc ''inf'', asc ''infinity''} then Some (Inf neg)
        else if take 3 body = asc ''nan'' \<and> list_all is_nd (drop 3 body) then Some QNaN
        else if take 4 body = asc ''snan'' \<and> list_all is_nd (drop 4 body) then Some SNaN
        else number_of_text neg body)"

text \<open>\<open>Decimal(str(value))\<close> where a failure counts as zero; only numbers and texts can parse.\<close>

fun json_decimal :: "json \<Rightarrow> decimal" where
  "json_decimal (JInt i) = Fin (i < 0) (nat \<bar>i\<bar>) 0"
| "json_decimal (JFloat i s) = (case decimal_of_text s of None \<Rightarrow> dec_zero | Some d \<Rightarrow> d)"
| "json_decimal (JStr s) = (case decimal_of_text s of None \<Rightarrow> dec_zero | Some d \<Rightarrow> d)"
| "json_decimal _ = dec_zero"

subsection \<open>int and str\<close>

text \<open>\<open>int(text)\<close>: white space around it, a sign, and digits of any script with single underscores
  between them; at most 4300 digits.\<close>

fun int_digits :: "nat \<Rightarrow> bool \<Rightarrow> ustr \<Rightarrow> nat option" where
  "int_digits acc after_digit [] = (if after_digit then Some acc else None)"
| "int_digits acc after_digit (c # cs) =
     (if c = 95 then (if after_digit then int_digits acc False cs else None)
      else case digit_value c of
          None \<Rightarrow> None
        | Some d \<Rightarrow> int_digits (10 * acc + d) True cs)"

definition int_of_text :: "ustr \<Rightarrow> int res" where
  "int_of_text s =
     (case split_sign (py_strip s) of (neg, body) \<Rightarrow>
        if 4300 < length (filter is_nd body) then Inl ValueError
        else case int_digits 0 False body of
            None \<Rightarrow> Inl ValueError
          | Some n \<Rightarrow> Inr (if neg then - int n else int n))"

fun json_int :: "json \<Rightarrow> int res" where
  "json_int (JInt i) = Inr i"
| "json_int (JBool b) = Inr (if b then 1 else 0)"
| "json_int (JFloat i s) = i"
| "json_int (JStr s) = int_of_text s"
| "json_int _ = Inl TypeError"

text \<open>\<open>str(value)\<close>; lists and dictionaries by the given \<open>repr\<close>.\<close>

fun json_str :: "(json \<Rightarrow> ustr) \<Rightarrow> json \<Rightarrow> ustr" where
  "json_str repr JNull = asc ''None''"
| "json_str repr (JBool b) = (if b then asc ''True'' else asc ''False'')"
| "json_str repr (JInt i) = int_str i"
| "json_str repr (JFloat i s) = s"
| "json_str repr (JStr s) = s"
| "json_str repr v = repr v"

text \<open>A field that the API documents as an optional text; a value of another type counts as absent.\<close>

fun json_text :: "json \<Rightarrow> ustr option" where
  "json_text (JStr s) = Some s"
| "json_text _ = None"

lemma jget_Inr: "jget k v = Inr x \<longleftrightarrow> (\<exists>kvs. v = JObj kvs \<and> x = (case map_of kvs k of None \<Rightarrow> JNull | Some y \<Rightarrow> y))"
  by (cases v) auto

lemma jindex_Inr: "jindex k v = Inr x \<longleftrightarrow> (\<exists>kvs. v = JObj kvs \<and> map_of kvs k = Some x)"
  by (cases v) (auto split: option.splits)

end
