(* ===== verification/Sha1.thy ===== *)
theory Sha1
  imports PyText PyDecimal "HOL-Library.Word"
begin

unbundle bit_operations_syntax

text \<open>
  The two standard-library functions behind the exchange's signature: \<open>str.encode\<close> (UTF-8, which
  refuses surrogates) and \<open>hashlib.sha1(...).hexdigest()\<close>, on lists of bytes and 32-bit words.
\<close>

subsection \<open>UTF-8\<close>

definition utf8_char :: "nat \<Rightarrow> nat list" where
  "utf8_char c =
     (if c < 128 then [c]
      else if c < 2048 then [192 + c div 64, 128 + c mod 64]
      else if c < 65536 then [224 + c div 4096, 128 + c div 64 mod 64, 128 + c mod 64]
      else [240 + c div 262144, 128 + c div 4096 mod 64, 128 + c div 64 mod 64, 128 + c mod 64])"

definition surrogate :: "nat \<Rightarrow> bool" where
  "surrogate c \<longleftrightarrow> 55296 \<le> c \<and> c \<le> 57343"

definition utf8_encode :: "ustr \<Rightarrow> nat list res" where
  "utf8_encode s = (if list_ex surrogate s then Inl ValueError else Inr (concat (map utf8_char s)))"

subsection \<open>The hash\<close>

type_synonym word32 = "32 word"

definition be_bytes :: "nat \<Rightarrow> nat \<Rightarrow> nat list" where
  "be_bytes k n = map (\<lambda>i. n div 256 ^ (k - 1 - i) mod 256) [0..<k]"

definition padded :: "nat list \<Rightarrow> nat list" where
  "padded m = m @ [128] @ replicate ((119 - length m mod 64) mod 64) 0 @ be_bytes 8 (8 * length m)"

fun words_of :: "nat list \<Rightarrow> word32 list" where
  "words_of (a # b # c # d # rest) =
     word_of_nat (((a * 256 + b) * 256 + c) * 256 + d) # words_of rest"
| "words_of _ = []"

text \<open>The message schedule, newest word first.\<close>

fun schedule :: "nat \<Rightarrow> word32 list \<Rightarrow> word32 list" where
  "schedule 0 ws = ws"
| "schedule (Suc n) ws = schedule n (word_rotl 1 (ws ! 2 XOR ws ! 7 XOR ws ! 13 XOR ws ! 15) # ws)"

type_synonym sha_state = "word32 \<times> word32 \<times> word32 \<times> word32 \<times> word32"

definition round_fun :: "nat \<Rightarrow> word32 \<Rightarrow> word32 \<Rightarrow> word32 \<Rightarrow> word32 \<times> word32" where
  "round_fun t b c d =
     (if t < 20 then ((b AND c) OR (NOT b AND d), 0x5A827999)
      else if t < 40 then (b XOR c XOR d, 0x6ED9EBA1)
      else if t < 60 then ((b AND c) OR (b AND d) OR (c AND d), 0x8F1BBCDC)
      else (b XOR c XOR d, 0xCA62C1D6))"

fun sha_rounds :: "nat \<Rightarrow> word32 list \<Rightarrow> sha_state \<Rightarrow> sha_state" where
  "sha_rounds t [] s = s"
| "sha_rounds t (w # ws) (a, b, c, d, e) =
     (case round_fun t b c d of
        (f, k) \<Rightarrow> sha_rounds (Suc t) ws (word_rotl 5 a + f + e + k + w, a, word_rotl 30 b, c, d))"

definition sha_block :: "word32 list \<Rightarrow> sha_state \<Rightarrow> sha_state" where
  "sha_block ws h =
     (case (h, sha_rounds 0 (rev (schedule 64 (rev ws))) h) of
        ((a, b, c, d, e), (a', b', c', d', e')) \<Rightarrow> (a + a', b + b', c + c', d + d', e + e'))"

fun sha_blocks :: "nat \<Rightarrow> word32 list \<Rightarrow> sha_state \<Rightarrow> sha_state" where
  "sha_blocks 0 ws h = h"
| "sha_blocks (Suc n) ws h = sha_blocks n (drop 16 ws) (sha_block (take 16 ws) h)"

definition sha1_init :: sha_state where
  "sha1_init = (0x67452301, 0xEFCDAB89, 0x98BADCFE, 0x10325476, 0xC3D2E1F0)"

definition sha1 :: "nat list \<Rightarrow> nat list" where
  "sha1 m =
     (let ws = words_of (padded m) in
      case sha_blocks (length ws div 16) ws sha1_init of
        (a, b, c, d, e) \<Rightarrow> concat (map (\<lambda>x. be_bytes 4 (unat x)) [a, b, c, d, e]))"

definition hex_char :: "nat \<Rightarrow> nat" where
  "hex_char d = (if d < 10 then 48 + d else 87 + d)"

definition hexdigest :: "nat list \<Rightarrow> ustr" where
  "hexdigest bs = concat (map (\<lambda>b. [hex_char (b div 16), hex_char (b mod 16)]) bs)"

lemma length_sha1: "length (sha1 m) = 20"
  by (simp add: sha1_def Let_def be_bytes_def split: prod.split)

lemma sha1_bytes: "b \<in> set (sha1 m) \<Longrightarrow> b < 256"
  by (auto simp: sha1_def Let_def be_bytes_def split: prod.splits)

lemma length_hexdigest: "length (hexdigest bs) = 2 * length bs"
  by (induction bs) (simp_all add: hexdigest_def)

lemma hexdigest_chars:
  assumes "c \<in> set (hexdigest bs)" and "\<forall>b \<in> set bs. b < 256"
  shows "c \<in> set (asc ''0123456789abcdef'')"
proof -
  obtain b where b: "b \<in> set bs" "c = hex_char (b div 16) \<or> c = hex_char (b mod 16)"
    using assms(1) by (auto simp: hexdigest_def)
  then have "b div 16 < 16" "b mod 16 < 16" using assms(2) by (auto simp: less_mult_imp_div_less)
  moreover have "list_all (\<lambda>n. hex_char n \<in> set (asc ''0123456789abcdef'')) [0..<16]" by code_simp
  ultimately show ?thesis using b(2) by (auto simp: list_all_iff)
qed

end
