(* ===== verification/Bitunix.thy ===== *)
theory Bitunix
  imports Json Sha1 Ports "HOL-Library.Multiset" "HOL-Library.Product_Lexorder"
    "HOL-Library.Code_Target_Nat"
begin

text \<open>
  \<open>app/adapters/providers/bitunix.py\<close>: the exchange adapter. The HTTP client is a parameter: what one
  \<open>post\<close>, \<open>raise_for_status\<close> and \<open>json\<close> come to, as a function of the calls made before.
\<close>

record bitunix_api =
  bx_post :: "ustr list \<Rightarrow> ustr \<Rightarrow> (ustr \<times> ustr) list \<Rightarrow> (ustr \<times> ustr) list \<Rightarrow> http_answer"
  bx_time :: "ustr list \<Rightarrow> int"
  bx_repr :: "json \<Rightarrow> ustr"

definition BITUNIX_BASE_URL :: ustr where
  "BITUNIX_BASE_URL = asc ''https://partners.bitunix.com''"

definition VALIDATE_USER_PATH :: ustr where
  "VALIDATE_USER_PATH = asc ''/partner/api/v2/openapi/validateUser''"

definition DEPOSIT_FIELDS :: "ustr list" where
  "DEPOSIT_FIELDS =
     [asc ''deposit_usdt_Onchain'', asc ''deposit_usdt_Internal'', asc ''deposit_usdt_OTC'']"

record bitunix_credentials =
  bx_api_key :: ustr
  bx_api_secret :: ustr

subsection \<open>The signature\<close>

text \<open>Keys are ASCII, so lower case is tested there; an empty key has no first character.\<close>

fun param_type :: "ustr \<Rightarrow> nat res" where
  "param_type [] = Inl IndexError"
| "param_type (c # cs) =
     Inr (if is_digit_char c then 1 else if 97 \<le> c \<and> c \<le> 122 then 2 else 3)"

definition sort_rank :: "ustr \<Rightarrow> nat \<times> nat" where
  "sort_rank k = (case param_type k of Inl e \<Rightarrow> 0 | Inr n \<Rightarrow> n, sum_list k)"

definition sign :: "(ustr \<times> ustr) list \<Rightarrow> ustr \<Rightarrow> ustr res" where
  "sign params secret =
     (if \<exists>p \<in> set params. fst p = [] then Inl IndexError
      else
        bindR (utf8_encode (concat (map snd (sort_key (sort_rank \<circ> fst) params)) @ secret)) (\<lambda>bs.
          Inr (hexdigest (sha1 bs))))"

subsection \<open>The answer\<close>

definition to_decimal :: "json \<Rightarrow> decimal" where
  "to_decimal v = json_decimal v"

fun sum_decimals :: "decimal \<Rightarrow> decimal list \<Rightarrow> decimal res" where
  "sum_decimals acc [] = Inr acc"
| "sum_decimals acc (d # ds) = bindR (dec_add acc d) (\<lambda>acc'. sum_decimals acc' ds)"

definition field :: "json \<Rightarrow> ustr \<Rightarrow> json" where
  "field obj k = (case jget k obj of Inl e \<Rightarrow> JNull | Inr v \<Rightarrow> v)"

definition parse_user :: "(json \<Rightarrow> ustr) \<Rightarrow> ustr \<Rightarrow> json \<Rightarrow> referral_check res" where
  "parse_user repr u payload =
     bindR (jget (asc ''result'') payload) (\<lambda>r.
       let result = jor r (JObj []) in
       if \<not> is_obj result then
         Inl (ProviderUnavailableError
           (asc ''Bitunix validateUser returned an unexpected body: '' @ repr payload))
       else
         bindR (sum_decimals dec_zero (map (\<lambda>f. to_decimal (field result f)) DEPOSIT_FIELDS)) (\<lambda>total.
           Inr \<lparr>chk_uid = u, registered = (field result (asc ''result'') = JBool True),
                deposit_total = total, qualifying_trades = None\<rparr>))"

definition bitunix_validate ::
  "bitunix_api \<Rightarrow> bitunix_credentials \<Rightarrow> ustr list \<Rightarrow> ustr \<Rightarrow> referral_check res" where
  "bitunix_validate api creds h u =
     (let params = [(asc ''account'', u), (asc ''timestamp'', int_str (bx_time api h))] in
      bindR (sign params (bx_api_secret creds)) (\<lambda>sig.
        case bx_post api h (BITUNIX_BASE_URL @ VALIDATE_USER_PATH) params
               [(asc ''apiKey'', bx_api_key creds), (asc ''signature'', sig)] of
          HttpError txt \<Rightarrow> Inl (ProviderUnavailableError (asc ''Bitunix validateUser failed: '' @ txt))
        | HttpBody payload \<Rightarrow> parse_user (bx_repr api) u payload))"

definition bitunix_provider :: "bitunix_api \<Rightarrow> bitunix_credentials \<Rightarrow> referral_provider" where
  "bitunix_provider api creds =
     \<lparr>rp_provider_type = BITUNIX, rp_validate_user = bitunix_validate api creds\<rparr>"

subsection \<open>Properties of the signature\<close>

lemma sort_params_cong:
  assumes "mset ps = mset qs" and "inj_on (sort_rank \<circ> fst) (set ps)"
  shows "sort_key (sort_rank \<circ> fst) ps = sort_key (sort_rank \<circ> fst) qs"
  using assms by (intro sort_key_inj_key_eq) simp_all

text \<open>The signature does not depend on the order in which the parameters were put into the
  dictionary, as long as no two of them share a rank (character class and code sum), which holds of the
  two that the adapter sends; it is always 40 lower-case hexadecimal digits.\<close>

theorem signature_order_free:
  assumes "mset ps = mset qs" and "inj_on (sort_rank \<circ> fst) (set ps)" and "sign ps secret = Inr s"
  shows "sign qs secret = Inr s \<and> length s = 40 \<and> set s \<subseteq> set (asc ''0123456789abcdef'')"
proof -
  have same: "set qs = set ps" using assms(1) by (metis set_mset_mset)
  have "sign qs secret = sign ps secret"
    unfolding sign_def same sort_params_cong [OF assms(1,2)] by (rule refl)
  moreover have "\<exists>bs. s = hexdigest (sha1 bs)"
    using assms(3) by (auto simp: sign_def res_simps split: if_splits)
  then have "length s = 40 \<and> set s \<subseteq> set (asc ''0123456789abcdef'')"
    using length_sha1 sha1_bytes by (auto simp: length_hexdigest dest!: hexdigest_chars)
  ultimately show ?thesis using assms(3) by simp
qed

lemma sign_InrI:
  assumes "\<forall>p \<in> set ps. fst p \<noteq> [] \<and> \<not> list_ex surrogate (snd p)" and "\<not> list_ex surrogate secret"
  shows "\<exists>s. sign ps secret = Inr s"
  using assms by (auto simp: sign_def utf8_encode_def list_ex_iff)

lemma sent_ranks: "sort_rank (asc ''account'') < sort_rank (asc ''timestamp'')"
  by code_simp

lemma no_surrogates:
  "asc ''account'' \<noteq> []" "asc ''timestamp'' \<noteq> []" "\<not> list_ex surrogate (asc ''123456789'')"
  "\<not> list_ex surrogate (int_str 1700000000)" "\<not> list_ex surrogate (asc ''SECRET'')"
  by code_simp+

theorem signature_order_free_witness:
  "sign [(asc ''timestamp'', int_str 1700000000), (asc ''account'', asc ''123456789'')] (asc ''SECRET'') =
     sign [(asc ''account'', asc ''123456789''), (asc ''timestamp'', int_str 1700000000)] (asc ''SECRET'')"
proof -
  let ?ps = "[(asc ''account'', asc ''123456789''), (asc ''timestamp'', int_str 1700000000)]"
  let ?qs = "[(asc ''timestamp'', int_str 1700000000), (asc ''account'', asc ''123456789'')]"
  have inj: "inj_on (sort_rank \<circ> fst) (set ?ps)" using sent_ranks by auto
  obtain s where s: "sign ?ps (asc ''SECRET'') = Inr s"
    using sign_InrI [of ?ps] no_surrogates by auto
  have "mset ?ps = mset ?qs" by simp
  from signature_order_free [OF this inj s] s show ?thesis by simp
qed

subsection \<open>What the answer can say\<close>

lemma parse_user_InrD:
  assumes "parse_user repr u payload = Inr ck"
  shows "chk_uid ck = u" "qualifying_trades ck = None"
  using assms by (auto simp: parse_user_def res_simps Let_def split: if_splits)

lemma validate_InrD:
  assumes "bitunix_validate api creds h u = Inr ck"
  shows "\<exists>payload. parse_user (bx_repr api) u payload = Inr ck"
proof -
  obtain sg where "(case bx_post api h (BITUNIX_BASE_URL @ VALIDATE_USER_PATH)
        [(asc ''account'', u), (asc ''timestamp'', int_str (bx_time api h))]
        [(asc ''apiKey'', bx_api_key creds), (asc ''signature'', sg)] of
      HttpError txt \<Rightarrow> Inl (ProviderUnavailableError (asc ''Bitunix validateUser failed: '' @ txt))
    | HttpBody payload \<Rightarrow> parse_user (bx_repr api) u payload) = Inr ck"
    using assms by (auto simp: bitunix_validate_def Let_def bindR_eq_Inr)
  then show ?thesis by (cases "bx_post api h (BITUNIX_BASE_URL @ VALIDATE_USER_PATH)
        [(asc ''account'', u), (asc ''timestamp'', int_str (bx_time api h))]
        [(asc ''apiKey'', bx_api_key creds), (asc ''signature'', sg)]") auto
qed

text \<open>The exchange adapter never reports trading activity, so on the monitoring pass, where trading
  is required, no check of this provider ever comes out eligible, nor as insufficient trading: a member
  who is registered and funded is always recorded as PROVIDER_UNAVAILABLE.\<close>

theorem bitunix_never_confirms_trading:
  assumes "bitunix_validate api creds h u = Inr ck"
    and "evaluate_referral (Some ck) rules True = Inr v"
  shows "\<not> eligible v \<and> v_reason v \<noteq> INSUFFICIENT_TRADING \<and>
    (registered ck \<and> v_reason v \<noteq> INSUFFICIENT_BALANCE \<longrightarrow>
       v_compliance_state v = CS_PROVIDER_UNAVAILABLE)"
  using assms(2) validate_InrD [OF assms(1)] parse_user_InrD(2)
  by (auto simp: evaluate_referral_def eligible_def res_simps split: if_splits)

text \<open>An error the exchange reports in a body of its own, with a null or missing \<open>result\<close> (a rejected
  signature or key, say), is taken for an answer about the account: not registered and without
  deposits, a failure of the member in both flows.\<close>

theorem error_body_reads_as_unregistered:
  assumes "map_of kvs (asc ''result'') = None \<or> map_of kvs (asc ''result'') = Some JNull"
  shows "parse_user repr u (JObj kvs) = Inr \<lparr>chk_uid = u, registered = False,
      deposit_total = dec_zero, qualifying_trades = None\<rparr> \<and>
    (\<exists>v. evaluate_referral (Some \<lparr>chk_uid = u, registered = False, deposit_total = dec_zero,
        qualifying_trades = None\<rparr>) rules rt = Inr v \<and> v_reason v = NOT_REGISTERED \<and>
        v_compliance_state v = CS_NON_COMPLIANT)"
proof -
  have "jget (asc ''result'') (JObj kvs) = Inr JNull" using assms by auto
  moreover have "sum_decimals dec_zero [dec_zero, dec_zero, dec_zero] = Inr dec_zero" by code_simp
  ultimately show ?thesis
    by (simp add: parse_user_def jor_def field_def DEPOSIT_FIELDS_def to_decimal_def evaluate_referral_def)
qed

theorem error_body_reads_as_unregistered_witness:
  "\<exists>ck. parse_user (\<lambda>_. []) (asc ''123456789'')
     (JObj [(asc ''code'', JInt 10003), (asc ''msg'', JStr (asc ''sign error'')), (asc ''result'', JNull)])
     = Inr ck \<and> \<not> registered ck"
proof -
  have "map_of [(asc ''code'', JInt 10003), (asc ''msg'', JStr (asc ''sign error'')), (asc ''result'', JNull)]
      (asc ''result'') = Some JNull"
    by code_simp
  from error_body_reads_as_unregistered [OF disjI2 [OF this], of "\<lambda>_. []" "asc ''123456789''"]
  have "parse_user (\<lambda>_. []) (asc ''123456789'') (JObj [(asc ''code'', JInt 10003),
      (asc ''msg'', JStr (asc ''sign error'')), (asc ''result'', JNull)]) =
    Inr \<lparr>chk_uid = asc ''123456789'', registered = False, deposit_total = dec_zero,
      qualifying_trades = None\<rparr>"
    by blast
  then show ?thesis by (metis referral_check.select_convs(2))
qed

end
