(* ===== verification/TelegramApi.thy ===== *)
theory TelegramApi
  imports Json PeriodLock
begin

text \<open>
  \<open>app/adapters/providers/telegram.py\<close>: the Bot API adapter. The HTTP client is a parameter: what one
  \<open>post\<close> and \<open>json\<close> come to (for an error, the name of the exception's class).
\<close>

record telegram_api =
  tg_post :: "tg_event list \<Rightarrow> ustr \<Rightarrow> json \<Rightarrow> http_answer"
  tg_repr :: "json \<Rightarrow> ustr"
  tg_local_time :: "int \<Rightarrow> int"

definition TELEGRAM_API_BASE :: ustr where
  "TELEGRAM_API_BASE = asc ''https://api.telegram.org''"

definition api_url :: "ustr \<Rightarrow> ustr \<Rightarrow> ustr" where
  "api_url tok meth = TELEGRAM_API_BASE @ asc ''/bot'' @ tok @ asc ''/'' @ meth"

text \<open>\<open>_call\<close>: what the answer to a request comes to, and the request.\<close>

definition read_answer :: "(json \<Rightarrow> ustr) \<Rightarrow> ustr \<Rightarrow> http_answer \<Rightarrow> json res" where
  "read_answer repr meth ans =
     (case ans of
        HttpError cls \<Rightarrow>
          Inl (ProviderUnavailableError (asc ''Telegram '' @ meth @ asc '' failed: '' @ cls))
      | HttpBody data \<Rightarrow>
          bindR (jget (asc ''ok'') data) (\<lambda>ok.
            if \<not> truthy ok then
              bindR (jget (asc ''error_code'') data) (\<lambda>code.
              bindR (jget (asc ''description'') data) (\<lambda>desc.
              Inl (ProviderUnavailableError (asc ''Telegram '' @ meth @ asc '' returned '' @
                json_str repr code @ asc '': '' @ json_str repr desc))))
            else jget (asc ''result'') data))"

definition tg_call ::
  "telegram_api \<Rightarrow> ustr \<Rightarrow> tg_event list \<Rightarrow> ustr \<Rightarrow> (ustr \<times> json) list \<Rightarrow> json res" where
  "tg_call api tok h meth payload =
     read_answer (tg_repr api) meth
       (tg_post api h (api_url tok meth) (JObj (filter (\<lambda>(k, v). v \<noteq> JNull) payload)))"

definition bot_get_me :: "telegram_api \<Rightarrow> ustr \<Rightarrow> tg_event list \<Rightarrow> bot_identity res" where
  "bot_get_me api tok h =
     bindR (tg_call api tok h (asc ''getMe'') []) (\<lambda>result.
     bindR (jindex (asc ''id'') result) (\<lambda>i.
     bindR (json_int i) (\<lambda>n.
     bindR (jget (asc ''username'') result) (\<lambda>u.
     Inr \<lparr>bot_id = n, bot_name = json_text u\<rparr>))))"

text \<open>\<open>int(moment.timestamp())\<close>: a naive moment is local time.\<close>

definition trunc :: "rat \<Rightarrow> int" where
  "trunc x = (if x < 0 then - \<lfloor>- x\<rfloor> else \<lfloor>x\<rfloor>)"

fun timestamp :: "telegram_api \<Rightarrow> datetime \<Rightarrow> int" where
  "timestamp api (Aware m) = trunc (total_seconds m)"
| "timestamp api (Naive m) = trunc (total_seconds (tg_local_time api m))"

definition opt_json :: "('a \<Rightarrow> json) \<Rightarrow> 'a option \<Rightarrow> json" where
  "opt_json f x = (case x of None \<Rightarrow> JNull | Some y \<Rightarrow> f y)"

definition bot_create_invite_link ::
  "telegram_api \<Rightarrow> ustr \<Rightarrow> tg_event list \<Rightarrow> int \<Rightarrow> int \<Rightarrow> datetime option \<Rightarrow> ustr option \<Rightarrow> ustr res" where
  "bot_create_invite_link api tok h chat limit expire nm =
     bindR (tg_call api tok h (asc ''createChatInviteLink'')
       [(asc ''chat_id'', JInt chat), (asc ''member_limit'', JInt limit),
        (asc ''expire_date'', opt_json (JInt \<circ> timestamp api) expire), (asc ''name'', opt_json JStr nm)])
       (\<lambda>result. bindR (jindex (asc ''invite_link'') result) (\<lambda>l. Inr (json_str (tg_repr api) l)))"

definition unknown_status :: "telegram_api \<Rightarrow> json \<Rightarrow> exn" where
  "unknown_status api s = ProviderUnavailableError
     (asc ''Telegram returned an unknown chat member status: '' @ tg_repr api s)"

fun read_status :: "telegram_api \<Rightarrow> json \<Rightarrow> chat_member_status res" where
  "read_status api (JStr v) =
     (case chat_member_status_of v of Inr st \<Rightarrow> Inr st | Inl e \<Rightarrow> Inl (unknown_status api (JStr v)))"
| "read_status api s = Inl (unknown_status api s)"

definition bot_get_chat_member ::
  "telegram_api \<Rightarrow> ustr \<Rightarrow> tg_event list \<Rightarrow> int \<Rightarrow> int \<Rightarrow> chat_member_status res" where
  "bot_get_chat_member api tok h chat user =
     bindR (tg_call api tok h (asc ''getChatMember'')
       [(asc ''chat_id'', JInt chat), (asc ''user_id'', JInt user)]) (\<lambda>result.
     bindR (jindex (asc ''status'') result) (read_status api))"

definition bot_ban_chat_member :: "telegram_api \<Rightarrow> ustr \<Rightarrow> tg_event list \<Rightarrow> int \<Rightarrow> int \<Rightarrow> unit res" where
  "bot_ban_chat_member api tok h chat user =
     bindR (tg_call api tok h (asc ''banChatMember'')
       [(asc ''chat_id'', JInt chat), (asc ''user_id'', JInt user)]) (\<lambda>_. Inr ())"

definition bot_unban_chat_member :: "telegram_api \<Rightarrow> ustr \<Rightarrow> tg_event list \<Rightarrow> int \<Rightarrow> int \<Rightarrow> unit res" where
  "bot_unban_chat_member api tok h chat user =
     bindR (tg_call api tok h (asc ''unbanChatMember'')
       [(asc ''chat_id'', JInt chat), (asc ''user_id'', JInt user), (asc ''only_if_banned'', JBool True)])
       (\<lambda>_. Inr ())"

text \<open>The inline keyboard of a reply: rows of buttons with a label and the data of the callback.\<close>

definition keyboard_json :: "reply_markup \<Rightarrow> json" where
  "keyboard_json rows =
     JObj [(asc ''inline_keyboard'', JList (map (\<lambda>row. JList (map (\<lambda>(label, cb).
       JObj [(asc ''text'', JStr label), (asc ''callback_data'', JStr cb)]) row)) rows))]"

definition bot_send_message ::
  "telegram_api \<Rightarrow> ustr \<Rightarrow> tg_event list \<Rightarrow> int \<Rightarrow> ustr \<Rightarrow> reply_markup option \<Rightarrow> unit res" where
  "bot_send_message api tok h chat txt markup =
     bindR (tg_call api tok h (asc ''sendMessage'')
       [(asc ''chat_id'', JInt chat), (asc ''text'', JStr txt), (asc ''parse_mode'', JStr (asc ''HTML'')),
        (asc ''reply_markup'', opt_json keyboard_json markup)]) (\<lambda>_. Inr ())"

definition telegram_bot_provider :: "telegram_api \<Rightarrow> ustr \<Rightarrow> telegram_provider" where
  "telegram_bot_provider api tok =
     \<lparr>tp_get_me = bot_get_me api tok, tp_create_invite_link = bot_create_invite_link api tok,
      tp_get_chat_member = bot_get_chat_member api tok,
      tp_ban_chat_member = bot_ban_chat_member api tok,
      tp_unban_chat_member = bot_unban_chat_member api tok,
      tp_send_message = bot_send_message api tok\<rparr>"

subsection \<open>What a caller sees\<close>

lemma read_answer_ok:
  assumes "read_answer repr meth ans = Inr result"
  shows "\<exists>kvs ok. ans = HttpBody (JObj kvs) \<and> map_of kvs (asc ''ok'') = Some ok \<and> truthy ok \<and>
    result = (case map_of kvs (asc ''result'') of None \<Rightarrow> JNull | Some v \<Rightarrow> v)"
  using assms
  by (auto simp: read_answer_def res_simps jget_Inr split: http_answer.splits if_splits option.splits)

lemma read_status_Inr:
  "read_status api s = Inr st \<Longrightarrow> \<exists>v. s = JStr v \<and> chat_member_status_of v = Inr st"
  by (cases s) (auto split: sum.splits)

text \<open>A channel member's status is only ever the one Telegram gave: a returned status was in the body
  of a request that Telegram marked as ok, spelled as the enumeration spells it. A request that failed, a body marked
  as failed and a status the enumeration does not have are never taken for an absent member.\<close>

theorem membership_is_never_guessed:
  assumes "bot_get_chat_member api tok h chat user = Inr st"
  shows "\<exists>kvs ok result. tg_post api h (api_url tok (asc ''getChatMember''))
        (JObj [(asc ''chat_id'', JInt chat), (asc ''user_id'', JInt user)]) = HttpBody (JObj kvs) \<and>
      map_of kvs (asc ''ok'') = Some ok \<and> truthy ok \<and> map_of kvs (asc ''result'') = Some (JObj result) \<and>
      map_of result (asc ''status'') = Some (JStr (chat_member_status_value st))"
proof -
  from assms obtain result v where
    call: "tg_call api tok h (asc ''getChatMember'') [(asc ''chat_id'', JInt chat), (asc ''user_id'', JInt user)]
      = Inr result"
    and v: "jindex (asc ''status'') result = Inr (JStr v)" "chat_member_status_of v = Inr st"
    by (auto simp: bot_get_chat_member_def res_simps dest!: read_status_Inr)
  from call read_answer_ok obtain kvs ok where
    "tg_post api h (api_url tok (asc ''getChatMember''))
        (JObj [(asc ''chat_id'', JInt chat), (asc ''user_id'', JInt user)]) = HttpBody (JObj kvs)"
    "map_of kvs (asc ''ok'') = Some ok" "truthy ok"
    "result = (case map_of kvs (asc ''result'') of None \<Rightarrow> JNull | Some v \<Rightarrow> v)"
    unfolding tg_call_def by fastforce
  moreover have "v = chat_member_status_value st"
    using v(2) by (auto simp: chat_member_status_of_def split: option.splits dest!: find_first_SomeD)
  ultimately show ?thesis using v(1) by (fastforce simp: jindex_Inr split: option.splits)
qed

text \<open>The bot token reaches nobody but Telegram: what a call returns or raises is a function of
  the answer alone, so with the same answers two tokens give the same results and the same error
  texts, whatever the method.\<close>

theorem token_stays_out_of_results:
  assumes "\<And>h meth body. tg_post api h (api_url tok meth) body = tg_post api h (api_url tok' meth) body"
  shows "telegram_bot_provider api tok = telegram_bot_provider api tok'"
proof -
  have "tg_call api tok = tg_call api tok'"
    by (intro ext) (simp add: tg_call_def assms)
  then show ?thesis
    by (simp add: telegram_bot_provider_def bot_get_me_def bot_create_invite_link_def fun_eq_iff
        bot_get_chat_member_def bot_ban_chat_member_def bot_unban_chat_member_def bot_send_message_def)
qed

end
