(* ===== verification/Credentials.thy ===== *)
theory Credentials
  imports Bitunix TelegramApi Repositories
begin

text \<open>
  \<open>app/core/crypto.py\<close> and \<open>app/services/provider_factory.py\<close>: sealing a tenant's secrets, and building
  that tenant's providers from them. Fernet is a parameter: which keys it accepts, how it encrypts (the
  token depends on fresh randomness, here the next draw) and how it decrypts, with \<open>None\<close> for
  \<open>InvalidToken\<close>. The theorems that need it assume what its documentation promises, that decrypting
  with the same key gives the text back.
\<close>

record cipher_env =
  ce_key :: "ustr option"
  ce_accepts :: "ustr \<Rightarrow> bool"
  ce_encrypt :: "ustr \<Rightarrow> nat \<Rightarrow> ustr \<Rightarrow> ustr"
  ce_decrypt :: "ustr \<Rightarrow> ustr \<Rightarrow> ustr option"

definition ENCRYPTION_KEY_ENV :: ustr where
  "ENCRYPTION_KEY_ENV = asc ''CREDENTIAL_ENCRYPTION_KEY''"

text \<open>\<open>_cipher()\<close>: the key of the environment, which does not change while the process runs.\<close>

definition cipher_key :: "cipher_env \<Rightarrow> ustr res" where
  "cipher_key env =
     (case ce_key env of
        None \<Rightarrow> Inl (CredentialEncryptionError (ENCRYPTION_KEY_ENV @ asc '' is not set''))
      | Some k \<Rightarrow>
          if k = [] then Inl (CredentialEncryptionError (ENCRYPTION_KEY_ENV @ asc '' is not set''))
          else if \<not> ce_accepts env k then
            Inl (CredentialEncryptionError (ENCRYPTION_KEY_ENV @ asc '' is not a valid Fernet key''))
          else Inr k)"

definition encodable :: "ustr \<Rightarrow> bool" where
  "encodable s \<longleftrightarrow> \<not> list_ex surrogate s"

definition encrypt_secret :: "cipher_env \<Rightarrow> ustr \<Rightarrow> ustr act" where
  "encrypt_secret env plain =
     (if plain = [] then raiseA (CredentialEncryptionError (asc ''refusing to store an empty secret''))
      else
        bindA (liftR (cipher_key env)) (\<lambda>k.
        if \<not> encodable plain then raiseA ValueError
        else (\<lambda>w. (Inr (ce_encrypt env k (draws w) plain), w\<lparr>draws := Suc (draws w)\<rparr>))))"

definition decrypt_secret :: "cipher_env \<Rightarrow> ustr \<Rightarrow> ustr res" where
  "decrypt_secret env cipher =
     bindR (cipher_key env) (\<lambda>k.
       if \<not> encodable cipher then Inl ValueError
       else case ce_decrypt env k cipher of
           None \<Rightarrow> Inl (CredentialEncryptionError (asc ''stored credential could not be decrypted''))
         | Some plain \<Rightarrow> Inr plain)"

definition last_four :: "ustr \<Rightarrow> ustr" where
  "last_four plain = (if 4 \<le> length plain then drop (length plain - 4) plain else [])"

subsection \<open>The provider factory\<close>

definition BITUNIX_API_KEY :: ustr where "BITUNIX_API_KEY = asc ''api_key''"
definition BITUNIX_API_SECRET :: ustr where "BITUNIX_API_SECRET = asc ''api_secret''"
definition TELEGRAM_BOT_TOKEN :: ustr where "TELEGRAM_BOT_TOKEN = asc ''bot_token''"

text \<open>The process: its clock and UUIDs, its encryption key and the two HTTP services.\<close>

record deployment =
  dep_runtime :: runtime
  dep_cipher :: cipher_env
  dep_bitunix :: bitunix_api
  dep_telegram :: telegram_api

definition quoted :: "ustr \<Rightarrow> ustr" where
  "quoted s = [39] @ s @ [39]"

definition secret :: "deployment \<Rightarrow> uuid \<Rightarrow> provider_type \<Rightarrow> ustr \<Rightarrow> ustr act" where
  "secret dep t pt nm =
     bindA (get_named t pt nm) (\<lambda>r.
     case r of
       None \<Rightarrow> raiseA (MissingCredentialError
         (asc ''tenant has no '' @ provider_type_value pt @ asc '' credential named '' @ quoted nm))
     | Some c \<Rightarrow> liftR (decrypt_secret (dep_cipher dep) (encrypted_secret c)))"

definition factory_referral :: "deployment \<Rightarrow> uuid \<Rightarrow> provider_type \<Rightarrow> referral_provider act" where
  "factory_referral dep t pt =
     (if pt = BITUNIX then
        bindA (secret dep t pt BITUNIX_API_KEY) (\<lambda>k.
        bindA (secret dep t pt BITUNIX_API_SECRET) (\<lambda>s.
        retA (bitunix_provider (dep_bitunix dep) \<lparr>bx_api_key = k, bx_api_secret = s\<rparr>)))
      else raiseA (MissingCredentialError
        (asc ''no referral adapter is implemented for '' @ provider_type_value pt)))"

definition factory_telegram :: "deployment \<Rightarrow> uuid \<Rightarrow> telegram_provider act" where
  "factory_telegram dep t =
     bindA (get_bot_config t) (\<lambda>config.
     case config of
       None \<Rightarrow> raiseA (MissingCredentialError (asc ''tenant has not configured a Telegram bot''))
     | Some c \<Rightarrow>
         bindA (secret dep t TELEGRAM TELEGRAM_BOT_TOKEN) (\<lambda>token.
         retA (telegram_bot_provider (dep_telegram dep) token)))"

text \<open>Both providers, or \<open>None\<close> when the tenant has not finished configuring them.\<close>

fun is_missing :: "exn \<Rightarrow> bool" where
  "is_missing (MissingCredentialError s) = True"
| "is_missing _ = False"

definition tenant_providers ::
  "deployment \<Rightarrow> uuid \<Rightarrow> provider_type \<Rightarrow> (referral_provider \<times> telegram_provider) option act" where
  "tenant_providers dep t pt =
     tryA (bindA (factory_referral dep t pt) (\<lambda>rp.
           bindA (factory_telegram dep t) (\<lambda>tp. retA (Some (rp, tp)))))
       (\<lambda>e. if is_missing e then Some (retA None) else None)"

subsection \<open>Sealing and opening\<close>

text \<open>A sealed secret opens to what was sealed: under a cipher that gives back what it encrypted,
  with ASCII tokens, whatever was stored by \<open>encrypt_secret\<close> is returned by \<open>decrypt_secret\<close>; with another key,
  or with no usable key, neither ever returns a wrong text: they raise \<open>CredentialEncryptionError\<close>.\<close>

theorem secrets_roundtrip:
  assumes "encrypt_secret env plain w = (Inr c, w')"
    and "\<And>k n s. ce_accepts env k \<Longrightarrow> ce_decrypt env k (ce_encrypt env k n s) = Some s"
    and "\<And>k n s. encodable (ce_encrypt env k n s)"
    and "\<And>k k' n s. k' \<noteq> k \<Longrightarrow> ce_decrypt env k' (ce_encrypt env k n s) = None"
  shows "decrypt_secret env c = Inr plain \<and>
    (\<forall>k'. k' \<noteq> the (ce_key env) \<longrightarrow>
       (\<exists>msg. decrypt_secret (env\<lparr>ce_key := Some k'\<rparr>) c = Inl (CredentialEncryptionError msg)))"
proof -
  obtain k where k: "ce_key env = Some k" "k \<noteq> []" "ce_accepts env k"
    and c: "c = ce_encrypt env k (draws w) plain"
    using assms(1)
    by (auto simp: encrypt_secret_def cipher_key_def bindA_eq_Inr split: if_splits option.splits)
  have "decrypt_secret env c = Inr plain"
    using k assms(2,3) by (simp add: decrypt_secret_def cipher_key_def c)
  moreover have "\<exists>msg. decrypt_secret (env\<lparr>ce_key := Some k'\<rparr>) c = Inl (CredentialEncryptionError msg)"
    if "k' \<noteq> k" for k'
    using that assms(3,4) by (simp add: decrypt_secret_def cipher_key_def c)
  ultimately show ?thesis using k(1) by simp
qed

text \<open>A concrete cipher with those properties, for the example runs: key and text are shifted above the
  surrogates and separated by a zero.\<close>

definition shifted :: "ustr \<Rightarrow> ustr" where
  "shifted s = map (\<lambda>c. c + 57344) s"

definition demo_cipher :: cipher_env where
  "demo_cipher = \<lparr>ce_key = Some (asc ''key''), ce_accepts = (\<lambda>k. True),
     ce_encrypt = (\<lambda>k n s. shifted k @ [0] @ shifted s),
     ce_decrypt = (\<lambda>k c. if takeWhile (\<lambda>x. 0 < x) c = shifted k
       then Some (map (\<lambda>c. c - 57344) (drop 1 (dropWhile (\<lambda>x. 0 < x) c))) else None)\<rparr>"

lemma shifted_parts:
  "takeWhile (\<lambda>x. 0 < x) (shifted k @ 0 # s) = shifted k"
  "dropWhile (\<lambda>x. 0 < x) (shifted k @ 0 # s) = 0 # s"
  by (induction k) (simp_all add: shifted_def)

lemma shifted_undo: "map (\<lambda>c. c - 57344) (shifted s) = s"
  by (simp add: shifted_def comp_def)

lemma shifted_inj: "shifted a = shifted b \<longleftrightarrow> a = b"
  by (metis shifted_undo)

lemma shifted_encodable: "c \<in> set (shifted s) \<Longrightarrow> \<not> surrogate c"
  by (auto simp: shifted_def surrogate_def)

lemma demo_cipher_laws:
  "ce_decrypt demo_cipher k (ce_encrypt demo_cipher k n s) = Some s"
  "encodable (ce_encrypt demo_cipher k n s)"
  "k' \<noteq> k \<Longrightarrow> ce_decrypt demo_cipher k' (ce_encrypt demo_cipher k n s) = None"
  by (auto simp: demo_cipher_def shifted_parts shifted_undo shifted_inj encodable_def list_ex_iff surrogate_def
      dest: shifted_encodable)

theorem secrets_roundtrip_witness:
  "\<exists>w c w'. encrypt_secret demo_cipher (asc ''hunter2'') w = (Inr c, w') \<and>
     decrypt_secret demo_cipher c = Inr (asc ''hunter2'')"
proof -
  obtain w c w' where c: "encrypt_secret demo_cipher (asc ''hunter2'') w = (Inr c, w')"
    by (simp add: encrypt_secret_def cipher_key_def demo_cipher_def bindA_def encodable_def surrogate_def asc_def)
  from secrets_roundtrip [OF c demo_cipher_laws] c show ?thesis by blast
qed

end
