(* ===== verification/Sessions.thy ===== *)
theory Sessions
  imports Credentials Runs
begin

text \<open>
  Sessions of their own: what \<open>async with AsyncSessionFactory()\<close> comes to when no transaction is open, and
  what code that only reads leaves behind.
\<close>

subsection \<open>A new session\<close>

text \<open>Between sessions no transaction is open.\<close>

definition idle :: "world \<Rightarrow> bool" where
  "idle w \<longleftrightarrow> \<not> in_tx w \<and> \<not> failed w \<and> pending w = []"

text \<open>The session a block starts with.\<close>

definition fresh_session :: "world \<Rightarrow> world" where
  "fresh_session w = w\<lparr>in_tx := False, failed := False, published := None, pending := [], bound := None\<rparr>"

lemma with_session_run:
  assumes "idle w"
  shows "with_session m w =
    (case m (fresh_session w) of (r, v) \<Rightarrow> (r, snd (rollback v)))"
  using assms by (simp add: with_session_def fresh_session_def rollback_def idle_def)

lemma with_session_idle: "idle (snd (with_session m w))"
  by (simp add: with_session_def idle_def rollback_def split: prod.split)

lemma rollback_simps [simp]:
  "db (snd (rollback w)) = (if in_tx w then start w else db w)"
  "tg_log (snd (rollback w)) = tg_log w" "ref_log (snd (rollback w)) = ref_log w"
  by (simp_all add: rollback_def)

lemma fresh_bound_sess: "postgres w \<Longrightarrow> sess t (bind_tenant t (fresh_session w))"
  by (simp add: sess_def bind_tenant_def fresh_session_def)

lemma fresh_bound_ready [simp]:
  "db (bind_tenant t (fresh_session w)) = db w" "tg_log (bind_tenant t (fresh_session w)) = tg_log w"
  "ref_log (bind_tenant t (fresh_session w)) = ref_log w" "\<not> in_tx (bind_tenant t (fresh_session w))"
  by (simp_all add: bind_tenant_def fresh_session_def)

subsection \<open>Reading\<close>

text \<open>An action that only reads begins the transaction at most; with nothing to flush, nothing is
  written.\<close>

definition reading :: "'a act \<Rightarrow> bool" where
  "reading m \<longleftrightarrow> (\<forall>w. \<not> failed w \<and> pending w = [] \<longrightarrow> snd (m w) = w \<or> snd (m w) = begin_tx w)"

named_theorems reading_rules

lemma begin_tx_idem [simp]: "begin_tx (begin_tx w) = begin_tx w"
  by (simp add: begin_tx_def apply_postgres_tenant_setting_def)

lemma begin_tx_kept [simp]:
  "failed (begin_tx w) = failed w" "pending (begin_tx w) = pending w" "bound (begin_tx w) = bound w"
  "postgres (begin_tx w) = postgres w" "draws (begin_tx w) = draws w" "ticks (begin_tx w) = ticks w"
  by (simp_all add: begin_tx_def apply_postgres_tenant_setting_def)

lemma readingD:
  "reading m \<Longrightarrow> m w = (r, w') \<Longrightarrow> \<not> failed w \<Longrightarrow> pending w = [] \<Longrightarrow> w' = w \<or> w' = begin_tx w"
  unfolding reading_def by (metis snd_conv)

lemma reading_plain [reading_rules]:
  "reading (retA x)" "reading (raiseA e)" "reading (liftR r)" "reading (readA f)"
  by (simp_all add: reading_def)

lemma reading_bindA [reading_rules]:
  assumes "reading m" and "\<And>x. reading (f x)"
  shows "reading (bindA m f)"
  unfolding reading_def
proof (intro allI impI)
  fix w :: world assume w: "\<not> failed w \<and> pending w = []"
  obtain r v where mv: "m w = (r, v)" by fastforce
  from readingD [OF assms(1) mv] w have v: "v = w \<or> v = begin_tx w" by simp
  show "snd (bindA m f w) = w \<or> snd (bindA m f w) = begin_tx w"
  proof (cases r)
    case (Inr x)
    obtain q u where "f x v = (q, u)" by fastforce
    with readingD [OF assms(2) this] v w mv Inr show ?thesis by (auto simp: bindA_def)
  qed (use mv v in \<open>simp add: bindA_def\<close>)
qed

lemma reading_thenA [reading_rules]: "reading m \<Longrightarrow> reading n \<Longrightarrow> reading (thenA m n)"
  by (simp add: thenA_def reading_bindA)

lemma reading_tryA [reading_rules]:
  assumes "reading m" and "\<And>e k. h e = Some k \<Longrightarrow> reading k"
  shows "reading (tryA m h)"
  unfolding reading_def
proof (intro allI impI)
  fix w :: world assume w: "\<not> failed w \<and> pending w = []"
  obtain r v where mv: "m w = (r, v)" by fastforce
  from readingD [OF assms(1) mv] w have v: "v = w \<or> v = begin_tx w" by simp
  show "snd (tryA m h w) = w \<or> snd (tryA m h w) = begin_tx w"
  proof (cases r)
    case (Inl e)
    show ?thesis
    proof (cases "h e")
      case (Some k)
      obtain q u where "k v = (q, u)" by fastforce
      with readingD [OF assms(2) [OF Some] this] v w mv Inl Some show ?thesis by (auto simp: tryA_def)
    qed (use mv v Inl in \<open>simp add: tryA_def\<close>)
  qed (use mv v in \<open>simp add: tryA_def\<close>)
qed

lemma reading_case_option [reading_rules]:
  "reading m \<Longrightarrow> (\<And>x. reading (f x)) \<Longrightarrow> reading (case opt of None \<Rightarrow> m | Some x \<Rightarrow> f x)"
  by (cases opt) simp_all

lemma select_rows_clean:
  assumes "\<not> failed w" and "pending w = []"
  shows "select_rows tbl p w = (Inr (scoped_rows tbl p (begin_tx w)), begin_tx w)"
  using assms by (simp add: select_rows_def thenA_def bindA_def flush_def statement_def)

lemma bound_ready: "ready t (begin_tx (bind_tenant t (fresh_session w)))"
  by (simp add: ready_def begin_tx_def apply_postgres_tenant_setting_def bind_tenant_def fresh_session_def)

lemma select_rows_bound:
  "select_rows tbl p (bind_tenant t (fresh_session w)) =
     (Inr (filter (\<lambda>r. tenant_id r = t \<and> p r) (tbl_get tbl (db w))),
      begin_tx (bind_tenant t (fresh_session w)))"
proof -
  let ?b = "bind_tenant t (fresh_session w)"
  have "\<not> failed ?b" "pending ?b = []" by (simp_all add: bind_tenant_def fresh_session_def)
  then have "select_rows tbl p ?b = select_rows tbl p (begin_tx ?b)" by (simp add: select_rows_clean)
  then show ?thesis by (simp add: select_rows_ready [OF bound_ready])
qed

lemma reading_select_rows [reading_rules]: "reading (select_rows tbl p)"
  by (simp add: reading_def select_rows_clean)

lemma reading_queries [reading_rules]:
  "reading (get_by_id tbl t i)" "reading (list_all tbl t limit offset)" "reading (get_named t pt nm)"
  "reading (get_bot_config t)" "reading (get_for t pt m)" "reading (get_for_market t m)"
  "reading (get_by_telegram_id t tg)"
  by (auto simp: repository_queries intro!: reading_rules)

text \<open>One that begins with a query also begins the transaction.\<close>

definition begins :: "'a act \<Rightarrow> bool" where
  "begins m \<longleftrightarrow> (\<forall>w. \<not> failed w \<and> pending w = [] \<longrightarrow> snd (m w) = begin_tx w)"

lemma beginsD: "begins m \<Longrightarrow> m w = (r, w') \<Longrightarrow> \<not> failed w \<Longrightarrow> pending w = [] \<Longrightarrow> w' = begin_tx w"
  unfolding begins_def by (metis snd_conv)

lemma begins_select_rows: "begins (select_rows tbl p)"
  by (simp add: begins_def select_rows_clean)

lemma begins_bindA:
  assumes "begins m" and "\<And>x. reading (f x)"
  shows "begins (bindA m f)"
  unfolding begins_def
proof (intro allI impI)
  fix w :: world assume w: "\<not> failed w \<and> pending w = []"
  obtain r v where mv: "m w = (r, v)" by fastforce
  with beginsD [OF assms(1)] w have v: "v = begin_tx w" by blast
  show "snd (bindA m f w) = begin_tx w"
  proof (cases r)
    case (Inr x)
    obtain q u where "f x v = (q, u)" by fastforce
    with readingD [OF assms(2) this] v w mv Inr show ?thesis by (auto simp: bindA_def)
  qed (use mv v in \<open>simp add: bindA_def\<close>)
qed

lemma begins_tryA:
  assumes "begins m" and "\<And>e k. h e = Some k \<Longrightarrow> reading k"
  shows "begins (tryA m h)"
  unfolding begins_def
proof (intro allI impI)
  fix w :: world assume w: "\<not> failed w \<and> pending w = []"
  obtain r v where mv: "m w = (r, v)" by fastforce
  with beginsD [OF assms(1)] w have v: "v = begin_tx w" by blast
  show "snd (tryA m h w) = begin_tx w"
  proof (cases r)
    case (Inl e)
    show ?thesis
    proof (cases "h e")
      case (Some k)
      obtain q u where "k v = (q, u)" by fastforce
      with readingD [OF assms(2) [OF Some] this] v w mv Inl Some show ?thesis by (auto simp: tryA_def)
    qed (use mv v Inl in \<open>simp add: tryA_def\<close>)
  qed (use mv v in \<open>simp add: tryA_def\<close>)
qed

lemma reading_secret [reading_rules]: "reading (secret dep t pt nm)"
  unfolding secret_def by (auto intro!: reading_rules)

lemma begins_secret: "begins (secret dep t pt nm)"
  unfolding secret_def get_named_def
  by (intro begins_bindA begins_select_rows) (auto intro!: reading_rules)

lemma reading_factory [reading_rules]:
  "reading (factory_referral dep t pt)" "reading (factory_telegram dep t)"
  unfolding factory_referral_def factory_telegram_def by (auto intro!: reading_rules)

lemma reading_tenant_providers [reading_rules]: "reading (tenant_providers dep t pt)"
  unfolding tenant_providers_def by (auto intro!: reading_rules split: if_splits)

lemma begins_tenant_providers: "begins (tenant_providers dep t BITUNIX)"
  unfolding tenant_providers_def factory_referral_def if_P [OF refl]
  by (intro begins_tryA begins_bindA begins_secret) (auto intro!: reading_rules split: if_splits)

text \<open>The session after the tenant's providers were looked up.\<close>

lemma providers_ready:
  assumes "tenant_providers dep t BITUNIX (bind_tenant t (fresh_session w)) = (r, v)"
  shows "ready t v" "db v = db w" "start v = db w" "tg_log v = tg_log w" "ref_log v = ref_log w"
    "draws v = draws w" "ticks v = ticks w"
proof -
  have "v = begin_tx (bind_tenant t (fresh_session w))"
    using beginsD [OF begins_tenant_providers assms] by (simp add: bind_tenant_def fresh_session_def)
  then show "ready t v" "db v = db w" "start v = db w" "tg_log v = tg_log w" "ref_log v = ref_log w"
    "draws v = draws w" "ticks v = ticks w"
    by (simp_all add: ready_def begin_tx_def apply_postgres_tenant_setting_def bind_tenant_def
        fresh_session_def)
qed

text \<open>The queries of the factory, before and after the transaction has begun.\<close>

lemma named_bound:
  "v = bind_tenant t (fresh_session w) \<or> v = begin_tx (bind_tenant t (fresh_session w)) \<Longrightarrow>
   get_named t pt nm v = (one_or_none (filter (\<lambda>c. tenant_id c = t \<and> cred_provider_type c = pt \<and>
      credential_name c = nm) (credentials (db w))), begin_tx (bind_tenant t (fresh_session w)))"
  by (auto simp: get_named_def bindA_def credentials_table_def select_rows_bound select_rows_ready [OF bound_ready])

lemma bot_config_bound:
  "get_bot_config t (begin_tx (bind_tenant t (fresh_session w))) =
     (one_or_none (filter (\<lambda>c. tenant_id c = t) (bot_configs (db w))), begin_tx (bind_tenant t (fresh_session w)))"
  by (simp add: get_bot_config_def bindA_def bot_configs_table_def select_rows_ready [OF bound_ready])

text \<open>A tenant whose stored secrets can all be opened gets its providers.\<close>

lemma configured_providers:
  assumes "one_or_none (filter (\<lambda>c. tenant_id c = t \<and> cred_provider_type c = BITUNIX \<and>
        credential_name c = BITUNIX_API_KEY) (credentials (db w))) = Inr (Some key)"
    and "one_or_none (filter (\<lambda>c. tenant_id c = t \<and> cred_provider_type c = BITUNIX \<and>
        credential_name c = BITUNIX_API_SECRET) (credentials (db w))) = Inr (Some sec)"
    and "one_or_none (filter (\<lambda>c. tenant_id c = t) (bot_configs (db w))) = Inr (Some bcfg)"
    and "one_or_none (filter (\<lambda>c. tenant_id c = t \<and> cred_provider_type c = TELEGRAM \<and>
        credential_name c = TELEGRAM_BOT_TOKEN) (credentials (db w))) = Inr (Some tok)"
    and "decrypt_secret (dep_cipher dep) (encrypted_secret key) = Inr k"
    and "decrypt_secret (dep_cipher dep) (encrypted_secret sec) = Inr s"
    and "decrypt_secret (dep_cipher dep) (encrypted_secret tok) = Inr bt"
  shows "fst (tenant_providers dep t BITUNIX (bind_tenant t (fresh_session w))) =
    Inr (Some (bitunix_provider (dep_bitunix dep) \<lparr>bx_api_key = k, bx_api_secret = s\<rparr>,
      telegram_bot_provider (dep_telegram dep) bt))"
proof -
  let ?b = "bind_tenant t (fresh_session w)"
  note named = named_bound [of _ t w] and botc = bot_config_bound [of t w]
  show ?thesis
    using assms
    by (simp add: tenant_providers_def factory_referral_def factory_telegram_def secret_def bindA_def tryA_def
        named botc)
qed

subsection \<open>What reading the credentials keeps\<close>

context enrol_relation
begin

lemma keeps_secret [keeps_rules]: "keeps R (secret dep t pt nm)"
  unfolding secret_def
  by (intro keeps_bindA keeps_queries keeps_case_option keeps_raiseA keeps_liftR)

lemma keeps_tenant_providers [keeps_rules]: "keeps R (tenant_providers dep t pt)"
  unfolding tenant_providers_def factory_referral_def factory_telegram_def
  by (auto intro!: keeps_tryA keeps_bindA keeps_secret keeps_retA keeps_raiseA keeps_case_option
      keeps_queries split: if_splits)

end

text \<open>A commit that fails leaves what was committed before.\<close>

lemma commit_Inl:
  assumes "commit u = (Inl e, u')" shows "committed u' = committed u"
proof -
  from assms consider "u' = u" | "flush u = (Inl e, u')"
    by (auto simp: commit_def thenA_def bindA_eq_Inl split: if_splits)
  then show ?thesis
    by cases (auto dest: keepsD [OF uncommitted.keeps_flush] simp: uncommitted_def)
qed

end
