(* ===== verification/Scheduler.thy ===== *)
theory Scheduler
  imports Sessions Monitor
begin

text \<open>
  \<open>app/jobs/scheduler.py\<close>: the sweep over all tenants. Each tenant gets a session of its own
  (\<open>with_session\<close>), its own providers, one pass of the monitor and one commit; a failed pass is rolled
  back and the sweep goes on. Log lines are left out. \<open>build_scheduler\<close> only configures a library.
\<close>

definition DEFAULT_SWEEP_INTERVAL :: int where
  "DEFAULT_SWEEP_INTERVAL = 24 * 3600 * micros_per_second"

definition DEFAULT_COMPLIANCE_PERIOD :: int where
  "DEFAULT_COMPLIANCE_PERIOD = 7 * micros_per_day"

definition active_tenant_ids :: "uuid list act" where
  "active_tenant_ids =
     with_session (statement (readA (\<lambda>w. map row_id (filter tenant_is_active (tenants (db w))))))"

text \<open>\<open>report = await monitor.run(tenant_id); await session.commit()\<close>.\<close>

definition pass_and_commit ::
  "runtime \<Rightarrow> referral_provider \<Rightarrow> telegram_provider \<Rightarrow> int \<Rightarrow> uuid \<Rightarrow> monitor_report act" where
  "pass_and_commit env rp tp period t =
     bindA (run env rp tp default_policy period t None) (\<lambda>rep. thenA commit (retA rep))"

definition sweep_tenant :: "deployment \<Rightarrow> provider_type \<Rightarrow> int \<Rightarrow> uuid \<Rightarrow> unit act" where
  "sweep_tenant dep pt period t =
     with_session
       (thenA (writeA (bind_tenant t))
       (bindA (tenant_providers dep t pt) (\<lambda>ps.
        case ps of
          None \<Rightarrow> retA ()
        | Some (rp, tp) \<Rightarrow>
            tryA (bindA (pass_and_commit (dep_runtime dep) rp tp period t) (\<lambda>_. retA ()))
              (\<lambda>e. Some rollback))))"

definition run_compliance_sweep :: "deployment \<Rightarrow> provider_type \<Rightarrow> int \<Rightarrow> unit act" where
  "run_compliance_sweep dep pt period =
     bindA active_tenant_ids (\<lambda>ts. foldA (\<lambda>t _. sweep_tenant dep pt period t) ts ())"

subsection \<open>One tenant's turn\<close>

text \<open>A turn ends in one of four ways.\<close>

lemma sweep_tenant_cases:
  assumes "sweep_tenant dep BITUNIX period t w = (r, w')" and "idle w"
  obtains (unreadable) e v where "r = Inl e"
      "tenant_providers dep t BITUNIX (bind_tenant t (fresh_session w)) = (Inl e, v)"
      "db w' = db w" "tg_log w' = tg_log w" "ref_log w' = ref_log w"
  | (unconfigured) v where "r = Inr ()"
      "tenant_providers dep t BITUNIX (bind_tenant t (fresh_session w)) = (Inr None, v)"
      "db w' = db w" "tg_log w' = tg_log w" "ref_log w' = ref_log w"
  | (failed) rp tp v e v' where "r = Inr ()"
      "tenant_providers dep t BITUNIX (bind_tenant t (fresh_session w)) = (Inr (Some (rp, tp)), v)"
      "pass_and_commit (dep_runtime dep) rp tp period t v = (Inl e, v')"
      "db w' = (if in_tx v' then start v' else db v')" "tg_log w' = tg_log v'" "ref_log w' = ref_log v'"
  | (passed) rp tp v rep v' where "r = Inr ()"
      "tenant_providers dep t BITUNIX (bind_tenant t (fresh_session w)) = (Inr (Some (rp, tp)), v)"
      "pass_and_commit (dep_runtime dep) rp tp period t v = (Inr rep, v')"
      "db w' = (if in_tx v' then start v' else db v')" "tg_log w' = tg_log v'" "ref_log w' = ref_log v'"
proof -
  let ?b = "bind_tenant t (fresh_session w)"
  obtain q v where tp: "tenant_providers dep t BITUNIX ?b = (q, v)" by fastforce
  note v = providers_ready [OF tp]
  have in_v: "in_tx v" using v(1) by (simp add: ready_def)
  have run: "sweep_tenant dep BITUNIX period t w =
    (case (case q of Inl e \<Rightarrow> (Inl e, v) | Inr ps \<Rightarrow>
        (case ps of None \<Rightarrow> retA () | Some (rp, tp) \<Rightarrow>
            tryA (bindA (pass_and_commit (dep_runtime dep) rp tp period t) (\<lambda>_. retA ()))
              (\<lambda>e. Some rollback)) v) of (r, v) \<Rightarrow> (r, snd (rollback v)))"
    using assms(2) tp
    by (simp add: sweep_tenant_def with_session_run thenA_def bindA_def split: sum.split)
  show thesis
  proof (cases q)
    case (Inl e)
    with run assms(1) tp v in_v show ?thesis by (intro unreadable [of e v]) auto
  next
    case (Inr ps)
    show ?thesis
    proof (cases ps)
      case None
      with run assms(1) tp v in_v Inr show ?thesis by (intro unconfigured [of v]) auto
    next
      case (Some pr)
      obtain rp tg where pr: "pr = (rp, tg)" by fastforce
      obtain z v' where pc: "pass_and_commit (dep_runtime dep) rp tg period t v = (z, v')" by fastforce
      show ?thesis
      proof (cases z)
        case (Inl e)
        with run assms(1) tp \<open>q = Inr ps\<close> Some pr pc show ?thesis
          by (intro failed [of rp tg v e v']) (auto simp: tryA_def bindA_def rollback_def)
      next
        case (Inr rep)
        with run assms(1) tp \<open>q = Inr ps\<close> Some pr pc show ?thesis
          by (intro passed [of rp tg v rep v']) (auto simp: tryA_def bindA_def rollback_def)
      qed
    qed
  qed
qed

lemma keeps_pass_uncommitted:
  assumes "pass_and_commit env rp tp period t v = (Inl e, v')"
  shows "committed v' = committed v"
proof (cases "run env rp tp default_policy period t None v")
  case (Pair q v1)
  have run: "committed v1 = committed v"
    using keepsD [OF uncommitted.keeps_run Pair] by (simp add: uncommitted_def)
  show ?thesis
  proof (cases q)
    case (Inl e')
    with assms Pair run show ?thesis by (simp add: pass_and_commit_def bindA_def)
  next
    case (Inr rep)
    with assms Pair have "commit v1 = (Inl e, v')"
      by (auto simp: pass_and_commit_def bindA_def thenA_def split: prod.splits sum.splits)
    with run show ?thesis by (simp add: commit_Inl)
  qed
qed

lemma commit_InrD:
  assumes "commit w = (Inr x, w')" and "open_tx t w"
  shows "job_executions (db w') = job_executions (db w) \<and> \<not> in_tx w'"
proof -
  have "\<not> failed w" using assms(2) by (simp add: open_tx_def)
  with assms(1) obtain v where f: "flush w = (Inr (), v)" and w': "w' = v\<lparr>in_tx := False, published := None\<rparr>"
    by (auto simp: commit_def thenA_def bindA_eq_Inr)
  from flushedD [OF flush_InrD [OF f assms(2)] assms(2)] w' show ?thesis by simp
qed

text \<open>C25. A turn is all or nothing: whatever becomes of a tenant's turn in the sweep, either the database
  is exactly what it was before, or the pass over that tenant ran to its end, its writes were committed
  together, and among them is the job row of the period, SUCCEEDED and without an error. In particular
  no turn ever leaves a job row that says FAILED: what a failed pass writes there is rolled back.\<close>

theorem turn_is_all_or_nothing:
  assumes "sweep_tenant dep BITUNIX period t w = (r, w')" and "idle w" and "unique_keys (db w)"
    and "\<And>x. x \<in> set (job_executions (db w)) \<Longrightarrow> row_id x \<noteq> uuid4 (dep_runtime dep) (draws w)"
  shows "db w' = db w \<or>
    (r = Inr () \<and> (\<exists>x \<in> set (job_executions (db w')). x \<notin> set (job_executions (db w)) \<and> tenant_id x = t \<and>
       job_name x = JOB_NAME \<and> job_state x = SUCCEEDED \<and> job_error x = None))"
  using assms(1,2)
proof (cases rule: sweep_tenant_cases)
  case (failed rp tp v e v')
  have "in_tx v" using providers_ready(1) [OF failed(2)] by (simp add: ready_def)
  with keeps_pass_uncommitted [OF failed(3)] failed providers_ready(3) [OF failed(2)]
  show ?thesis by (simp add: committed_def)
next
  case (passed rp tp v rep v')
  note v = providers_ready [OF passed(2)]
  let ?env = "dep_runtime dep"
  have fresh: "fresh_job_id ?env v" and uniq: "unique_keys (db v)"
    using assms(3,4) v by (auto simp: fresh_job_id_def)
  obtain v1 where run: "run ?env rp tp default_policy period t None v = (Inr rep, v1)"
    and com: "commit v1 = (Inr (), v')"
    using passed(3) by (auto simp: pass_and_commit_def bindA_eq_Inr thenA_def)
  show ?thesis
  proof (cases "claimed rep")
    case False
    note stood = run_stood_down [OF v(1) fresh run False]
    then have "flush v1 = (Inr (), v1)" "\<not> failed v1" by (simp_all add: flush_def ready_def)
    with com have "v' = v1\<lparr>in_tx := False, published := None\<rparr>"
      by (simp add: commit_def thenA_def bindA_def)
    with stood passed(4) v(2) show ?thesis by simp
  next
    case True
    obtain ps f x v2 k where o: "open_tx t v2" and tr: "touch_row executions_table x v2 = (Inr (), v1)"
      and x: "tenant_id x = t" "job_name x = JOB_NAME" "job_period_start x = ps" "job_state x = SUCCEEDED"
        "job_error x = None"
      and free: "\<not> period_taken t JOB_NAME ps (job_executions (db v))"
      using run_pass [OF v(1) fresh uniq run True] by metis
    have v1: "open_tx t v1" "x \<in> set (job_executions (db v1))"
      using touch_row_open_InrD [OF tr o] o by (auto simp: executions_table_def set_update_where image_iff)
    from commit_InrD [OF com v1(1)] v1(2) passed(4) have "x \<in> set (job_executions (db w'))"
      by simp
    moreover have "x \<notin> set (job_executions (db w))"
      using free x v(2) by (auto simp: period_taken_def)
    ultimately show ?thesis using x passed(1) by blast
  qed
qed simp_all

text \<open>A turn stays with its tenant: on PostgreSQL, whatever becomes of it, every row of every
  other tenant is as it was.\<close>

theorem turn_is_isolated:
  assumes "idle w" and "postgres w"
  shows "others t (db (snd (sweep_tenant dep pt period t w))) = others t (db w)"
proof -
  let ?m = "bindA (tenant_providers dep t pt) (\<lambda>ps.
        case ps of
          None \<Rightarrow> retA ()
        | Some (rp, tp) \<Rightarrow>
            tryA (bindA (pass_and_commit (dep_runtime dep) rp tp period t) (\<lambda>_. retA ()))
              (\<lambda>e. Some rollback))"
  have k: "keeps (iso t) ?m"
    unfolding pass_and_commit_def
    by (auto intro!: iso.keeps_bindA iso.keeps_tenant_providers iso.keeps_case_option iso.keeps_retA
        iso.keeps_tryA iso.keeps_run iso.keeps_thenA iso.keeps_commit iso.keeps_rollback)
  obtain r v where m: "?m (bind_tenant t (fresh_session w)) = (r, v)" by fastforce
  have "sess t v \<and> others t (db v) = others t (db w)"
    using keepsD [OF k m] fresh_bound_sess [OF assms(2), of t] by (simp add: iso_def)
  moreover have "db (snd (sweep_tenant dep pt period t w)) = (if in_tx v then start v else db v)"
    using m assms(1) by (simp add: sweep_tenant_def with_session_run thenA_def bindA_def [of "writeA _"])
  ultimately show ?thesis by (auto simp: sess_def)
qed

subsection \<open>The sweep\<close>

lemma active_tenant_ids_run:
  assumes "idle w"
  shows "\<exists>v. active_tenant_ids w = (Inr (map row_id (filter tenant_is_active (tenants (db w)))), v) \<and>
    idle v \<and> db v = db w \<and> tg_log v = tg_log w \<and> ref_log v = ref_log w"
proof -
  have "idle (snd (active_tenant_ids w))" unfolding active_tenant_ids_def by (rule with_session_idle)
  then show ?thesis
    using assms
    by (auto simp: active_tenant_ids_def with_session_run statement_def fresh_session_def begin_tx_def
        apply_postgres_tenant_setting_def)
qed

lemma sweep_tenant_idle: "sweep_tenant dep pt period t w = (r, w') \<Longrightarrow> idle w'"
  unfolding sweep_tenant_def by (metis with_session_idle snd_conv)

lemma fold_sweep_Inl:
  assumes "foldA (\<lambda>t _. sweep_tenant dep pt period t) ts () w = (Inl e, w')" and "idle w"
  shows "\<exists>t \<in> set ts. \<exists>v v'. idle v \<and> sweep_tenant dep pt period t v = (Inl e, v')"
  using assms
proof (induction ts arbitrary: w)
  case (Cons t ts)
  then consider "sweep_tenant dep pt period t w = (Inl e, w')"
    | v where "sweep_tenant dep pt period t w = (Inr (), v)"
        "foldA (\<lambda>t _. sweep_tenant dep pt period t) ts () v = (Inl e, w')"
    by (auto simp: bindA_eq_Inl)
  then show ?case
  proof cases
    case 2
    from Cons.IH [OF 2(2) sweep_tenant_idle [OF 2(1)]] show ?thesis by auto
  qed (use Cons.prems(2) in auto)
qed simp

text \<open>Failures are contained: the sweep over all tenants only ever raises what reading the stored
  credentials of an active tenant raised, and that only when it is not a missing credential; no outage,
  no failed pass and no failed commit of any tenant stops it.\<close>

theorem only_unreadable_credentials_stop_the_sweep:
  assumes "run_compliance_sweep dep BITUNIX period w = (Inl e, w')" and "idle w"
  shows "\<exists>t v v'. (\<exists>x \<in> set (tenants (db w)). row_id x = t \<and> tenant_is_active x) \<and> \<not> is_missing e \<and>
    tenant_providers dep t BITUNIX (bind_tenant t (fresh_session v)) = (Inl e, v')"
proof -
  let ?ts = "map row_id (filter tenant_is_active (tenants (db w)))"
  obtain v where v: "active_tenant_ids w = (Inr ?ts, v)" "idle v"
    using active_tenant_ids_run [OF assms(2)] by blast
  with assms(1) have "foldA (\<lambda>t _. sweep_tenant dep BITUNIX period t) ?ts () v = (Inl e, w')"
    by (simp add: run_compliance_sweep_def bindA_Inr)
  then have "\<exists>t \<in> set ?ts. \<exists>v v'. idle v \<and> sweep_tenant dep BITUNIX period t v = (Inl e, v')"
    using v(2) by (rule fold_sweep_Inl)
  then obtain t v v' where t: "t \<in> set ?ts" "idle v" "sweep_tenant dep BITUNIX period t v = (Inl e, v')"
    by blast
  from t(3,2) obtain u where "tenant_providers dep t BITUNIX (bind_tenant t (fresh_session v)) = (Inl e, u)"
    by (cases rule: sweep_tenant_cases) auto
  moreover have "\<not> is_missing e"
    using calculation by (auto simp: tenant_providers_def tryA_def split: prod.splits sum.splits if_splits)
  ultimately show ?thesis using t(1) by auto
qed

lemma decrypt_not_missing: "decrypt_secret env c = Inl e \<Longrightarrow> \<not> is_missing e"
  by (auto simp: decrypt_secret_def cipher_key_def split: option.splits if_splits)

lemma unreadable_providers:
  assumes "one_or_none (filter (\<lambda>c. tenant_id c = t \<and> cred_provider_type c = BITUNIX \<and>
        credential_name c = BITUNIX_API_KEY) (credentials (db w))) = Inr (Some c)"
    and "decrypt_secret (dep_cipher dep) (encrypted_secret c) = Inl e"
  shows "fst (tenant_providers dep t BITUNIX (bind_tenant t (fresh_session w))) = Inl e"
proof -
  let ?b = "bind_tenant t (fresh_session w)"
  have "get_named t BITUNIX BITUNIX_API_KEY ?b = (Inr (Some c), begin_tx ?b)"
    using assms(1) by (simp add: get_named_def bindA_def credentials_table_def select_rows_bound)
  then show ?thesis
    using assms(2) decrypt_not_missing [OF assms(2)]
    by (simp add: tenant_providers_def factory_referral_def secret_def bindA_def tryA_def)
qed

lemma sweep_stops_at_first:
  assumes "idle w" and "filter tenant_is_active (tenants (db w)) = x # xs"
    and "\<And>v. db v = db w \<Longrightarrow>
      fst (tenant_providers dep (row_id x) BITUNIX (bind_tenant (row_id x) (fresh_session v))) = Inl e"
  shows "\<exists>w'. run_compliance_sweep dep BITUNIX period w = (Inl e, w') \<and> db w' = db w \<and>
    tg_log w' = tg_log w \<and> ref_log w' = ref_log w"
proof -
  obtain v where v: "active_tenant_ids w = (Inr (row_id x # map row_id xs), v)" "idle v" "db v = db w"
    "tg_log v = tg_log w" "ref_log v = ref_log w"
    using active_tenant_ids_run [OF assms(1)] assms(2) by auto
  obtain r w' where turn: "sweep_tenant dep BITUNIX period (row_id x) v = (r, w')" by fastforce
  from turn v(2) assms(3) [OF v(3)] have "r = Inl e \<and> db w' = db v \<and> tg_log w' = tg_log v \<and> ref_log w' = ref_log v"
    by (cases rule: sweep_tenant_cases) simp_all
  with v turn show ?thesis by (simp add: run_compliance_sweep_def bindA_def)
qed

text \<open>C26. One unreadable secret stops the sweep for everyone: when the stored API key of the first active
  tenant does not decrypt (the encryption key was rotated, or the value damaged), the sweep raises that
  error at once, and no other tenant's members are looked at.\<close>

theorem unreadable_secret_stops_the_sweep:
  assumes "idle w" and "filter tenant_is_active (tenants (db w)) = x # xs"
    and "one_or_none (filter (\<lambda>c. tenant_id c = row_id x \<and> cred_provider_type c = BITUNIX \<and>
        credential_name c = BITUNIX_API_KEY) (credentials (db w))) = Inr (Some c)"
    and "decrypt_secret (dep_cipher dep) (encrypted_secret c) = Inl e"
  shows "\<exists>w'. run_compliance_sweep dep BITUNIX period w = (Inl e, w') \<and> db w' = db w \<and>
    tg_log w' = tg_log w \<and> ref_log w' = ref_log w"
  by (rule sweep_stops_at_first [OF assms(1,2)]) (use assms(3,4) in \<open>simp add: unreadable_providers\<close>)

subsection \<open>A provider that reports no trades\<close>

definition tradeless :: "referral_provider \<Rightarrow> bool" where
  "tradeless rp \<longleftrightarrow> (\<forall>h u ck. rp_validate_user rp h u = Inr ck \<longrightarrow> qualifying_trades ck = None)"

lemma bitunix_tradeless: "tradeless (bitunix_provider api creds)"
  unfolding tradeless_def bitunix_provider_def
  using validate_InrD parse_user_InrD(2) by fastforce

lemma returns_bind_when:
  "returns Q m \<Longrightarrow> (\<And>x. Q x \<Longrightarrow> returns P (f x)) \<Longrightarrow> returns P (bindA m f)"
  unfolding returns_def bindA_eq_Inr by blast

lemma returns_tryA:
  "returns P m \<Longrightarrow> (\<And>e k. h e = Some k \<Longrightarrow> returns P k) \<Longrightarrow> returns P (tryA m h)"
  unfolding returns_def tryA_def by (auto split: prod.splits sum.splits option.splits)

lemma decide_restore_only: "decide_compliance m v p now = Inr d \<Longrightarrow> action d = RESTORE \<Longrightarrow> eligible v"
  by (auto simp: decide_compliance_def no_action_def res_simps split: if_splits option.splits)

lemma tradeless_member:
  assumes "tradeless rp"
  shows "returns (\<lambda>r. restored r = restored rep) (process_member env rp tp policy period t ps moment mem rep)"
proof -
  let ?P = "\<lambda>r. restored r = restored rep"
  have check: "returns (\<lambda>c. \<forall>ck. c = Some ck \<longrightarrow> qualifying_trades ck = None) (try_validate rp u)" for u
    using assms by (auto simp: returns_def try_validate_run tradeless_def split: sum.splits if_splits)
  have verdict: "returns (\<lambda>v. \<not> eligible v) (liftR (evaluate_referral c rules True))"
    if "\<forall>ck. c = Some ck \<longrightarrow> qualifying_trades ck = None" for c rules
    using that
    by (auto simp: returns_def evaluate_referral_def eligible_def res_simps split: option.splits if_splits)
  have decision: "returns (\<lambda>d. action d \<noteq> RESTORE) (liftR (decide_compliance s v p moment))"
    if "\<not> eligible v" for s v p
    using that decide_restore_only by (auto simp: returns_def)
  have act: "returns ?P (apply_action tp t m mk d moment r p)"
    if "restored r = restored rep" "action d \<noteq> RESTORE" for m mk d r p
    using that unfolding apply_action_def carry_out_def
    by (cases "action d") (auto intro!: returns_rules)
  have "returns ?P (check_member env rp tp policy period t m ps moment r account config)"
    if "restored r = restored rep" for m r account config
    unfolding check_member_def
    by (rule returns_bind_when [OF check], rule returns_bind_when [OF verdict], assumption,
        intro returns_thenA, rule returns_bind_when [OF decision], assumption, rule act [OF that])
  then show ?thesis
    unfolding process_member_def Let_def by (auto intro!: returns_rules)
qed

text \<open>C27. With a provider that reports no trades, and the exchange adapter of the program is one, no pass
  ever restores anybody: a member who was warned and has put things right keeps the warnings.\<close>

theorem tradeless_pass_never_restores:
  assumes "tradeless rp" and "run env rp tp policy period t now w = (Inr rep, w')"
  shows "restored rep = 0 \<and> tradeless (bitunix_provider api creds)"
proof -
  let ?P = "\<lambda>r. restored r = 0"
  have "restored r' = restored r"
    if "foldA (process_member env rp tp policy period t ps moment) ms r v = (Inr r', v')" for ps moment ms r v r' v'
    using that
    by (induction ms arbitrary: r v) (auto simp: bindA_eq_Inr dest!: returnsD [OF tradeless_member [OF assms(1)]])
  then have "returns ?P (run_members env rp tp policy period t ps moment)" for ps moment
    unfolding run_members_def by (intro returns_bindA) (auto simp: returns_def new_report_def)
  then have "returns ?P (run_claimed env rp tp policy period t ps moment x)" for ps moment x
    unfolding run_claimed_def
    by (intro returns_bind_when [where Q = ?P] returns_tryA) (auto intro!: returns_rules)
  then have "returns ?P (run env rp tp policy period t now)"
    unfolding run_def by (auto intro!: returns_rules simp: new_report_def)
  with assms(2) show ?thesis using bitunix_tradeless by (blast dest: returnsD)
qed

end
