(* ===== verification/DemoSweep.thy ===== *)
theory DemoSweep
  imports DemoJobs Scheduler
begin

text \<open>
  The running example under the scheduler: two active tenants, stored secrets, and a process that can or
  cannot open them.
\<close>

definition demo_tenant :: "uuid \<Rightarrow> string \<Rightarrow> tenant" where
  "demo_tenant i nm = \<lparr>row_id = i, created_at = long_ago, tenant_name = asc nm, slug = asc nm,
     tenant_is_active = True\<rparr>"

definition sealed :: "string \<Rightarrow> ustr" where
  "sealed s = ce_encrypt demo_cipher (asc ''key'') 0 (asc s)"

definition demo_credential :: "uuid \<Rightarrow> provider_type \<Rightarrow> ustr \<Rightarrow> ustr \<Rightarrow> provider_credential" where
  "demo_credential i pt nm value = \<lparr>row_id = i, created_at = long_ago, tenant_id = 1,
     cred_provider_type = pt, credential_name = nm, encrypted_secret = value, cred_last_four = None,
     cred_verified_at = None\<rparr>"

definition demo_bot_config :: telegram_bot_config where
  "demo_bot_config = \<lparr>row_id = 40, created_at = long_ago, tenant_id = 1, credential_id = 33,
     bot_username = None, bot_verified_at = None\<rparr>"

definition demo_bitunix :: bitunix_api where
  "demo_bitunix = \<lparr>bx_post = (\<lambda>h url params headers. HttpBody (JObj [(asc ''result'', JObj
       [(asc ''result'', JBool True), (asc ''deposit_usdt_Onchain'', JStr (asc ''350.5''))])])),
     bx_time = (\<lambda>h. 1700000000), bx_repr = (\<lambda>v. asc ''{...}'')\<rparr>"

definition demo_bot_api :: telegram_api where
  "demo_bot_api = \<lparr>tg_post = (\<lambda>h url body. HttpBody (JObj [(asc ''ok'', JBool True),
       (asc ''result'', JObj [(asc ''id'', JInt 1), (asc ''invite_link'', JStr (asc ''https://t.me/+x'')),
         (asc ''status'', JStr (asc ''member''))])])),
     tg_repr = (\<lambda>v. asc ''{...}''), tg_local_time = (\<lambda>m. m)\<rparr>"

definition demo_deployment :: deployment where
  "demo_deployment = \<lparr>dep_runtime = demo_runtime, dep_cipher = demo_cipher, dep_bitunix = demo_bitunix,
     dep_telegram = demo_bot_api\<rparr>"

definition sweep_db :: "ustr \<Rightarrow> database" where
  "sweep_db value = pass_db\<lparr>tenants := [demo_tenant 1 ''alpha'', demo_tenant 2 ''beta''],
     credentials := [demo_credential 31 BITUNIX BITUNIX_API_KEY value,
       demo_credential 32 BITUNIX BITUNIX_API_SECRET (sealed ''s3cret''),
       demo_credential 33 TELEGRAM TELEGRAM_BOT_TOKEN (sealed ''123:abc'')],
     bot_configs := [demo_bot_config]\<rparr>"

definition sweep_world :: "ustr \<Rightarrow> world" where
  "sweep_world value = new_world True (sweep_db value)"

lemma sweep_world_idle: "idle (sweep_world v)" "postgres (sweep_world v)" "db (sweep_world v) = sweep_db v"
  "tg_log (sweep_world v) = []" "ref_log (sweep_world v) = []"
  by (simp_all add: idle_def sweep_world_def new_world_def)

lemma sweep_db_unique: "unique_keys (sweep_db v)"
  using pass_ready(4)
  by (simp add: unique_keys_def sweep_db_def pass_world_def table_unique_def demo_credential_def demo_tenant_def
      table_defs BITUNIX_API_KEY_def BITUNIX_API_SECRET_def asc_def)

lemma sweep_jobs: "job_executions (sweep_db v) = []"
  by (simp add: sweep_db_def pass_db_def demo_db_def empty_db_def)

theorem turn_is_all_or_nothing_witness:
  "\<exists>r w'. sweep_tenant demo_deployment BITUNIX week 1 (sweep_world (sealed ''k'')) = (r, w') \<and>
     (db w' = sweep_db (sealed ''k'') \<or> (\<exists>x. x \<in> set (job_executions (db w')) \<and> job_state x = SUCCEEDED))"
proof -
  obtain r w' where run: "sweep_tenant demo_deployment BITUNIX week 1 (sweep_world (sealed ''k'')) = (r, w')"
    by fastforce
  from turn_is_all_or_nothing [OF run sweep_world_idle(1)] run show ?thesis
    by (auto simp: sweep_world_idle sweep_db_unique sweep_jobs)
qed

theorem turn_is_isolated_witness:
  "others 1 (db (snd (sweep_tenant demo_deployment BITUNIX week 1 (sweep_world (sealed ''k''))))) =
     others 1 (sweep_db (sealed ''k'')) \<and>
   channels (others 1 (sweep_db (sealed ''k''))) = [foreign_channel]"
  using turn_is_isolated [OF sweep_world_idle(1,2), of 1 demo_deployment BITUNIX week]
  by (simp add: sweep_world_idle)
    (simp add: others_def sweep_db_def pass_db_def demo_db_def foreign_channel_def demo_channel_def)

subsection \<open>A secret that does not open\<close>

definition garbled :: ustr where "garbled = asc ''gibberish''"

lemma garbled_secret:
  "decrypt_secret demo_cipher garbled =
     Inl (CredentialEncryptionError (asc ''stored credential could not be decrypted''))"
  by code_simp

lemma credential_names: "BITUNIX_API_SECRET \<noteq> BITUNIX_API_KEY"
  by code_simp

lemma sweep_rows:
  "tenants (sweep_db v) = [demo_tenant 1 ''alpha'', demo_tenant 2 ''beta'']"
  "credentials (sweep_db v) = [demo_credential 31 BITUNIX BITUNIX_API_KEY v,
     demo_credential 32 BITUNIX BITUNIX_API_SECRET (sealed ''s3cret''),
     demo_credential 33 TELEGRAM TELEGRAM_BOT_TOKEN (sealed ''123:abc'')]"
  by (simp_all add: sweep_db_def)

lemma demo_rows:
  "tenant_is_active (demo_tenant i nm)" "row_id (demo_tenant i nm) = i"
  "tenant_id (demo_credential i pt c v) = 1" "cred_provider_type (demo_credential i pt c v) = pt"
  "credential_name (demo_credential i pt c v) = c" "encrypted_secret (demo_credential i pt c v) = v"
  by (simp_all add: demo_tenant_def demo_credential_def)

lemma garbled_world:
  "filter tenant_is_active (tenants (db (sweep_world garbled))) =
     demo_tenant 1 ''alpha'' # [demo_tenant 2 ''beta'']"
  "one_or_none (filter (\<lambda>c. tenant_id c = row_id (demo_tenant 1 ''alpha'') \<and>
       cred_provider_type c = BITUNIX \<and> credential_name c = BITUNIX_API_KEY)
     (credentials (sweep_db garbled))) = Inr (Some (demo_credential 31 BITUNIX BITUNIX_API_KEY garbled))"
proof -
  show "filter tenant_is_active (tenants (db (sweep_world garbled))) =
     demo_tenant 1 ''alpha'' # [demo_tenant 2 ''beta'']"
    by (simp only: sweep_world_idle sweep_rows filter.simps demo_rows if_True)
  show "one_or_none (filter (\<lambda>c. tenant_id c = row_id (demo_tenant 1 ''alpha'') \<and>
       cred_provider_type c = BITUNIX \<and> credential_name c = BITUNIX_API_KEY)
     (credentials (sweep_db garbled))) = Inr (Some (demo_credential 31 BITUNIX BITUNIX_API_KEY garbled))"
    by (simp only: sweep_rows filter.simps demo_rows credential_names) simp
qed

lemma garbled_credential:
  "decrypt_secret (dep_cipher demo_deployment)
      (encrypted_secret (demo_credential 31 BITUNIX BITUNIX_API_KEY garbled)) =
      Inl (CredentialEncryptionError (asc ''stored credential could not be decrypted''))"
  by (simp add: demo_deployment_def demo_credential_def garbled_secret)

theorem unreadable_secret_stops_the_sweep_witness:
  "\<exists>e w'. run_compliance_sweep demo_deployment BITUNIX week (sweep_world garbled) = (Inl e, w') \<and>
     e = CredentialEncryptionError (asc ''stored credential could not be decrypted'') \<and>
     db w' = sweep_db garbled \<and> ref_log w' = []"
  using unreadable_secret_stops_the_sweep [OF sweep_world_idle(1) garbled_world(1)
      garbled_world(2) [folded sweep_world_idle(3)] garbled_credential, of week]
  by (auto simp: sweep_world_idle)

theorem only_unreadable_credentials_stop_the_sweep_witness:
  "\<exists>e w' t v v'. run_compliance_sweep demo_deployment BITUNIX week (sweep_world garbled) = (Inl e, w') \<and>
     tenant_providers demo_deployment t BITUNIX (bind_tenant t (fresh_session v)) = (Inl e, v')"
proof -
  obtain e w' where run: "run_compliance_sweep demo_deployment BITUNIX week (sweep_world garbled) = (Inl e, w')"
  proof -
    have "fst (tenant_providers demo_deployment (row_id (demo_tenant 1 ''alpha'')) BITUNIX
        (bind_tenant (row_id (demo_tenant 1 ''alpha'')) (fresh_session v))) =
        Inl (CredentialEncryptionError (asc ''stored credential could not be decrypted''))"
      if "db v = db (sweep_world garbled)" for v
      using unreadable_providers [OF _ garbled_credential] garbled_world(2) that
      by (simp only: sweep_world_idle)
    from sweep_stops_at_first [OF sweep_world_idle(1) garbled_world(1) this, of week] that
    show thesis by blast
  qed
  from only_unreadable_credentials_stop_the_sweep [OF run sweep_world_idle(1)] run show ?thesis by blast
qed

subsection \<open>Two memberships of one member\<close>

definition twice_db :: database where
  "twice_db = pass_db\<lparr>vip_memberships := [member 12 7 0, (member 13 7 0)\<lparr>channel_id := 14\<rparr>]\<rparr>"

definition twice_world :: world where
  "twice_world = pass_world\<lparr>db := twice_db, start := twice_db\<rparr>"

fun raises_after :: "nat \<Rightarrow> 'a res \<times> world \<Rightarrow> exn \<Rightarrow> bool" where
  "raises_after n (Inl e, w) e' \<longleftrightarrow> e = e' \<and> length (tg_log w) = n"
| "raises_after n (Inr r, w) e' = False"

text \<open>A member of two channels fails the pass: when one user holds two monitored memberships, both checks
  look at the user's first account and record a snapshot of it for the same period, which the unique
  constraint refuses; the pass over the whole tenant fails, here after a warning has been sent (which, the pass being
  undone, the next one sends again).\<close>

theorem second_membership_fails_the_pass:
  "raises_after 1 (pass_and_commit demo_runtime demo_referral demo_telegram week 1 twice_world) IntegrityError"
proof -
  have "pass_and_commit demo_runtime demo_referral demo_telegram week 1 w =
      bindA (demo_claimed_pass demo_referral) (\<lambda>rep. thenA commit (retA rep)) w" if "ticks w = 0" for w
    using demo_pass_claimed [OF that, of demo_referral]
    by (simp add: pass_and_commit_def demo_pass_def bindA_def)
  then have "pass_and_commit demo_runtime demo_referral demo_telegram week 1 twice_world =
      bindA (demo_claimed_pass demo_referral) (\<lambda>rep. thenA commit (retA rep)) twice_world"
    using pass_ticks by (simp add: twice_world_def)
  moreover have "raises_after 1 (bindA (demo_claimed_pass demo_referral) (\<lambda>rep. thenA commit (retA rep)) twice_world)
      IntegrityError"
    by code_simp
  ultimately show ?thesis by simp
qed

subsection \<open>The adapters\<close>

definition demo_keys :: bitunix_credentials where
  "demo_keys = \<lparr>bx_api_key = asc ''k'', bx_api_secret = asc ''s''\<rparr>"

definition demo_check :: referral_check where
  "demo_check = \<lparr>chk_uid = asc ''123456789'', registered = True, deposit_total = Fin False 3505 (- 1),
      qualifying_trades = None\<rparr>"

lemma demo_bitunix_answers:
  "bitunix_validate demo_bitunix demo_keys [] (asc ''123456789'') = Inr demo_check"
proof -
  have "\<not> list_ex surrogate (int_str 1700000000)" "\<not> list_ex surrogate (asc ''s'')"
    "\<not> list_ex surrogate (asc ''123456789'')" "asc ''account'' \<noteq> []" "asc ''timestamp'' \<noteq> []"
    by code_simp+
  then obtain sg where sg: "sign [(asc ''account'', asc ''123456789''), (asc ''timestamp'', int_str 1700000000)]
      (asc ''s'') = Inr sg"
    using sign_InrI [of "[(asc ''account'', asc ''123456789''), (asc ''timestamp'', int_str 1700000000)]"] by auto
  have "parse_user (\<lambda>v. asc ''{...}'') (asc ''123456789'') (JObj [(asc ''result'', JObj
       [(asc ''result'', JBool True), (asc ''deposit_usdt_Onchain'', JStr (asc ''350.5''))])]) = Inr demo_check"
    by code_simp
  then show ?thesis by (simp add: bitunix_validate_def demo_bitunix_def demo_keys_def sg)
qed

theorem bitunix_never_confirms_trading_witness:
  "\<exists>v. bitunix_validate demo_bitunix demo_keys [] (asc ''123456789'') = Inr demo_check \<and>
     evaluate_referral (Some demo_check) \<lparr>minimum_balance = Fin False 300 0,
       minimum_trades_per_period = 1, trade_period_days = 7\<rparr> True = Inr v \<and> \<not> eligible v"
proof -
  have "evaluate_referral (Some demo_check) \<lparr>minimum_balance = Fin False 300 0,
      minimum_trades_per_period = 1, trade_period_days = 7\<rparr> True =
    Inr \<lparr>v_reason = ER_PROVIDER_UNAVAILABLE, v_compliance_state = CS_PROVIDER_UNAVAILABLE,
      balance = Fin False 3505 (- 1), shortfall = dec_zero\<rparr>"
    by code_simp
  with bitunix_never_confirms_trading [OF demo_bitunix_answers this] demo_bitunix_answers
  show ?thesis by blast
qed

text \<open>The pass of the example, with a provider that reports no trades.\<close>

definition silent_referral :: referral_provider where
  "silent_referral = mock_referral_provider BITUNIX
     (mock_register (asc ''123456789'') (Fin False 350 0) True None
       (mock_register (asc ''222222222'') (Fin False 120 0) True None Map.empty)) False"

theorem tradeless_pass_never_restores_witness:
  "\<exists>rep w'. demo_pass silent_referral pass_world = (Inr rep, w') \<and> restored rep = 0 \<and>
     skipped_unavailable rep = 1"
proof -
  have "reports (demo_pass silent_referral pass_world) True [2, 0, 1, 0, 1]"
    unfolding demo_pass_claimed [OF pass_ticks] by code_simp
  then obtain rep w' where run: "demo_pass silent_referral pass_world = (Inr rep, w')"
    "skipped_unavailable rep = 1"
    using reportsD by fastforce
  have "tradeless silent_referral"
    by (auto simp: tradeless_def silent_referral_def mock_referral_provider_def mock_register_def
        split: if_splits)
  from tradeless_pass_never_restores [OF this run(1) [unfolded demo_pass_def]] run show ?thesis by blast
qed

theorem membership_is_never_guessed_witness:
  "\<exists>kvs result. bot_get_chat_member demo_bot_api (asc ''tok'') [] (-100) 5 = Inr MEMBER \<and>
     map_of kvs (asc ''result'') = Some (JObj result) \<and>
     map_of result (asc ''status'') = Some (JStr (asc ''member''))"
proof -
  have st: "bot_get_chat_member demo_bot_api (asc ''tok'') [] (-100) 5 = Inr MEMBER"
    by code_simp
  have "chat_member_status_value MEMBER = asc ''member''" by code_simp
  with membership_is_never_guessed [OF st] st show ?thesis by metis
qed

theorem token_stays_out_of_results_witness:
  "telegram_bot_provider demo_bot_api (asc ''123:abc'') = telegram_bot_provider demo_bot_api (asc ''456:def'')"
  by (rule token_stays_out_of_results) (simp add: demo_bot_api_def)

end
