(* ===== verification/Admin.thy ===== *)
theory Admin
  imports Sessions
begin

text \<open>
  \<open>app/adapters/web/routers/admin.py\<close> and the payloads of \<open>app/adapters/web/schemas/admin_schemas.py\<close>: where a
  tenant configures its own integration. A request is decoded and its constraints are predicates; a response
  is a record without a field for a secret. The \<open>updated_at\<close> stamp of a credential is left out, as that
  column is; \<open>session.refresh\<close> gives back the row that was flushed.
\<close>

subsection \<open>Payloads\<close>

record credential_request =
  crq_provider_type :: provider_type
  crq_name :: ustr
  crq_secret :: ustr

record credential_response =
  crs_id :: uuid
  crs_provider_type :: provider_type
  crs_name :: ustr
  crs_last_four :: "ustr option"
  crs_verified_at :: "datetime option"

record config_request =
  cfq_provider_type :: provider_type
  cfq_market :: market
  cfq_link :: ustr
  cfq_ib_id :: "ustr option"
  cfq_minimum_balance :: decimal
  cfq_minimum_trades :: int
  cfq_period_days :: int
  cfq_grace_days :: int
  cfq_is_active :: bool

record config_response = config_request +
  cfs_id :: uuid

record channel_request =
  chq_market :: market
  chq_chat_id :: int
  chq_title :: "ustr option"
  chq_is_active :: bool

record channel_response = channel_request +
  chs_id :: uuid

record bot_request =
  bq_token :: ustr

record bot_response =
  bs_id :: uuid
  bs_username :: "ustr option"
  bs_last_four :: "ustr option"
  bs_verified_at :: "datetime option"
  webhook_path :: "ustr option"

record check_response =
  bot_ok :: bool
  chk_username :: "ustr option"
  referral_ok :: bool
  channels_checked :: "market list"
  problems :: "ustr list"

definition check_ready :: "check_response \<Rightarrow> bool" where
  "check_ready r \<longleftrightarrow> bot_ok r \<and> referral_ok r \<and> problems r = []"

text \<open>The constraints of the fields.\<close>

definition text_within :: "nat \<Rightarrow> nat \<Rightarrow> ustr \<Rightarrow> bool" where
  "text_within lo hi s \<longleftrightarrow> lo \<le> length s \<and> length s \<le> hi"

fun opt_within :: "nat \<Rightarrow> ustr option \<Rightarrow> bool" where
  "opt_within hi None = True"
| "opt_within hi (Some s) = (length s \<le> hi)"

fun dec_nonneg :: "decimal \<Rightarrow> bool" where
  "dec_nonneg (Fin s c e) = (\<not> s \<or> c = 0)"
| "dec_nonneg _ = False"

definition credential_request_ok :: "credential_request \<Rightarrow> bool" where
  "credential_request_ok q \<longleftrightarrow> text_within 1 100 (crq_name q) \<and> text_within 1 2048 (crq_secret q)"

definition config_request_ok :: "config_request \<Rightarrow> bool" where
  "config_request_ok q \<longleftrightarrow> text_within 1 500 (cfq_link q) \<and> opt_within 100 (cfq_ib_id q) \<and>
     dec_nonneg (cfq_minimum_balance q) \<and> 0 \<le> cfq_minimum_trades q \<and> 1 \<le> cfq_period_days q \<and>
     0 \<le> cfq_grace_days q"

definition channel_request_ok :: "channel_request \<Rightarrow> bool" where
  "channel_request_ok q \<longleftrightarrow> opt_within 255 (chq_title q)"

definition bot_request_ok :: "bot_request \<Rightarrow> bool" where
  "bot_request_ok q \<longleftrightarrow> text_within 1 512 (bq_token q)"

subsection \<open>Secrets\<close>

fun is_encryption_error :: "exn \<Rightarrow> bool" where
  "is_encryption_error (CredentialEncryptionError s) = True"
| "is_encryption_error _ = False"

definition new_credential :: "scoped \<Rightarrow> provider_type \<Rightarrow> ustr \<Rightarrow> ustr \<Rightarrow> ustr \<Rightarrow> provider_credential" where
  "new_credential b pt nm cipher plain =
     \<lparr>row_id = row_id b, created_at = created_at b, tenant_id = tenant_id b, cred_provider_type = pt,
      credential_name = nm, encrypted_secret = cipher, cred_last_four = Some (last_four plain),
      cred_verified_at = None\<rparr>"

definition seal_secret :: "deployment \<Rightarrow> ustr \<Rightarrow> ustr act" where
  "seal_secret dep plain =
     tryA (encrypt_secret (dep_cipher dep) plain)
       (\<lambda>e. if is_encryption_error e then Some (raiseA (HTTPException 503)) else None)"

definition store_secret ::
  "deployment \<Rightarrow> uuid \<Rightarrow> provider_type \<Rightarrow> ustr \<Rightarrow> ustr \<Rightarrow> provider_credential act" where
  "store_secret dep t pt nm plain =
     bindA (get_named t pt nm) (\<lambda>existing.
     bindA (seal_secret dep plain) (\<lambda>cipher.
     case existing of
       Some r \<Rightarrow>
         (let r' = r\<lparr>encrypted_secret := cipher, cred_last_four := Some (last_four plain),
                     cred_verified_at := None\<rparr> in
          thenA (touch_row credentials_table r') (retA r'))
     | None \<Rightarrow>
         bindA (new_scoped (dep_runtime dep) t) (\<lambda>b.
         save credentials_table True t (new_credential b pt nm cipher plain))))"

definition credential_view :: "provider_credential \<Rightarrow> credential_response" where
  "credential_view r =
     \<lparr>crs_id = row_id r, crs_provider_type = cred_provider_type r, crs_name = credential_name r,
      crs_last_four = cred_last_four r, crs_verified_at = cred_verified_at r\<rparr>"

definition upsert_credential :: "deployment \<Rightarrow> uuid \<Rightarrow> credential_request \<Rightarrow> credential_response act" where
  "upsert_credential dep t q =
     bindA (store_secret dep t (crq_provider_type q) (crq_name q) (crq_secret q)) (\<lambda>r.
     thenA flush (retA (credential_view r)))"

definition list_credentials :: "uuid \<Rightarrow> credential_response list act" where
  "list_credentials t = bindA (list_all credentials_table t 100 0) (\<lambda>rs. retA (map credential_view rs))"

subsection \<open>The referral programme and the channels\<close>

definition new_config :: "scoped \<Rightarrow> config_request \<Rightarrow> referral_program_config" where
  "new_config b q =
     \<lparr>row_id = row_id b, created_at = created_at b, tenant_id = tenant_id b,
      cfg_provider_type = cfq_provider_type q, cfg_market = cfq_market q, referral_link = cfq_link q,
      ib_id = None, cfg_minimum_balance = Fin False 300 0, cfg_minimum_trades_per_period = 1,
      cfg_trade_period_days = 7, compliance_grace_period_days = 30, cfg_is_active = True\<rparr>"

definition set_config :: "config_request \<Rightarrow> referral_program_config \<Rightarrow> referral_program_config" where
  "set_config q c = c\<lparr>referral_link := cfq_link q, ib_id := cfq_ib_id q,
     cfg_minimum_balance := cfq_minimum_balance q,
     cfg_minimum_trades_per_period := cfq_minimum_trades q,
     cfg_trade_period_days := cfq_period_days q,
     compliance_grace_period_days := cfq_grace_days q, cfg_is_active := cfq_is_active q\<rparr>"

definition config_view :: "referral_program_config \<Rightarrow> config_response" where
  "config_view c =
     \<lparr>cfq_provider_type = cfg_provider_type c, cfq_market = cfg_market c, cfq_link = referral_link c,
      cfq_ib_id = ib_id c, cfq_minimum_balance = cfg_minimum_balance c,
      cfq_minimum_trades = cfg_minimum_trades_per_period c, cfq_period_days = cfg_trade_period_days c,
      cfq_grace_days = compliance_grace_period_days c, cfq_is_active = cfg_is_active c, cfs_id = row_id c\<rparr>"

definition upsert_referral_config :: "runtime \<Rightarrow> uuid \<Rightarrow> config_request \<Rightarrow> config_response act" where
  "upsert_referral_config env t q =
     bindA (get_for t (cfq_provider_type q) (cfq_market q)) (\<lambda>found.
     bindA
       (case found of
          Some c \<Rightarrow> retA c
        | None \<Rightarrow> bindA (new_scoped env t) (\<lambda>b. save configs_table True t (new_config b q))) (\<lambda>c.
     thenA (touch_row configs_table (set_config q c))
     (thenA flush (retA (config_view (set_config q c))))))"

definition new_channel :: "scoped \<Rightarrow> channel_request \<Rightarrow> telegram_channel" where
  "new_channel b q =
     \<lparr>row_id = row_id b, created_at = created_at b, tenant_id = tenant_id b, ch_market = chq_market q,
      chat_id = chq_chat_id q, title = None, ch_is_active = True\<rparr>"

definition set_channel :: "channel_request \<Rightarrow> telegram_channel \<Rightarrow> telegram_channel" where
  "set_channel q c = c\<lparr>chat_id := chq_chat_id q, title := chq_title q, ch_is_active := chq_is_active q\<rparr>"

definition channel_view :: "telegram_channel \<Rightarrow> channel_response" where
  "channel_view c = \<lparr>chq_market = ch_market c, chq_chat_id = chat_id c, chq_title = title c,
     chq_is_active = ch_is_active c, chs_id = row_id c\<rparr>"

definition upsert_channel :: "runtime \<Rightarrow> uuid \<Rightarrow> channel_request \<Rightarrow> channel_response act" where
  "upsert_channel env t q =
     bindA (get_for_market t (chq_market q)) (\<lambda>found.
     bindA
       (case found of
          Some c \<Rightarrow> retA c
        | None \<Rightarrow> bindA (new_scoped env t) (\<lambda>b. save channels_table True t (new_channel b q))) (\<lambda>c.
     thenA (touch_row channels_table (set_channel q c))
     (thenA flush (retA (channel_view (set_channel q c))))))"

definition list_channels :: "uuid \<Rightarrow> channel_response list act" where
  "list_channels t = bindA (list_all channels_table t 100 0) (\<lambda>cs. retA (map channel_view cs))"

subsection \<open>The bot and its webhook path\<close>

text \<open>\<open>tokens\<close> is the source of \<open>secrets.token_urlsafe(32)\<close>; like UUIDs, tokens are drawn by number.\<close>

definition TELEGRAM_PROVIDER :: ustr where
  "TELEGRAM_PROVIDER = asc ''TELEGRAM''"

definition insert_route :: "webhook_route \<Rightarrow> unit act" where
  "insert_route r = (\<lambda>w.
     if \<exists>x \<in> set (routes (db w)). row_id x = row_id r \<or> token x = token r then (Inl IntegrityError, w)
     else (Inr (), w\<lparr>db := (db w)\<lparr>routes := routes (db w) @ [r]\<rparr>\<rparr>))"

definition ensure_webhook_route :: "runtime \<Rightarrow> (nat \<Rightarrow> ustr) \<Rightarrow> uuid \<Rightarrow> ustr act" where
  "ensure_webhook_route env tokens t =
     bindA (thenA flush (statement (readA (\<lambda>w.
       filter (\<lambda>r. route_tenant_id r = t \<and> provider r = TELEGRAM_PROVIDER) (routes (db w)))))) (\<lambda>rs.
     bindA (liftR (one_or_none rs)) (\<lambda>existing.
     case existing of
       Some r \<Rightarrow> retA (token r)
     | None \<Rightarrow>
         bindA (readA draws) (\<lambda>k.
         bindA (new_scoped env t) (\<lambda>b.
         let r = \<lparr>row_id = row_id b, created_at = created_at b, token = take 64 (tokens k),
                  route_tenant_id = t, provider = TELEGRAM_PROVIDER\<rparr> in
         thenA (in_flush (thenA write_pending (insert_route r))) (retA (token r))))))"

definition new_bot_config :: "scoped \<Rightarrow> uuid \<Rightarrow> telegram_bot_config" where
  "new_bot_config b cred =
     \<lparr>row_id = row_id b, created_at = created_at b, tenant_id = tenant_id b, credential_id = cred,
      bot_username = None, bot_verified_at = None\<rparr>"

text \<open>The check of the token that was just installed: with it the two rows are stamped, without it the
  configuration is left unverified.\<close>

definition verify_bot ::
  "deployment \<Rightarrow> uuid \<Rightarrow> telegram_bot_config \<Rightarrow> provider_credential \<Rightarrow> telegram_bot_config act" where
  "verify_bot dep t config credential =
     tryA
       (bindA (factory_telegram dep t) (\<lambda>tp.
        bindA (get_me tp) (\<lambda>identity.
        bindA (utcnow (dep_runtime dep)) (\<lambda>now.
        let config' = config\<lparr>bot_username := bot_name identity, bot_verified_at := Some now\<rparr> in
        thenA (touch_row bot_configs_table config')
        (thenA (touch_row credentials_table (credential\<lparr>cred_verified_at := Some now\<rparr>))
        (retA config'))))))
       (\<lambda>e. if is_unavailable e \<or> is_missing e then
            (let config' = config\<lparr>bot_username := None, bot_verified_at := None\<rparr> in
             Some (thenA (touch_row bot_configs_table config') (retA config')))
          else None)"

definition WEBHOOK_PATH_PREFIX :: ustr where
  "WEBHOOK_PATH_PREFIX = asc ''/api/v1/telegram/''"

definition upsert_bot :: "deployment \<Rightarrow> (nat \<Rightarrow> ustr) \<Rightarrow> uuid \<Rightarrow> bot_request \<Rightarrow> bot_response act" where
  "upsert_bot dep tokens t q =
     bindA (store_secret dep t TELEGRAM TELEGRAM_BOT_TOKEN (bq_token q)) (\<lambda>credential.
     thenA flush
     (bindA (get_bot_config t) (\<lambda>found.
      bindA
        (case found of
           Some c \<Rightarrow> retA c
         | None \<Rightarrow> bindA (new_scoped (dep_runtime dep) t) (\<lambda>b.
             save bot_configs_table True t (new_bot_config b (row_id credential)))) (\<lambda>c.
      let config = c\<lparr>credential_id := row_id credential\<rparr> in
      thenA (touch_row bot_configs_table config)
      (bindA (ensure_webhook_route (dep_runtime dep) tokens t) (\<lambda>tok.
       bindA (verify_bot dep t config credential) (\<lambda>config'.
       thenA flush
       (retA \<lparr>bs_id = row_id config', bs_username = bot_username config',
              bs_last_four = cred_last_four credential, bs_verified_at = bot_verified_at config',
              webhook_path = Some (WEBHOOK_PATH_PREFIX @ tok)\<rparr>))))))))"

subsection \<open>The integration check\<close>

definition check_bot :: "deployment \<Rightarrow> uuid \<Rightarrow> (bool \<times> ustr option \<times> ustr list) act" where
  "check_bot dep t =
     tryA
       (bindA (factory_telegram dep t) (\<lambda>tp.
        bindA (get_me tp) (\<lambda>identity. retA (True, bot_name identity, []))))
       (\<lambda>e. case e of
            MissingCredentialError s \<Rightarrow> Some (retA (False, None, [asc ''Telegram bot token is not configured'']))
          | ProviderUnavailableError s \<Rightarrow>
              Some (retA (False, None, [asc ''Telegram rejected the token: '' @ s]))
          | _ \<Rightarrow> None)"

definition check_referral :: "deployment \<Rightarrow> uuid \<Rightarrow> (bool \<times> ustr list) act" where
  "check_referral dep t =
     tryA (bindA (factory_referral dep t BITUNIX) (\<lambda>rp. retA (True, [])))
       (\<lambda>e. case e of MissingCredentialError s \<Rightarrow> Some (retA (False, [s])) | _ \<Rightarrow> None)"

definition config_problems :: "referral_program_config list \<Rightarrow> market list \<Rightarrow> ustr list" where
  "config_problems cs ms =
     map (\<lambda>m. asc ''no referral programme configured for '' @ market_value m)
       (filter (\<lambda>m. \<not> list_ex (\<lambda>c. cfg_market c = m \<and> cfg_is_active c) cs) ms)"

definition check_integration :: "deployment \<Rightarrow> uuid \<Rightarrow> check_response act" where
  "check_integration dep t =
     bindA (check_bot dep t) (\<lambda>(ok, uname, ps).
     bindA (check_referral dep t) (\<lambda>(rok, rps).
     bindA (list_all channels_table t 100 0) (\<lambda>chans.
     let checked = map ch_market (filter ch_is_active chans) in
     bindA (list_all configs_table t 100 0) (\<lambda>cs.
     retA \<lparr>bot_ok = ok, chk_username = uname, referral_ok = rok, channels_checked = checked,
            problems = ps @ rps @
              (if checked = [] then [asc ''no active VIP channel is configured''] else []) @
              config_problems cs checked\<rparr>))))"

subsection \<open>What the administration keeps\<close>

text \<open>Relations kept by the writes of the configuration tables, and by a new route of tenant \<open>t\<close>.\<close>

locale setup_relation = messaging_relation S R for S R +
  fixes t :: uuid
  assumes configs_kept: "keeps S (insert_row configs_table c)" "keeps S (put_row configs_table c)"
    and channels_kept: "keeps S (insert_row channels_table ch)" "keeps S (put_row channels_table ch)"
    and bots_kept: "keeps S (insert_row bot_configs_table b)" "keeps S (put_row bot_configs_table b)"
    and credentials_kept:
      "keeps S (insert_row credentials_table cr)" "keeps S (put_row credentials_table cr)"
    and routes_kept: "route_tenant_id r = t \<Longrightarrow> keeps S (insert_route r)"
begin

lemma keeps_setup_writes [keeps_rules]:
  "keeps R (save configs_table n t' c)" "keeps R (touch_row configs_table c)"
  "keeps R (save channels_table n t' ch)" "keeps R (touch_row channels_table ch)"
  "keeps R (save bot_configs_table n t' b)" "keeps R (touch_row bot_configs_table b)"
  "keeps R (save credentials_table n t' cr)" "keeps R (touch_row credentials_table cr)"
  by (intro keeps_save keeps_touch_row configs_kept channels_kept bots_kept credentials_kept)+

lemma keeps_encrypt [keeps_rules]: "keeps R (encrypt_secret env plain)"
  unfolding encrypt_secret_def
  by (intro keeps_if keeps_raiseA keeps_bindA keeps_liftR) (simp add: keeps_def draws_kept)

lemma keeps_store_secret [keeps_rules]: "keeps R (store_secret dep t' pt nm plain)"
  unfolding store_secret_def seal_secret_def
  by (intro keeps_bindA keeps_queries keeps_tryA keeps_encrypt keeps_case_option keeps_Let keeps_thenA
      keeps_setup_writes keeps_retA keeps_new_scoped) (auto intro: keeps_raiseA split: if_splits)

lemma keeps_credentials [keeps_rules]:
  "keeps R (upsert_credential dep t' q)" "keeps R (list_credentials t')"
  unfolding upsert_credential_def list_credentials_def
  by (intro keeps_bindA keeps_store_secret keeps_thenA keeps_flush keeps_retA keeps_queries)+

lemma keeps_configs [keeps_rules]:
  "keeps R (upsert_referral_config env t' cq)" "keeps R (upsert_channel env t' q)" "keeps R (list_channels t')"
  unfolding upsert_referral_config_def upsert_channel_def list_channels_def
  by (intro keeps_bindA keeps_queries keeps_case_option keeps_retA keeps_new_scoped keeps_setup_writes
      keeps_thenA keeps_flush)+

lemma keeps_ensure_route [keeps_rules]: "keeps R (ensure_webhook_route env tokens t)"
  unfolding ensure_webhook_route_def Let_def
  by (intro keeps_bindA keeps_thenA keeps_flush keeps_statement inner.keeps_readA keeps_liftR keeps_case_option
      keeps_retA keeps_readA keeps_new_scoped keeps_in_flush inner.keeps_thenA keeps_write_pending
      routes_kept) simp

lemma keeps_factory_telegram [keeps_rules]: "keeps R (factory_telegram dep t')"
  unfolding factory_telegram_def
  by (intro keeps_bindA keeps_queries keeps_case_option keeps_raiseA keeps_secret keeps_retA)

lemma keeps_factory_referral [keeps_rules]: "keeps R (factory_referral dep t' pt)"
  unfolding factory_referral_def
  by (intro keeps_if keeps_bindA keeps_secret keeps_retA keeps_raiseA)

lemma keeps_verify_bot [keeps_rules]: "keeps R (verify_bot dep t' config cred)"
  unfolding verify_bot_def
  by (intro keeps_tryA keeps_bindA keeps_factory_telegram keeps_talk keeps_utcnow keeps_Let keeps_thenA
      keeps_setup_writes keeps_retA) (auto simp: Let_def intro: keeps_thenA keeps_setup_writes keeps_retA split: if_splits)

lemma keeps_upsert_bot [keeps_rules]: "keeps R (upsert_bot dep tokens t q)"
  unfolding upsert_bot_def
  by (intro keeps_bindA keeps_store_secret keeps_thenA keeps_flush keeps_queries keeps_case_option keeps_retA
      keeps_new_scoped keeps_setup_writes keeps_Let keeps_ensure_route keeps_verify_bot)

lemma keeps_check_integration [keeps_rules]: "keeps R (check_integration dep t')"
proof -
  have "keeps R (check_bot dep t')" "keeps R (check_referral dep t')"
    unfolding check_bot_def check_referral_def
    by (intro keeps_tryA keeps_bindA keeps_factory_telegram keeps_factory_referral keeps_talk keeps_retA;
        auto intro: keeps_retA split: exn.splits)+
  then show ?thesis
    unfolding check_integration_def Let_def
    by (auto intro!: keeps_bindA keeps_queries keeps_retA split: prod.split)
qed

end

lemma insert_route_kept: "route_tenant_id r = t \<Longrightarrow> keeps (iso_tx t) (insert_route r)"
  by (auto simp: keeps_def iso_tx_def insert_route_def sess_def others_def)

interpretation iso: setup_relation "iso_tx t" "iso t" t for t
  by unfold_locales (erule insert_route_kept | rule keeps_rules)+

lemma insert_route_keyed: "keeps ukeys_tx (insert_route r)"
  by (auto simp: keeps_def ukeys_tx_def keyed_def insert_route_def unique_keys_def split: if_splits)

lemma insert_route_grows: "keeps grows (insert_route r)"
  by (simp add: keeps_def grows_def insert_route_def)

lemma insert_route_spares: "keeps spares (insert_route r)"
  by (simp add: keeps_def spares_def removals_def insert_route_def)

interpretation spares: setup_relation spares spares t for t
  by unfold_locales (rule keeps_rules insert_route_spares)+

interpretation ukeys: setup_relation ukeys_tx ukeys t for t
  by unfold_locales (rule keeps_rules insert_route_keyed)+

interpretation grows: setup_relation grows grows t for t
  by unfold_locales (rule keeps_rules insert_route_grows)+

subsection \<open>Rows found again\<close>

text \<open>A row that is alone with its key is the one a query by that key finds.\<close>

lemma found_by_key:
  assumes "table_unique tbl rs" and "x \<in> set rs" and "p x"
    and "\<And>y. y \<in> set rs \<Longrightarrow> p y \<Longrightarrow> tbl_clash tbl x y \<or> row_id x = row_id y"
    and "\<And>x y. tbl_clash tbl x y \<Longrightarrow> tbl_clash tbl y x"
  shows "one_or_none (filter p rs) = Inr (Some x)"
proof -
  have only: "y = x" if "y \<in> set (filter p rs)" for y
    using table_unique_pair [OF assms(1,5) _ _] that assms(2,4) by auto
  have "distinct rs" using assms(1) unfolding table_unique_def by (induction rs) auto
  then have "distinct (filter p rs)" by simp
  moreover have x: "x \<in> set (filter p rs)" using assms(2,3) by simp
  ultimately have "filter p rs = [x]"
  proof (cases "filter p rs" rule: one_or_none.cases)
    case (2 y)
    with only [of y] show ?thesis by simp
  next
    case (3 y z zs)
    have "y \<in> set (filter p rs)" "z \<in> set (filter p rs)" unfolding 3 by simp_all
    with only have "y = z" by metis
    with \<open>distinct (filter p rs)\<close> show ?thesis unfolding 3 by simp
  qed (use x in simp)
  then show ?thesis by simp
qed

lemma updated_in:
  assumes "\<exists>x \<in> set rs. hit x" shows "r \<in> set (update_where hit (\<lambda>_. r) rs)"
  using assms by (auto simp: set_update_where image_iff)

lemma tryA_raise_InrD:
  "tryA m (\<lambda>e. if P e then Some (raiseA (f e)) else None) w = (Inr x, w') \<Longrightarrow> m w = (Inr x, w')"
  by (auto simp: tryA_def split: prod.splits sum.splits if_splits)

lemma get_named_ready:
  "ready t w \<Longrightarrow> get_named t pt nm w = (one_or_none (filter (\<lambda>r. tenant_id r = t \<and>
     cred_provider_type r = pt \<and> credential_name r = nm) (credentials (db w))), w)"
  by (simp add: get_named_def find_one_ready) (simp add: credentials_table_def)

lemma get_bot_config_ready:
  "ready t w \<Longrightarrow> get_bot_config t w = (one_or_none (filter (\<lambda>r. tenant_id r = t) (bot_configs (db w))), w)"
  using find_one_ready [of t w bot_configs_table "\<lambda>r. True"]
  by (simp add: get_bot_config_def) (simp add: bot_configs_table_def)

text \<open>What a stored secret comes to.\<close>

lemma store_secret_InrD:
  assumes "store_secret dep t pt nm plain w = (Inr r, w')" and "ready t w"
  shows "ready t w' \<and> r \<in> set (credentials (db w')) \<and> tenant_id r = t \<and> cred_provider_type r = pt \<and>
    credential_name r = nm \<and> cred_last_four r = Some (last_four plain) \<and> cred_verified_at r = None \<and>
    (\<exists>k n. cipher_key (dep_cipher dep) = Inr k \<and> encodable plain \<and> encrypted_secret r = ce_encrypt (dep_cipher dep) k n plain) \<and>
    (\<exists>cs. db w' = (db w)\<lparr>credentials := cs\<rparr>)"
proof -
  from assms(1) obtain found w1 c w2 where
    g: "get_named t pt nm w = (Inr found, w1)"
    and e: "seal_secret dep plain w1 = (Inr c, w2)"
    and k: "(case found of
       Some r \<Rightarrow>
         (let r' = r\<lparr>encrypted_secret := c, cred_last_four := Some (last_four plain), cred_verified_at := None\<rparr> in
          thenA (touch_row credentials_table r') (retA r'))
     | None \<Rightarrow>
         bindA (new_scoped (dep_runtime dep) t) (\<lambda>b.
         save credentials_table True t (new_credential b pt nm c plain))) w2 = (Inr r, w')"
    unfolding store_secret_def bindA_eq_Inr by (elim exE conjE) (rule that)
  from find_one_InrD [OF g [unfolded get_named_def] assms(2)]
  have w1: "w1 = w" and found: "one_or_none (filter (\<lambda>c. tenant_id c = t \<and> tenant_id c = t \<and> cred_provider_type c = pt \<and>
      credential_name c = nm) (credentials (db w))) = Inr found"
    by (simp_all add: credentials_table_def)
  obtain key where c: "cipher_key (dep_cipher dep) = Inr key" "encodable plain"
      "c = ce_encrypt (dep_cipher dep) key (draws w) plain" and w2: "w2 = w\<lparr>draws := Suc (draws w)\<rparr>"
    using tryA_raise_InrD [OF e [unfolded seal_secret_def]] w1 by (auto simp: encrypt_secret_def bindA_eq_Inr split: if_splits)
  have rdy: "ready t w2" using assms(2) w2 by simp
  show ?thesis
  proof (cases found)
    case None
    with k obtain b w3 where b: "new_scoped (dep_runtime dep) t w2 = (Inr b, w3)"
        "save credentials_table True t (new_credential b pt nm c plain) w3 = (Inr r, w')"
      by (auto simp: bindA_eq_Inr)
    with new_scoped_InrD [OF b(1)] rdy have "ready t w3" by auto
    from save_InrD [OF b(2) this] new_scoped_InrD [OF b(1)] c \<open>ready t w3\<close> w2 show ?thesis
      by (auto simp: new_credential_def credentials_table_def)
  next
    case (Some r0)
    let ?r = "r0\<lparr>encrypted_secret := c, cred_last_four := Some (last_four plain), cred_verified_at := None\<rparr>"
    from k Some have t: "touch_row credentials_table ?r w2 = (Inr (), w')" and r: "r = ?r"
      by (auto simp: Let_def thenA_def bindA_eq_Inr)
    have r0: "r0 \<in> set (filter (\<lambda>c. tenant_id c = t \<and> tenant_id c = t \<and> cred_provider_type c = pt \<and>
      credential_name c = nm) (credentials (db w)))"
      using one_or_none_SomeD [OF found [unfolded Some]] by simp
    from touch_row_InrD [OF t rdy] rdy r r0 c w2 show ?thesis
      by (auto simp: credentials_table_def updated_in)
  qed
qed

subsection \<open>Properties of the secrets\<close>

lemma upsert_credential_InrD:
  assumes "upsert_credential dep t q w = (Inr resp, w')" and "ready t w"
  obtains r where "store_secret dep t (crq_provider_type q) (crq_name q) (crq_secret q) w = (Inr r, w')"
    "resp = credential_view r"
proof -
  from assms(1) obtain r w1 where s: "store_secret dep t (crq_provider_type q) (crq_name q) (crq_secret q) w = (Inr r, w1)"
    and f: "flush w1 = (Inr (), w')" and v: "resp = credential_view r"
    by (auto simp: upsert_credential_def bindA_eq_Inr thenA_def)
  have "ready t w1" using store_secret_InrD [OF s assms(2)] by blast
  with f have "w' = w1" by (simp add: flush_def ready_def)
  with s v that show thesis by simp
qed

text \<open>C32. The secret that was entered is the secret that is used: after a PUT of a credential that returned,
  the provider factory reads back exactly the text that was sent, under a cipher that decrypts what it
  encrypted; there is one row for the name, so a rotation leaves nothing of the old secret.\<close>

theorem entered_secret_is_used:
  assumes "upsert_credential dep t q w = (Inr resp, w')" and "ready t w" and "keyed w"
    and "\<And>k n s. ce_decrypt (dep_cipher dep) k (ce_encrypt (dep_cipher dep) k n s) = Some s"
    and "\<And>k n s. encodable (ce_encrypt (dep_cipher dep) k n s)"
  shows "secret dep t (crq_provider_type q) (crq_name q) w' = (Inr (crq_secret q), w')"
proof -
  have "keyed w'" using keepsD [OF ukeys.keeps_credentials(1) assms(1)] assms(3) by (simp add: ukeys_def)
  then have uniq': "table_unique credentials_table (credentials (db w'))" by (simp add: keyed_def unique_keys_def)
  obtain r where st: "store_secret dep t (crq_provider_type q) (crq_name q) (crq_secret q) w = (Inr r, w')"
    using upsert_credential_InrD [OF assms(1,2)] .
  note r = store_secret_InrD [OF st assms(2)]
  have "one_or_none (filter (\<lambda>c. tenant_id c = t \<and> cred_provider_type c = crq_provider_type q \<and>
      credential_name c = crq_name q) (credentials (db w'))) = Inr (Some r)"
    by (rule found_by_key [OF uniq']) (use r in \<open>auto simp: credentials_table_def\<close>)
  with r have "get_named t (crq_provider_type q) (crq_name q) w' = (Inr (Some r), w')"
    by (simp add: get_named_ready)
  moreover have "decrypt_secret (dep_cipher dep) (encrypted_secret r) = Inr (crq_secret q)"
    using r assms(4,5) by (auto simp: decrypt_secret_def)
  ultimately show ?thesis by (simp add: secret_def bindA_def)
qed

text \<open>Rows that differ in the sealed text only are written alike.\<close>

definition alike :: "provider_credential \<Rightarrow> provider_credential \<Rightarrow> bool" where
  "alike a b \<longleftrightarrow> a\<lparr>encrypted_secret := []\<rparr> = b\<lparr>encrypted_secret := []\<rparr>"

lemma alikeD:
  assumes "alike a b"
  shows "row_id a = row_id b" "tenant_id a = tenant_id b" "tbl_clash credentials_table x a = tbl_clash credentials_table x b"
    "credential_view a = credential_view b" "row_policy w a = row_policy w b"
  using assms by (cases a; cases b; simp add: alike_def credentials_table_def credential_view_def row_policy_def)+

lemma alike_put: "alike a b \<Longrightarrow> fst (put_row credentials_table a w) = fst (put_row credentials_table b w)"
  by (simp add: put_row_def Let_def alikeD if_distrib [of fst] cong: if_cong)

lemma alike_insert: "alike a b \<Longrightarrow> fst (insert_row credentials_table a w) = fst (insert_row credentials_table b w)"
  by (simp add: insert_row_def alikeD if_distrib [of fst] cong: if_cong)

lemma in_flush_fst: "fst (m (begin_tx w)) = fst (n (begin_tx w)) \<Longrightarrow> fst (in_flush m w) = fst (in_flush n w)"
  by (auto simp: in_flush_def statement_def split: prod.splits sum.splits)

lemma alike_touch:
  "alike a b \<Longrightarrow> ready t w \<Longrightarrow> fst (touch_row credentials_table a w) = fst (touch_row credentials_table b w)"
  by (auto simp: touch_row_def intro!: in_flush_fst alike_put)

lemma alike_save:
  assumes "alike a b" and "ready t w"
  shows "fst (save credentials_table True t a w) = Inl e \<longleftrightarrow> fst (save credentials_table True t b w) = Inl e"
    and "fst (save credentials_table True t a w) = Inr x \<Longrightarrow>
      \<exists>y. fst (save credentials_table True t b w) = Inr y \<and> alike x y"
proof -
  have ab: "alike (a\<lparr>tenant_id := t\<rparr>) (b\<lparr>tenant_id := t\<rparr>)"
    using assms(1) by (cases a; cases b; simp add: alike_def)
  have "fst (add_row credentials_table (a\<lparr>tenant_id := t\<rparr>) w) = fst (add_row credentials_table (b\<lparr>tenant_id := t\<rparr>) w)"
    unfolding add_row_def
    by (rule in_flush_fst)
      (use assms(2) in \<open>simp add: ready_begin_tx thenA_def bindA_def write_pending_ready [OF assms(2)] alike_insert [OF ab]\<close>)
  with ab show "fst (save credentials_table True t a w) = Inl e \<longleftrightarrow> fst (save credentials_table True t b w) = Inl e"
    "fst (save credentials_table True t a w) = Inr x \<Longrightarrow>
      \<exists>y. fst (save credentials_table True t b w) = Inr y \<and> alike x y"
    by (auto simp: save_def Let_def thenA_def bindA_def split: prod.splits sum.splits)
qed

lemma upsert_credential_fst:
  assumes "ready t w"
  shows "fst (upsert_credential dep t q w) =
    map_sum id credential_view (fst (store_secret dep t (crq_provider_type q) (crq_name q) (crq_secret q) w))"
proof -
  obtain r v where st: "store_secret dep t (crq_provider_type q) (crq_name q) (crq_secret q) w = (r, v)" by fastforce
  show ?thesis
  proof (cases r)
    case (Inl e)
    with st show ?thesis by (simp add: upsert_credential_def bindA_def)
  next
    case (Inr x)
    then have "ready t v" using store_secret_InrD [OF st [unfolded Inr] assms] by blast
    with st Inr show ?thesis by (simp add: upsert_credential_def bindA_def thenA_def flush_def ready_def)
  qed
qed

lemma store_secret_alike:
  assumes "ready t w" and "last_four s = last_four s'" and "s \<noteq> []" "s' \<noteq> []" "encodable s" "encodable s'"
    and "fst (store_secret dep t pt nm s w) = res"
  shows "case res of
     Inl e \<Rightarrow> fst (store_secret dep t pt nm s' w) = Inl e
   | Inr x \<Rightarrow> \<exists>y. fst (store_secret dep t pt nm s' w) = Inr y \<and> alike x y"
proof (cases "one_or_none (filter (\<lambda>r. tenant_id r = t \<and> cred_provider_type r = pt \<and> credential_name r = nm)
    (credentials (db w)))")
  case (Inl e)
  with assms(1,7) show ?thesis by (auto simp: store_secret_def bindA_def get_named_ready)
next
  case (Inr found)
  show ?thesis
  proof (cases "cipher_key (dep_cipher dep)")
    case (Inl e)
    with assms Inr show ?thesis
      by (auto simp: store_secret_def bindA_def get_named_ready seal_secret_def encrypt_secret_def tryA_def)
  next
    case key: (Inr k)
    let ?w = "w\<lparr>draws := Suc (draws w)\<rparr>"
    let ?c = "\<lambda>x. ce_encrypt (dep_cipher dep) k (draws w) x"
    have seal: "seal_secret dep x w = (Inr (?c x), ?w)" if "x \<noteq> []" "encodable x" for x
      using that key by (simp add: seal_secret_def encrypt_secret_def tryA_def bindA_def)
    show ?thesis
    proof (cases found)
      case (Some r0)
      let ?r = "\<lambda>x. r0\<lparr>encrypted_secret := ?c x, cred_last_four := Some (last_four x), cred_verified_at := None\<rparr>"
      have run: "fst (store_secret dep t pt nm x w) =
          map_sum id (\<lambda>_. ?r x) (fst (touch_row credentials_table (?r x) ?w))" if "x \<noteq> []" "encodable x" for x
        using Inr Some assms(1) seal [OF that]
        by (auto simp: store_secret_def bindA_def get_named_ready Let_def thenA_def split: prod.splits sum.splits)
      have al: "alike (?r s) (?r s')" using assms(2) by (simp add: alike_def)
      from this have "fst (touch_row credentials_table (?r s) ?w) = fst (touch_row credentials_table (?r s') ?w)"
        using assms(1) by (intro alike_touch [of _ _ t]) simp_all
      with run [OF assms(3,5)] assms(7)
      have "res = map_sum id (\<lambda>_. ?r s) (fst (touch_row credentials_table (?r s') ?w))" by simp
      with al run [OF assms(4,6)] show ?thesis
        by (cases "fst (touch_row credentials_table (?r s') ?w)") simp_all
    next
      case None
      obtain b v where b: "new_scoped (dep_runtime dep) t ?w = (Inr b, v)"
        by (simp add: new_scoped_def new_id_def utcnow_def bindA_def)
      have rdy: "ready t v" using new_scoped_InrD [OF b] assms(1) by simp
      let ?r = "\<lambda>x. new_credential b pt nm (?c x) x"
      have run: "fst (store_secret dep t pt nm x w) = fst (save credentials_table True t (?r x) v)"
        if "x \<noteq> []" "encodable x" for x
        using Inr None assms(1) seal [OF that] b by (simp add: store_secret_def bindA_def get_named_ready)
      have al: "alike (?r s) (?r s')" using assms(2) by (simp add: alike_def new_credential_def)
      show ?thesis
        using alike_save [OF al rdy] run [OF assms(3,5)] run [OF assms(4,6)] assms(7) by (auto split: sum.split)
    qed
  qed
qed

text \<open>C33. A secret does not come back: the answer to a PUT of a credential (its record, or the error) is the
  same for any two secrets that end in the same four characters, so nothing else of the secret can be
  told from it.\<close>

theorem secret_is_not_shown:
  assumes "ready t w" and "last_four s = last_four s'" and "s \<noteq> []" "s' \<noteq> []" and "encodable s" "encodable s'"
  shows "fst (upsert_credential dep t (q\<lparr>crq_secret := s\<rparr>) w) = fst (upsert_credential dep t (q\<lparr>crq_secret := s'\<rparr>) w)"
  using store_secret_alike [OF assms refl, of dep "crq_provider_type q" "crq_name q"]
  by (auto simp: upsert_credential_fst [OF assms(1)] alikeD(4) split: sum.splits)

end
