(* ===== verification/Payments.thy ===== *)
theory Payments
  imports Admin
begin

text \<open>
  \<open>app/services/payment_service.py\<close> with the payloads of \<open>app/schemas/payment.py\<close>: what a payment webhook
  leaves behind.
\<close>

record payment_request =
  prq_tx_hash :: ustr
  prq_user_id :: uuid
  prq_amount :: decimal
  prq_currency :: ustr

record payment_response =
  prs_status :: ustr
  prs_payment_id :: uuid
  prs_tx_hash :: ustr

text \<open>\<open>gt=0\<close>; infinities and NaN are no amounts.\<close>

fun dec_positive :: "decimal \<Rightarrow> bool" where
  "dec_positive (Fin s c e) = (\<not> s \<and> c \<noteq> 0)"
| "dec_positive _ = False"

definition payment_request_ok :: "payment_request \<Rightarrow> bool" where
  "payment_request_ok q \<longleftrightarrow> 1 \<le> length (prq_tx_hash q) \<and> dec_positive (prq_amount q) \<and>
     text_within 2 10 (prq_currency q)"

definition new_payment :: "scoped \<Rightarrow> payment_request \<Rightarrow> payment_record" where
  "new_payment b q =
     \<lparr>row_id = row_id b, created_at = created_at b, tenant_id = tenant_id b, pay_user_id = prq_user_id q,
      tx_hash = prq_tx_hash q, amount = prq_amount q, currency = prq_currency q,
      pay_status = asc ''PROCESSED''\<rparr>"

definition process_payment :: "runtime \<Rightarrow> uuid \<Rightarrow> payment_request \<Rightarrow> payment_response act" where
  "process_payment env t q =
     bindA (new_scoped env t) (\<lambda>b.
     bindA (save payments_table True t (new_payment b q)) (\<lambda>r.
     retA \<lparr>prs_status = pay_status r, prs_payment_id = row_id r, prs_tx_hash = tx_hash r\<rparr>))"

text \<open>A first statement begins the transaction it needs.\<close>

lemma in_flush_begin: "\<not> failed w \<Longrightarrow> in_flush m w = in_flush m (begin_tx w)"
  by (simp add: in_flush_def statement_def)

lemma process_payment_InrD:
  assumes "process_payment env t q w = (Inr resp, w')" and "ready t (begin_tx w)"
  shows "\<exists>r. w' = (begin_tx w)\<lparr>draws := Suc (draws w), ticks := Suc (ticks w),
      db := (db w)\<lparr>payments := payments (db w) @ [r]\<rparr>\<rparr> \<and> tenant_id r = t \<and> pay_user_id r = prq_user_id q \<and>
    tx_hash r = prq_tx_hash q \<and> amount r = prq_amount q \<and> currency r = prq_currency q \<and>
    pay_status r = asc ''PROCESSED'' \<and> resp = \<lparr>prs_status = pay_status r, prs_payment_id = row_id r, prs_tx_hash = tx_hash r\<rparr>"
proof -
  from assms(1) obtain b v r where b: "new_scoped env t w = (Inr b, v)"
    and s: "save payments_table True t (new_payment b q) v = (Inr r, w')"
    and resp: "resp = \<lparr>prs_status = pay_status r, prs_payment_id = row_id r, prs_tx_hash = tx_hash r\<rparr>"
    by (auto simp: process_payment_def bindA_eq_Inr)
  note v = new_scoped_InrD [OF b]
  have "\<not> failed v" using v assms(2) by (simp add: ready_def)
  have bv: "begin_tx v = (begin_tx w)\<lparr>draws := Suc (draws w), ticks := Suc (ticks w)\<rparr>"
    using v by (simp add: begin_tx_def apply_postgres_tenant_setting_def)
  have "save payments_table True t (new_payment b q) (begin_tx v) = (Inr r, w')"
    using s in_flush_begin [OF \<open>\<not> failed v\<close>]
    by (simp add: save_def Let_def add_row_def thenA_def bindA_def)
  from save_InrD [OF this] assms(2) bv resp show ?thesis
    by (auto simp: payments_table_def new_payment_def)
qed

end
