(* ===== verification/Conversation.thy ===== *)
theory Conversation
  imports Onboarding Messages "HOL-Library.Code_Target_Nat"
begin

text \<open>
  \<open>app/services/bot_conversation.py\<close>: which reply an update of the chat gets. The replies of a
  \<open>ConversationResult\<close> are a list; \<open>render\<close> turns an outcome of onboarding into words.
\<close>

definition MARKET_CALLBACK_PREFIX :: ustr where
  "MARKET_CALLBACK_PREFIX = asc ''market:''"

fun MARKET_LABELS :: "market \<Rightarrow> ustr" where
  "MARKET_LABELS CRYPTO = [1705, 1585, 1740, 1662, 1578, 1608]"
| "MARKET_LABELS FOREX = [1601, 1575, 1585, 1705, 1587]"

record incoming_update =
  upd_chat_id :: int
  upd_user_id :: int
  upd_text :: "ustr option"
  callback_data :: "ustr option"
  upd_username :: "ustr option"
  upd_first_name :: "ustr option"

record reply =
  reply_text :: ustr
  reply_keyboard :: "reply_markup option"

definition plain_reply :: "ustr \<Rightarrow> reply" where
  "plain_reply s = \<lparr>reply_text = s, reply_keyboard = None\<rparr>"

subsection \<open>Rendering\<close>

text \<open>A link that is missing is shown as Python shows \<open>None\<close>.\<close>

definition link_text :: "ustr option \<Rightarrow> ustr" where
  "link_text l = (case l of None \<Rightarrow> asc ''None'' | Some s \<Rightarrow> s)"

definition render_shortfall :: "eligibility_verdict \<Rightarrow> ustr res" where
  "render_shortfall v =
     bindR (dec_add (balance v) (shortfall v)) (\<lambda>minimum.
     bindR (format_amount minimum 2) (\<lambda>m.
     bindR (format_amount (balance v) 2) (\<lambda>b.
     bindR (format_amount (shortfall v) 2) (\<lambda>s.
     py_format MSG_INSUFFICIENT_BALANCE
       [(asc ''minimum'', m), (asc ''balance'', b), (asc ''shortfall'', s)]))))"

definition render :: "onboarding_result \<Rightarrow> ustr \<Rightarrow> ustr res" where
  "render r referral_url =
     (case outcome r of
        OO_INVITED \<Rightarrow> py_format MSG_INVITED [(asc ''invite_link'', link_text (res_invite_link r))]
      | OO_ALREADY_MEMBER \<Rightarrow>
          py_format MSG_ALREADY_MEMBER [(asc ''invite_link'', link_text (res_invite_link r))]
      | OO_INVALID_UID \<Rightarrow> Inr MSG_INVALID_UID
      | OO_UID_CLAIMED_BY_ANOTHER_USER \<Rightarrow> Inr UID_CLAIMED
      | OO_NOT_REGISTERED \<Rightarrow> py_format MSG_NOT_REGISTERED [(asc ''referral_link'', referral_url)]
      | OO_INSUFFICIENT_BALANCE \<Rightarrow>
          (case verdict r of None \<Rightarrow> Inl AssertionError | Some v \<Rightarrow> render_shortfall v)
      | OO_PROVIDER_UNAVAILABLE \<Rightarrow> Inr MSG_PROVIDER_UNAVAILABLE
      | OO_NOT_CONFIGURED \<Rightarrow> Inr MSG_NOT_CONFIGURED)"

subsection \<open>The flow\<close>

text \<open>\<open>list_all\<close> without arguments: the first hundred rows.\<close>

definition available_markets :: "uuid \<Rightarrow> provider_type \<Rightarrow> market list act" where
  "available_markets t pt =
     bindA (list_all configs_table t 100 0) (\<lambda>configs.
     bindA (list_all channels_table t 100 0) (\<lambda>chans.
     let with_channel = map ch_market (filter ch_is_active chans);
         configured = map cfg_market (filter (\<lambda>c. cfg_is_active c \<and> cfg_provider_type c = pt) configs) in
     retA (sort (remdups (filter (\<lambda>m. m \<in> set with_channel) configured)))))"

definition known_user :: "runtime \<Rightarrow> uuid \<Rightarrow> incoming_update \<Rightarrow> telegram_user act" where
  "known_user env t upd =
     bindA (get_by_telegram_id t (upd_user_id upd)) (\<lambda>found.
     case found of
       Some user \<Rightarrow> retA user
     | None \<Rightarrow>
         bindA (new_scoped env t) (\<lambda>s.
         save users_table True t
           (new_user s (upd_user_id upd) (upd_username upd) (upd_first_name upd))))"

definition offer_referral_link ::
  "runtime \<Rightarrow> provider_type \<Rightarrow> uuid \<Rightarrow> incoming_update \<Rightarrow> market \<Rightarrow> reply list act" where
  "offer_referral_link env pt t upd m =
     bindA (get_for t pt m) (\<lambda>config.
     case config of
       None \<Rightarrow> retA [plain_reply MSG_NOT_CONFIGURED]
     | Some cfg \<Rightarrow>
         if \<not> cfg_is_active cfg then retA [plain_reply MSG_NOT_CONFIGURED]
         else
           bindA (known_user env t upd) (\<lambda>user.
           thenA (touch_row users_table (user\<lparr>pending_market := Some m\<rparr>))
           (bindA (liftR (py_format WELCOME
              [(asc ''name'', case upd_first_name upd of None \<Rightarrow> [] | Some s \<Rightarrow> s),
               (asc ''referral_link'', referral_link cfg)])) (\<lambda>s.
            retA [plain_reply s]))))"

definition market_button :: "market \<Rightarrow> ustr \<times> ustr" where
  "market_button m = (MARKET_LABELS m, MARKET_CALLBACK_PREFIX @ market_value m)"

definition start_flow :: "runtime \<Rightarrow> provider_type \<Rightarrow> uuid \<Rightarrow> incoming_update \<Rightarrow> reply list act" where
  "start_flow env pt t upd =
     bindA (available_markets t pt) (\<lambda>markets.
     case markets of
       [] \<Rightarrow> retA [plain_reply MSG_NOT_CONFIGURED]
     | [m] \<Rightarrow> offer_referral_link env pt t upd m
     | _ \<Rightarrow> retA [\<lparr>reply_text = CHOOSE_MARKET,
                   reply_keyboard = Some (map (\<lambda>m. [market_button m]) markets)\<rparr>])"

text \<open>A UID for a market: the tenant's link for the reply, the submission, the answer.\<close>

definition submit_for_market ::
  "runtime \<Rightarrow> referral_provider \<Rightarrow> telegram_provider \<Rightarrow> provider_type \<Rightarrow> uuid \<Rightarrow> incoming_update \<Rightarrow>
     ustr \<Rightarrow> market \<Rightarrow> reply list act" where
  "submit_for_market env rp tp pt t upd u m =
     bindA (get_for t pt m) (\<lambda>config.
     bindA (submit_uid env rp tp t (upd_user_id upd) m u (upd_username upd) (upd_first_name upd)) (\<lambda>r.
     bindA (liftR (render r (case config of None \<Rightarrow> [] | Some cfg \<Rightarrow> referral_link cfg))) (\<lambda>s.
     retA [plain_reply s])))"

definition handle_uid ::
  "runtime \<Rightarrow> referral_provider \<Rightarrow> telegram_provider \<Rightarrow> provider_type \<Rightarrow> uuid \<Rightarrow> incoming_update \<Rightarrow>
     ustr \<Rightarrow> reply list act" where
  "handle_uid env rp tp pt t upd raw =
     (let u = normalize_uid (Some raw) in
      if \<not> is_valid_bitunix_uid u then retA [plain_reply MSG_INVALID_UID]
      else
        bindA (get_by_telegram_id t (upd_user_id upd)) (\<lambda>user.
        case (case user of None \<Rightarrow> None | Some us \<Rightarrow> pending_market us) of
          Some m \<Rightarrow> submit_for_market env rp tp pt t upd u m
        | None \<Rightarrow>
            bindA (available_markets t pt) (\<lambda>markets.
            case markets of
              [m] \<Rightarrow> submit_for_market env rp tp pt t upd u m
            | _ \<Rightarrow> start_flow env pt t upd)))"

text \<open>An update that is not a market button: \<open>/start\<close>, a number, or anything else.\<close>

definition handle_text ::
  "runtime \<Rightarrow> referral_provider \<Rightarrow> telegram_provider \<Rightarrow> provider_type \<Rightarrow> uuid \<Rightarrow> incoming_update \<Rightarrow>
     reply list act" where
  "handle_text env rp tp pt t upd =
     (let txt = py_strip (case upd_text upd of None \<Rightarrow> [] | Some s \<Rightarrow> s) in
      if py_startswith txt (asc ''/start'') then start_flow env pt t upd
      else if txt \<noteq> [] \<and> py_isdigit (normalize_uid (Some txt)) then handle_uid env rp tp pt t upd txt
      else retA [plain_reply ASK_FOR_UID])"

definition handle ::
  "runtime \<Rightarrow> referral_provider \<Rightarrow> telegram_provider \<Rightarrow> provider_type \<Rightarrow> uuid \<Rightarrow> incoming_update \<Rightarrow>
     reply list act" where
  "handle env rp tp pt t upd =
     (case callback_data upd of
        Some cd \<Rightarrow>
          if py_startswith cd MARKET_CALLBACK_PREFIX then
            (case market_of (drop (length MARKET_CALLBACK_PREFIX) cd) of
               Inl e \<Rightarrow> retA [plain_reply MSG_NOT_CONFIGURED]
             | Inr m \<Rightarrow> offer_referral_link env pt t upd m)
          else handle_text env rp tp pt t upd
      | None \<Rightarrow> handle_text env rp tp pt t upd)"

subsection \<open>Every outcome has words\<close>

text \<open>Whether a template can be filled in depends on the names of the arguments only.\<close>

lemma is_err_bindR: "is_err (bindR m (\<lambda>r. Inr (f r))) \<longleftrightarrow> is_err m"
  by (cases m) auto

lemma map_of_None_keys: "map fst args = map fst args' \<Longrightarrow> map_of args k = None \<longleftrightarrow> map_of args' k = None"
  by (metis map_of_eq_None_iff list.set_map)

lemma py_format_keys:
  assumes "map fst args = map fst args'"
  shows "is_err (py_format t args) = is_err (py_format t args')"
  using assms
proof (induction t args rule: py_format.induct)
  case (2 c cs args)
  have k: "map_of args k = None \<longleftrightarrow> map_of args' k = None" for k
    using 2(5) by (rule map_of_None_keys)
  consider "dropWhile (\<lambda>x. x \<noteq> 125) cs = []"
    | e es where "dropWhile (\<lambda>x. x \<noteq> 125) cs = e # es"
        "map_of args (takeWhile (\<lambda>x. x \<noteq> 125) cs) = None"
        "map_of args' (takeWhile (\<lambda>x. x \<noteq> 125) cs) = None"
    | e es v v' where "dropWhile (\<lambda>x. x \<noteq> 125) cs = e # es"
        "map_of args (takeWhile (\<lambda>x. x \<noteq> 125) cs) = Some v"
        "map_of args' (takeWhile (\<lambda>x. x \<noteq> 125) cs) = Some v'"
    using k [of "takeWhile (\<lambda>x. x \<noteq> 125) cs"]
    by (cases "dropWhile (\<lambda>x. x \<noteq> 125) cs";
        cases "map_of args (takeWhile (\<lambda>x. x \<noteq> 125) cs)";
        cases "map_of args' (takeWhile (\<lambda>x. x \<noteq> 125) cs)") auto
  then show ?case
  proof cases
    case 1
    with "2.IH" \<open>map fst args = map fst args'\<close> show ?thesis
      by (cases cs) (auto simp: is_err_bindR simp del: dropWhile_eq_Nil_conv)
  next
    case 2
    with "2.IH" \<open>map fst args = map fst args'\<close> show ?thesis
      by (cases cs) (auto simp: is_err_bindR)
  next
    case 3
    with "2.IH" \<open>map fst args = map fst args'\<close> show ?thesis
      by (cases cs) (auto simp: is_err_bindR)
  qed
qed simp

lemma py_format_filled:
  assumes "\<not> is_err (py_format t (map (\<lambda>k. (k, [])) ks))" and "map fst args = ks"
  shows "\<exists>s. py_format t args = Inr s"
proof -
  have "map fst args = map fst (map (\<lambda>k. (k, [])) ks)" using assms(2) by (simp add: comp_def)
  with assms(1) have "\<not> is_err (py_format t args)" using py_format_keys by blast
  then show ?thesis by (cases "py_format t args") simp_all
qed

text \<open>Amounts of money: a magnitude below \<open>10 ^ 16\<close>, at most eight decimal places.\<close>

fun money :: "decimal \<Rightarrow> bool" where
  "money (Fin s c e) \<longleftrightarrow> -8 \<le> e \<and> e \<le> 2 \<and> c * 10 ^ nat (e + 8) < 10 ^ 24"
| "money _ = False"

lemma format_amount_money:
  assumes "-8 \<le> e" "e \<le> 2" "c * 10 ^ nat (e + 8) < 10 ^ 25"
  shows "\<exists>t. format_amount (Fin s c e) 2 = Inr t"
proof -
  let ?q = "rescale_ceiling s c e (-2)"
  have "c * 10 ^ nat (e + 8) < 10 ^ nat (17 - e) * 10 ^ nat (e + 8)"
    using assms by (simp flip: power_add nat_add_distrib)
  then have "c < 10 ^ nat (17 - e)" by simp
  then have n: "int (ndigits c) \<le> 17 - e" using ndigits_le [of c "nat (17 - e)"] assms by simp
  have "?q < 10 ^ 27"
  proof (cases "-2 \<le> e")
    case True
    have "c * 10 ^ nat (e + 2) \<le> c * 10 ^ nat (e + 8)" by (intro mult_le_mono2 power_increasing) auto
    also have "\<dots> < 10 ^ 25" by (rule assms(3))
    also have "\<dots> < (10::nat) ^ 27" by simp
    finally have "c * 10 ^ nat (e + 2) < 10 ^ 27" .
    with True show ?thesis by (simp add: rescale_ceiling_def)
  next
    case False
    have "c \<le> c * 10 ^ nat (e + 8)" by simp
    also have "\<dots> < 10 ^ 25" by (rule assms(3))
    finally have "c + 1 < 10 ^ 27" by simp
    moreover have "?q \<le> c + 1"
      using False by (auto simp: rescale_ceiling_def Let_def intro: le_SucI)
    ultimately show ?thesis by simp
  qed
  then have q: "ndigits ?q \<le> 27" by (intro ndigits_le) simp_all
  have "dec_quantize_ceiling (Fin s c e) (-2) = Inr (Fin s ?q (-2))"
    using n q assms fix_cents [of ?q s] fix_cents [of 0 s]
    by (auto simp: etiny_def emin_def emax_def prec_def rescale_ceiling_def Let_def ndigits.simps)
  then show ?thesis
    using q fix_cents [of ?q s] by (simp add: format_amount_cents prec_def split: prod.split)
qed

lemma shortfall_money:
  assumes "money a" "money b"
  obtains s c e where "dec_add a b = Inr (Fin s c e)" "-8 \<le> e" "e \<le> 2" "c * 10 ^ nat (e + 8) < 10 ^ 25"
proof -
  obtain s1 c1 e1 where a: "a = Fin s1 c1 e1" "-8 \<le> e1" "e1 \<le> 2" "c1 * 10 ^ nat (e1 + 8) < 10 ^ 24"
    using assms(1) by (cases a) auto
  obtain s2 c2 e2 where b: "b = Fin s2 c2 e2" "-8 \<le> e2" "e2 \<le> 2" "c2 * 10 ^ nat (e2 + 8) < 10 ^ 24"
    using assms(2) by (cases b) auto
  define m where "m = min e1 e2"
  define x where "x = scaled s1 c1 e1 m + scaled s2 c2 e2 m"
  have m: "-8 \<le> m" "m \<le> 2" using a b by (auto simp: m_def)
  have sc: "\<bar>scaled s c e m\<bar> * 10 ^ nat (m + 8) = int (c * 10 ^ nat (e + 8))" if "m \<le> e" for s c e
  proof -
    have "nat (e - m) + nat (m + 8) = nat (e + 8)" using that m by simp
    then show ?thesis
      by (cases s) (simp_all add: scaled_def abs_mult mult.assoc flip: power_add)
  qed
  have "\<bar>x\<bar> * 10 ^ nat (m + 8) \<le> (\<bar>scaled s1 c1 e1 m\<bar> + \<bar>scaled s2 c2 e2 m\<bar>) * 10 ^ nat (m + 8)"
    unfolding x_def by (intro mult_right_mono abs_triangle_ineq) simp
  also have "\<dots> = int (c1 * 10 ^ nat (e1 + 8)) + int (c2 * 10 ^ nat (e2 + 8))"
    using sc [of e1 s1 c1] sc [of e2 s2 c2] by (simp add: m_def distrib_right)
  also have "\<dots> < 10 ^ 25"
  proof -
    have "c1 * 10 ^ nat (e1 + 8) + c2 * 10 ^ nat (e2 + 8) < 10 ^ 25" using a(4) b(4) by simp
    then have "int (c1 * 10 ^ nat (e1 + 8) + c2 * 10 ^ nat (e2 + 8)) < int (10 ^ 25)"
      by (simp only: of_nat_less_iff)
    then show ?thesis by simp
  qed
  finally have small: "nat \<bar>x\<bar> * 10 ^ nat (m + 8) < 10 ^ 25"
    by (simp add: nat_mult_distrib flip: of_nat_less_iff [where 'a = int])
  have "nat \<bar>x\<bar> \<le> nat \<bar>x\<bar> * 10 ^ nat (m + 8)" by simp
  with small have "nat \<bar>x\<bar> < 10 ^ 25" by linarith
  then have "ndigits (nat \<bar>x\<bar>) \<le> 25" by (intro ndigits_le) simp_all
  then have fixed: "dec_fix s (nat \<bar>x\<bar>) m = Inr (Fin s (nat \<bar>x\<bar>) m)" for s
    using m by (intro dec_fix_exact) (simp_all add: prec_def etiny_def emin_def etop_def emax_def)
  have zero: "dec_fix s 0 m = Inr (Fin s 0 m)" for s
    using m by (simp add: dec_fix_def etiny_def emin_def emax_def prec_def)
  show thesis
  proof (cases "x = 0")
    case True
    then show ?thesis using that zero m by (auto simp: a b Let_def simp flip: m_def x_def)
  next
    case False
    then show ?thesis using that fixed small m by (auto simp: a b Let_def simp flip: m_def x_def)
  qed
qed

subsection \<open>What the flow keeps\<close>

context messaging_relation
begin

lemma keeps_available_markets [keeps_rules]: "keeps R (available_markets t pt)"
  unfolding available_markets_def Let_def by (intro keeps_bindA keeps_queries keeps_retA)

lemma keeps_offer_referral_link [keeps_rules]: "keeps R (offer_referral_link env pt t upd m)"
  unfolding offer_referral_link_def known_user_def by (auto intro!: keeps_rules)

lemma keeps_start_flow [keeps_rules]: "keeps R (start_flow env pt t upd)"
  unfolding start_flow_def by (auto intro!: keeps_rules)

lemma keeps_handle_uid [keeps_rules]: "keeps R (handle_uid env rp tp pt t upd raw)"
  unfolding handle_uid_def submit_for_market_def Let_def by (auto intro!: keeps_rules)

lemma keeps_handle [keeps_rules]: "keeps R (handle env rp tp pt t upd)"
  unfolding handle_def handle_text_def Let_def by (auto intro!: keeps_rules)

end

subsection \<open>The markets on offer\<close>

text \<open>A market is set up when the tenant has an active programme and an active channel for it.\<close>

definition set_up :: "uuid \<Rightarrow> provider_type \<Rightarrow> database \<Rightarrow> market \<Rightarrow> bool" where
  "set_up t pt d m \<longleftrightarrow>
     (\<exists>c \<in> set (referral_configs d). tenant_id c = t \<and> cfg_is_active c \<and> cfg_provider_type c = pt \<and> cfg_market c = m) \<and>
     (\<exists>c \<in> set (channels d). tenant_id c = t \<and> ch_is_active c \<and> ch_market c = m)"

lemma list_all_ready:
  "ready t w \<Longrightarrow> list_all tbl t n k w = (Inr (take n (drop k (filter (\<lambda>r. tenant_id r = t) (tbl_get tbl (db w))))), w)"
  by (simp add: list_all_def bindA_def select_rows_ready)

text \<open>A table in which the rows of a tenant differ in a key of a finite type is short.\<close>

lemma rows_by_key:
  fixes key :: "'r scoped_scheme \<Rightarrow> 'k::finite"
  assumes "table_unique tbl rs"
    and "\<And>x y. tenant_id x = t \<Longrightarrow> tenant_id y = t \<Longrightarrow> key x = key y \<Longrightarrow> tbl_clash tbl x y"
  shows "length (filter (\<lambda>r. tenant_id r = t) rs) \<le> card (UNIV :: 'k set)"
proof -
  have "distinct (map key (filter (\<lambda>r. tenant_id r = t) rs))"
    using assms unfolding table_unique_def by (induction rs) auto
  from distinct_card [OF this]
  have "length (filter (\<lambda>r. tenant_id r = t) rs) = card (set (map key (filter (\<lambda>r. tenant_id r = t) rs)))"
    by simp
  also have "\<dots> \<le> card (UNIV :: 'k set)" by (rule card_mono) simp_all
  finally show ?thesis .
qed

lemma market_UNIV: "(UNIV :: market set) = {CRYPTO, FOREX}"
  using market.exhaust by auto

lemma provider_type_UNIV: "(UNIV :: provider_type set) = {BITUNIX, EPLANET, TELEGRAM}"
  using provider_type.exhaust by auto

instance market :: finite
  by standard (simp add: market_UNIV)

instance provider_type :: finite
  by standard (simp add: provider_type_UNIV)

lemma first_hundred:
  assumes "unique_keys d"
  shows "take 100 (filter (\<lambda>r. tenant_id r = t) (referral_configs d)) = filter (\<lambda>r. tenant_id r = t) (referral_configs d)"
    and "take 100 (filter (\<lambda>r. tenant_id r = t) (channels d)) = filter (\<lambda>r. tenant_id r = t) (channels d)"
proof -
  have "length (filter (\<lambda>r. tenant_id r = t) (referral_configs d)) \<le> card (UNIV :: (provider_type \<times> market) set)"
    using assms by (intro rows_by_key [where key = "\<lambda>c. (cfg_provider_type c, cfg_market c)"])
      (auto simp: unique_keys_def configs_table_def)
  then have "length (filter (\<lambda>r. tenant_id r = t) (referral_configs d)) \<le> 6"
    by (simp add: card_cartesian_product provider_type_UNIV market_UNIV flip: UNIV_Times_UNIV)
  then show "take 100 (filter (\<lambda>r. tenant_id r = t) (referral_configs d)) = filter (\<lambda>r. tenant_id r = t) (referral_configs d)"
    by simp
  have "length (filter (\<lambda>r. tenant_id r = t) (channels d)) \<le> card (UNIV :: market set)"
    using assms by (intro rows_by_key [where key = ch_market]) (auto simp: unique_keys_def channels_table_def)
  then show "take 100 (filter (\<lambda>r. tenant_id r = t) (channels d)) = filter (\<lambda>r. tenant_id r = t) (channels d)"
    by (simp add: market_UNIV)
qed

lemma available_markets_run:
  assumes "ready t w" and "unique_keys (db w)"
  shows "\<exists>ms. available_markets t pt w = (Inr ms, w) \<and> sorted ms \<and> distinct ms \<and>
    (\<forall>m. m \<in> set ms \<longleftrightarrow> set_up t pt (db w) m)"
  using assms
  by (auto simp: available_markets_def bindA_def list_all_ready first_hundred configs_table_def
      channels_table_def Let_def set_up_def image_iff)

text \<open>A member of the tenant is found by their Telegram id.\<close>

lemma found_user:
  assumes "ready t w" and "unique_keys (db w)"
  shows "\<exists>found. get_by_telegram_id t tg w = (Inr found, w) \<and>
    (\<forall>u. found = Some u \<longrightarrow> u \<in> set (telegram_users (db w)) \<and> tenant_id u = t \<and> telegram_user_id u = tg)"
proof -
  let ?rs = "filter (\<lambda>r. tenant_id r = t \<and> telegram_user_id r = tg) (telegram_users (db w))"
  have "table_unique users_table (telegram_users (db w))" using assms(2) by (simp add: unique_keys_def)
  then have "table_unique users_table ?rs" by (rule table_unique_filter)
  then have apart: "?rs \<noteq> x # y # xs" for x y xs
  proof (intro notI)
    assume u: "table_unique users_table ?rs" and rs: "?rs = x # y # xs"
    have "x \<in> set ?rs" "y \<in> set ?rs" unfolding rs by simp_all
    then have "tenant_id x = t" "tenant_id y = t" "telegram_user_id x = tg" "telegram_user_id y = tg"
      by simp_all
    with u show False unfolding rs by (simp add: table_unique_def users_table_def)
  qed
  have "\<exists>found. one_or_none ?rs = Inr found"
  proof (cases ?rs rule: one_or_none.cases)
    case (3 x y xs)
    with apart show ?thesis by blast
  qed simp_all
  then obtain found where f: "one_or_none ?rs = Inr found" by blast
  have "u \<in> set ?rs" if "found = Some u" for u
    using one_or_none_SomeD [OF f [unfolded that]] by simp
  with f assms(1) show ?thesis by (auto simp: get_by_telegram_id_ready)
qed

subsection \<open>Properties\<close>

text \<open>Every outcome of a submission has words: whatever submit reports, the reply can be rendered,
  as long as the amounts of a shortfall are amounts of money (at most eight decimal places, below ten
  to the sixteen).\<close>

theorem render_always_answers:
  assumes "outcome r = OO_INSUFFICIENT_BALANCE \<Longrightarrow>
    \<exists>v. verdict r = Some v \<and> money (balance v) \<and> money (shortfall v)"
  shows "\<exists>s. render r url = Inr s"
proof (cases "outcome r = OO_INSUFFICIENT_BALANCE")
  case True
  with assms obtain v where v: "verdict r = Some v" "money (balance v)" "money (shortfall v)" by blast
  obtain s c e where sum: "dec_add (balance v) (shortfall v) = Inr (Fin s c e)" "-8 \<le> e" "e \<le> 2"
      "c * 10 ^ nat (e + 8) < 10 ^ 25"
    using shortfall_money [OF v(2,3)] .
  have amt: "\<exists>x. format_amount d 2 = Inr x" if "money d" for d
    using that by (cases d) (auto intro!: format_amount_money)
  obtain x y z where xyz: "format_amount (Fin s c e) 2 = Inr x" "format_amount (balance v) 2 = Inr y"
      "format_amount (shortfall v) 2 = Inr z"
    using format_amount_money [OF sum(2-4)] amt [OF v(2)] amt [OF v(3)] by blast
  have "\<exists>u. py_format MSG_INSUFFICIENT_BALANCE [(asc ''minimum'', x), (asc ''balance'', y), (asc ''shortfall'', z)] = Inr u"
    by (rule py_format_filled [where ks = "[asc ''minimum'', asc ''balance'', asc ''shortfall'']"])
      (code_simp, simp)
  with True v(1) sum(1) xyz show ?thesis by (simp add: render_def render_shortfall_def)
next
  case False
  have "\<exists>u. py_format MSG_INVITED [(asc ''invite_link'', x)] = Inr u" for x
    by (rule py_format_filled [where ks = "[asc ''invite_link'']"]) (code_simp, simp)
  moreover have "\<exists>u. py_format MSG_ALREADY_MEMBER [(asc ''invite_link'', x)] = Inr u" for x
    by (rule py_format_filled [where ks = "[asc ''invite_link'']"]) (code_simp, simp)
  moreover have "\<exists>u. py_format MSG_NOT_REGISTERED [(asc ''referral_link'', x)] = Inr u" for x
    by (rule py_format_filled [where ks = "[asc ''referral_link'']"]) (code_simp, simp)
  ultimately show ?thesis using False by (cases "outcome r") (auto simp: render_def)
qed

text \<open>The markets on offer are exactly those the tenant has completely set up (an active programme
  of the provider and an active channel), in order and without repetition; the limit of a hundred rows
  never hides one, as the unique constraints leave a tenant at most six programmes and two channels.\<close>

theorem offered_markets_are_set_up:
  assumes "ready t w" and "unique_keys (db w)"
  shows "\<exists>ms. available_markets t pt w = (Inr ms, w) \<and> sorted ms \<and> distinct ms \<and>
    set ms = Collect (set_up t pt (db w))"
  using available_markets_run [OF assms, of pt] by auto

text \<open>Pressing a market button is understood as that market: the callback data a button carries leads
  to the referral link of its market, for every market.\<close>

theorem button_names_its_market:
  "handle env rp tp pt t (upd\<lparr>callback_data := Some (snd (market_button m))\<rparr>) =
     offer_referral_link env pt t (upd\<lparr>callback_data := Some (snd (market_button m))\<rparr>) m"
proof -
  have "py_startswith (MARKET_CALLBACK_PREFIX @ market_value m) MARKET_CALLBACK_PREFIX"
    by (simp add: py_startswith_def)
  then show ?thesis by (simp add: handle_def market_button_def)
qed

text \<open>A UID is never credited to a guessed market: when the member has not chosen one and not exactly
  one market is set up, a valid UID asks nobody and writes nothing; the member is asked to choose among
  the markets set up, or told that there is none.\<close>

theorem uid_needs_a_market:
  assumes "ready t w" and "unique_keys (db w)"
    and "is_valid_bitunix_uid (normalize_uid (Some raw))"
    and "\<And>u. u \<in> set (telegram_users (db w)) \<Longrightarrow> tenant_id u = t \<Longrightarrow>
      telegram_user_id u = upd_user_id upd \<Longrightarrow> pending_market u = None"
    and "\<nexists>!m. set_up t pt (db w) m"
  shows "\<exists>ms. set ms = Collect (set_up t pt (db w)) \<and>
    handle_uid env rp tp pt t upd raw w =
      (Inr [if ms = [] then plain_reply MSG_NOT_CONFIGURED
            else \<lparr>reply_text = CHOOSE_MARKET, reply_keyboard = Some (map (\<lambda>m. [market_button m]) ms)\<rparr>], w)"
proof -
  obtain ms where av: "available_markets t pt w = (Inr ms, w)" and ms: "set ms = Collect (set_up t pt (db w))"
    using available_markets_run [OF assms(1,2), of pt] by auto
  have "ms \<noteq> [m]" for m
  proof
    assume "ms = [m]"
    with ms have "set_up t pt (db w) x \<longleftrightarrow> x = m" for x by auto
    then have "\<exists>!m. set_up t pt (db w) m" by simp
    with assms(5) show False by blast
  qed
  obtain found where user: "get_by_telegram_id t (upd_user_id upd) w = (Inr found, w)"
      "(case found of None \<Rightarrow> None | Some us \<Rightarrow> pending_market us) = None"
    using found_user [OF assms(1,2), of "upd_user_id upd"] assms(4) by (auto split: option.splits)
  from \<open>\<And>m. ms \<noteq> [m]\<close> consider "ms = []" | a b cs where "ms = a # b # cs" by (cases ms; cases "tl ms") auto
  then have "handle_uid env rp tp pt t upd raw w =
      (Inr [if ms = [] then plain_reply MSG_NOT_CONFIGURED
        else \<lparr>reply_text = CHOOSE_MARKET, reply_keyboard = Some (map (\<lambda>m. [market_button m]) ms)\<rparr>], w)"
    using assms(3) user by cases (simp_all add: handle_uid_def start_flow_def bindA_def av Let_def)
  with ms show ?thesis by blast
qed

end
