(* ===== verification/Webhook.thy ===== *)
theory Webhook
  imports Sessions Conversation
begin

text \<open>
  \<open>app/adapters/web/routers/telegram_webhook.py\<close>: Telegram's way in. The payload is decoded JSON; what
  \<open>request.json()\<close> could not decode is \<open>None\<close>. The response is its status code. Log lines are left out.
\<close>

subsection \<open>Parsing an update\<close>

text \<open>\<open>d.get(key) or {}\<close>.\<close>

definition jsub :: "ustr \<Rightarrow> json \<Rightarrow> json res" where
  "jsub k d = bindR (jget k d) (\<lambda>v. Inr (jor v (JObj [])))"

definition callback_update :: "json \<Rightarrow> incoming_update res" where
  "callback_update callback =
     bindR (jsub (asc ''from'') callback) (\<lambda>sender.
     bindR (jsub (asc ''message'') callback) (\<lambda>message.
     bindR (jsub (asc ''chat'') message) (\<lambda>chat.
     bindR (jget (asc ''id'') chat) (\<lambda>cid.
     bindR (if truthy cid then Inr cid else jget (asc ''id'') sender) (\<lambda>cid.
     bindR (json_int (jor cid (JInt 0))) (\<lambda>c.
     bindR (jget (asc ''id'') sender) (\<lambda>sid.
     bindR (json_int (jor sid (JInt 0))) (\<lambda>u.
     bindR (jget (asc ''data'') callback) (\<lambda>d.
     bindR (jget (asc ''username'') sender) (\<lambda>uname.
     bindR (jget (asc ''first_name'') sender) (\<lambda>fname.
     Inr \<lparr>upd_chat_id = c, upd_user_id = u, upd_text = None, callback_data = json_text d,
          upd_username = json_text uname, upd_first_name = json_text fname\<rparr>)))))))))))"

definition message_update :: "json \<Rightarrow> incoming_update option res" where
  "message_update message =
     bindR (jsub (asc ''from'') message) (\<lambda>sender.
     bindR (jsub (asc ''chat'') message) (\<lambda>chat.
     bindR (jget (asc ''type'') chat) (\<lambda>ty.
     if ty \<noteq> JNull \<and> ty \<noteq> JStr (asc ''private'') then Inr None
     else
       bindR (jget (asc ''id'') chat) (\<lambda>cid.
       bindR (json_int (jor cid (JInt 0))) (\<lambda>c.
       bindR (jget (asc ''id'') sender) (\<lambda>sid.
       bindR (json_int (jor sid (JInt 0))) (\<lambda>u.
       bindR (jget (asc ''text'') message) (\<lambda>txt.
       bindR (jget (asc ''username'') sender) (\<lambda>uname.
       bindR (jget (asc ''first_name'') sender) (\<lambda>fname.
       Inr (Some \<lparr>upd_chat_id = c, upd_user_id = u, upd_text = json_text txt, callback_data = None,
          upd_username = json_text uname, upd_first_name = json_text fname\<rparr>)))))))))))"

definition parse_update :: "json \<Rightarrow> incoming_update option res" where
  "parse_update payload =
     bindR (jget (asc ''callback_query'') payload) (\<lambda>callback.
     if callback \<noteq> JNull then bindR (callback_update callback) (\<lambda>u. Inr (Some u))
     else
       bindR (jget (asc ''message'') payload) (\<lambda>m.
       bindR (if truthy m then Inr m else jget (asc ''edited_message'') payload) (\<lambda>message.
       if \<not> truthy message then Inr None else message_update message)))"

subsection \<open>Receiving an update\<close>

text \<open>The routing lookup, in a session without a tenant; the table has no row policy.\<close>

definition route_tenant :: "ustr \<Rightarrow> uuid option act" where
  "route_tenant tok =
     with_session
       (bindA (statement (readA (\<lambda>w. filter (\<lambda>r. token r = tok) (routes (db w))))) (\<lambda>rs.
        bindA (liftR (one_or_none rs)) (\<lambda>r.
        retA (case r of None \<Rightarrow> None | Some x \<Rightarrow> Some (route_tenant_id x)))))"

text \<open>The flow and its commit; whatever goes wrong is rolled back and gives no result.\<close>

definition run_flow ::
  "runtime \<Rightarrow> referral_provider \<Rightarrow> telegram_provider \<Rightarrow> uuid \<Rightarrow> incoming_update \<Rightarrow> reply list option act" where
  "run_flow env rp tp t upd =
     tryA (bindA (handle env rp tp BITUNIX t upd) (\<lambda>rs. thenA commit (retA (Some rs))))
       (\<lambda>e. Some (thenA rollback (retA None)))"

text \<open>A send whose failure is an outage is let go.\<close>

definition deliver :: "telegram_provider \<Rightarrow> int \<Rightarrow> reply \<Rightarrow> unit act" where
  "deliver tp chat r =
     tryA (send_message tp chat (reply_text r) (reply_keyboard r))
       (\<lambda>e. if is_unavailable e then Some (retA ()) else None)"

definition answer_update ::
  "runtime \<Rightarrow> referral_provider \<Rightarrow> telegram_provider \<Rightarrow> uuid \<Rightarrow> incoming_update \<Rightarrow> nat act" where
  "answer_update env rp tp t upd =
     bindA (run_flow env rp tp t upd) (\<lambda>result.
     thenA
       (case result of
          None \<Rightarrow> deliver tp (upd_chat_id upd) (plain_reply MSG_PROVIDER_UNAVAILABLE)
        | Some rs \<Rightarrow> foldA (\<lambda>r _. deliver tp (upd_chat_id upd) r) rs ())
       (retA 200))"

definition receive_update :: "deployment \<Rightarrow> ustr \<Rightarrow> json option \<Rightarrow> nat act" where
  "receive_update dep tok body =
     bindA (liftR (case body of None \<Rightarrow> Inl ValueError | Some j \<Rightarrow> Inr j)) (\<lambda>payload.
     bindA (route_tenant tok) (\<lambda>route.
     case route of
       None \<Rightarrow> retA 200
     | Some t \<Rightarrow>
         bindA (liftR (parse_update payload)) (\<lambda>parsed.
         case parsed of
           None \<Rightarrow> retA 200
         | Some upd \<Rightarrow>
             if upd_user_id upd = 0 then retA 200
             else
               with_session
                 (thenA (writeA (bind_tenant t))
                 (bindA (tenant_providers dep t BITUNIX) (\<lambda>ps.
                  case ps of
                    None \<Rightarrow> retA 200
                  | Some (rp, tp) \<Rightarrow> answer_update (dep_runtime dep) rp tp t upd))))))"

subsection \<open>One update's turn\<close>

lemma route_tenant_run:
  assumes "route_tenant tok w = (r, v)" and "idle w"
  shows "r = (case one_or_none (filter (\<lambda>r. token r = tok) (routes (db w))) of
      Inl e \<Rightarrow> Inl e | Inr x \<Rightarrow> Inr (map_option route_tenant_id x))"
    and "idle v" "db v = db w" "tg_log v = tg_log w" "ref_log v = ref_log w" "postgres v = postgres w"
proof -
  show "idle v" using assms(1) unfolding route_tenant_def by (metis with_session_idle snd_conv)
  show "r = (case one_or_none (filter (\<lambda>r. token r = tok) (routes (db w))) of
      Inl e \<Rightarrow> Inl e | Inr x \<Rightarrow> Inr (map_option route_tenant_id x))"
    "db v = db w" "tg_log v = tg_log w" "ref_log v = ref_log w" "postgres v = postgres w"
    using assms
    by (auto simp: route_tenant_def with_session_run bindA_def statement_def fresh_session_def begin_tx_def
        apply_postgres_tenant_setting_def rollback_def split: sum.splits option.splits)
qed

text \<open>What a routed update comes to, from the world after the routing session.\<close>

definition same_state :: "world \<Rightarrow> world \<Rightarrow> bool" where
  "same_state w u \<longleftrightarrow> idle u \<and> db u = db w \<and> tg_log u = tg_log w \<and> ref_log u = ref_log w \<and> postgres u = postgres w"

definition tenant_turn :: "deployment \<Rightarrow> uuid \<Rightarrow> incoming_update \<Rightarrow> nat act" where
  "tenant_turn dep t upd =
     with_session
       (thenA (writeA (bind_tenant t))
       (bindA (tenant_providers dep t BITUNIX) (\<lambda>ps.
        case ps of
          None \<Rightarrow> retA 200
        | Some (rp, tp) \<Rightarrow> answer_update (dep_runtime dep) rp tp t upd)))"

lemma receive_update_routed:
  assumes "idle w" and "one_or_none (filter (\<lambda>r. token r = tok) (routes (db w))) = Inr (Some x)"
  shows "\<exists>u. same_state w u \<and> receive_update dep tok (Some j) w =
    (case parse_update j of
       Inl e \<Rightarrow> (Inl e, u)
     | Inr None \<Rightarrow> (Inr 200, u)
     | Inr (Some upd) \<Rightarrow>
         if upd_user_id upd = 0 then (Inr 200, u) else tenant_turn dep (route_tenant_id x) upd u)"
proof -
  obtain q u where q: "route_tenant tok w = (q, u)" by fastforce
  note r = route_tenant_run [OF q assms(1)]
  have "same_state w u" using r by (simp add: same_state_def)
  moreover have "q = Inr (Some (route_tenant_id x))" using r(1) assms(2) by simp
  ultimately show ?thesis
    using q
    by (intro exI [of _ u])
      (auto simp: receive_update_def tenant_turn_def bindA_def split: sum.splits option.splits)
qed

lemma receive_update_unrouted:
  assumes "idle w" and "\<And>x. one_or_none (filter (\<lambda>r. token r = tok) (routes (db w))) \<noteq> Inr (Some x)"
  shows "\<exists>u. same_state w u \<and> receive_update dep tok (Some j) w =
    (case one_or_none (filter (\<lambda>r. token r = tok) (routes (db w))) of Inl e \<Rightarrow> Inl e | Inr _ \<Rightarrow> Inr 200, u)"
proof -
  obtain q u where q: "route_tenant tok w = (q, u)" by fastforce
  note r = route_tenant_run [OF q assms(1)]
  have "same_state w u" using r by (simp add: same_state_def)
  with q r(1) assms(2) show ?thesis
    by (intro exI [of _ u]) (auto simp: receive_update_def bindA_def split: sum.splits option.splits)
qed

lemma tenant_turn_cases:
  assumes "tenant_turn dep t upd u = (r, w')" and "idle u"
  obtains (unchanged) "db w' = db u" "tg_log w' = tg_log u" "ref_log w' = ref_log u"
      "\<And>p. fst (tenant_providers dep t BITUNIX (bind_tenant t (fresh_session u))) \<noteq> Inr (Some p)"
  | (answered) rp tp v v' where
      "tenant_providers dep t BITUNIX (bind_tenant t (fresh_session u)) = (Inr (Some (rp, tp)), v)"
      "answer_update (dep_runtime dep) rp tp t upd v = (r, v')"
      "db w' = (if in_tx v' then start v' else db v')" "tg_log w' = tg_log v'" "ref_log w' = ref_log v'"
proof -
  let ?b = "bind_tenant t (fresh_session u)"
  obtain q v where tp: "tenant_providers dep t BITUNIX ?b = (q, v)" by fastforce
  note v = providers_ready [OF tp]
  have in_v: "in_tx v" using v(1) by (simp add: ready_def)
  have run: "tenant_turn dep t upd u =
    (case (case q of Inl e \<Rightarrow> (Inl e, v) | Inr ps \<Rightarrow>
        (case ps of None \<Rightarrow> retA 200 | Some (rp, tp) \<Rightarrow> answer_update (dep_runtime dep) rp tp t upd) v)
     of (r, v) \<Rightarrow> (r, snd (rollback v)))"
    using assms(2) tp
    by (simp add: tenant_turn_def with_session_run thenA_def bindA_def split: sum.split)
  show thesis
  proof (cases "\<exists>rp tp. q = Inr (Some (rp, tp))")
    case True
    then obtain rp tg where q: "q = Inr (Some (rp, tg))" by blast
    obtain z v' where a: "answer_update (dep_runtime dep) rp tg t upd v = (z, v')" by fastforce
    with run assms(1) q show ?thesis
      by (intro answered [OF tp [unfolded q]]) (auto simp: rollback_def)
  next
    case False
    with run assms(1) have "w' = snd (rollback v)"
      by (cases q) (auto split: option.splits)
    show ?thesis by (rule unchanged) (use \<open>w' = snd (rollback v)\<close> in_v v False tp in auto)
  qed
qed

lemma receive_update_cases:
  assumes "receive_update dep tok body w = (r, w')" and "idle w"
  obtains (unchanged) "db w' = db w" "tg_log w' = tg_log w" "ref_log w' = ref_log w"
  | (answered) j x upd u rp tp v v' where "body = Some j"
      "one_or_none (filter (\<lambda>r. token r = tok) (routes (db w))) = Inr (Some x)"
      "parse_update j = Inr (Some upd)" "same_state w u"
      "tenant_providers dep (route_tenant_id x) BITUNIX (bind_tenant (route_tenant_id x) (fresh_session u)) =
        (Inr (Some (rp, tp)), v)"
      "answer_update (dep_runtime dep) rp tp (route_tenant_id x) upd v = (r, v')"
      "db w' = (if in_tx v' then start v' else db v')" "tg_log w' = tg_log v'" "ref_log w' = ref_log v'"
proof (cases body)
  case None
  show ?thesis
    by (rule unchanged) (use assms(1) None in \<open>simp_all add: receive_update_def bindA_def\<close>)
next
  case (Some j)
  show ?thesis
  proof (cases "\<exists>x. one_or_none (filter (\<lambda>r. token r = tok) (routes (db w))) = Inr (Some x)")
    case False
    then have "\<And>x. one_or_none (filter (\<lambda>r. token r = tok) (routes (db w))) \<noteq> Inr (Some x)" by blast
    from receive_update_unrouted [OF assms(2) this, of dep j] assms(1) Some have "same_state w w'" by auto
    then show ?thesis using unchanged by (simp add: same_state_def)
  next
    case True
    then obtain x where x: "one_or_none (filter (\<lambda>r. token r = tok) (routes (db w))) = Inr (Some x)" by blast
    from receive_update_routed [OF assms(2) x] obtain u where u: "same_state w u"
      "receive_update dep tok (Some j) w = (case parse_update j of
         Inl e \<Rightarrow> (Inl e, u) | Inr None \<Rightarrow> (Inr 200, u)
       | Inr (Some upd) \<Rightarrow> if upd_user_id upd = 0 then (Inr 200, u)
           else tenant_turn dep (route_tenant_id x) upd u)"
      by blast
    then have i: "idle u" by (simp add: same_state_def)
    show ?thesis
    proof (cases "\<exists>upd. parse_update j = Inr (Some upd) \<and> upd_user_id upd \<noteq> 0")
      case False
      with u assms(1) Some have "same_state w w'" by (auto split: sum.splits option.splits if_splits)
    then show ?thesis using unchanged by (simp add: same_state_def)
    next
      case True
      then obtain upd where p: "parse_update j = Inr (Some upd)" "upd_user_id upd \<noteq> 0" by blast
      with u assms(1) Some have "tenant_turn dep (route_tenant_id x) upd u = (r, w')" by simp
      then show ?thesis
        using i
      proof (cases rule: tenant_turn_cases)
        case unchanged
        with u(1) show ?thesis using that(1) by (simp add: same_state_def)
      next
        case (answered rp tp v v')
        with p u(1) x Some show ?thesis by (intro that(2)) auto
      qed
    qed
  qed
qed

subsection \<open>The flow and the replies\<close>

lemma run_flow_cases:
  assumes "run_flow env rp tp t upd v = (q, v1)" and "ready t v"
  obtains (finished) rs u where "handle env rp tp BITUNIX t upd v = (Inr rs, u)" "commit u = (Inr (), v1)"
      "q = Inr (Some rs)"
  | (undone) "q = Inr None" "\<not> in_tx v1" "db v1 = start v"
proof -
  have tx: "committed v = start v" using assms(2) by (simp add: committed_def ready_def)
  obtain z u where h: "handle env rp tp BITUNIX t upd v = (z, u)" by fastforce
  have u: "committed u = committed v"
    using keepsD [OF uncommitted.keeps_handle h] by (simp add: uncommitted_def)
  show thesis
  proof (cases z)
    case (Inl e)
    with assms(1) h have "q = Inr None \<and> v1 = snd (rollback u)"
      by (simp add: run_flow_def tryA_def bindA_def thenA_def rollback_def)
    with u tx show ?thesis by (intro undone) (auto simp: rollback_def committed_def)
  next
    case (Inr rs)
    obtain c u' where c: "commit u = (c, u')" by fastforce
    show ?thesis
    proof (cases c)
      case (Inl e)
      with assms(1) h Inr c have "q = Inr None \<and> v1 = snd (rollback u')"
        by (simp add: run_flow_def tryA_def bindA_def thenA_def rollback_def \<open>z = Inr rs\<close>)
      with u tx commit_Inl [OF c [unfolded Inl]] show ?thesis
        by (intro undone) (auto simp: rollback_def committed_def)
    next
      case (Inr x)
      with assms(1) h c show ?thesis
        by (intro finished [of rs u]) (simp_all add: run_flow_def tryA_def bindA_def thenA_def \<open>z = Inr rs\<close>)
    qed
  qed
qed

lemma commit_ends: "commit u = (Inr x, v) \<Longrightarrow> \<not> in_tx v"
  by (auto simp: commit_def thenA_def bindA_eq_Inr split: if_splits)

text \<open>Sending changes the history of calls only.\<close>

definition sends :: "world \<Rightarrow> world \<Rightarrow> bool" where
  "sends w w' \<longleftrightarrow> (\<exists>l. w' = w\<lparr>tg_log := tg_log w @ l\<rparr>)"

interpretation sending: world_relation sends
proof
  show "sends w w" for w by (simp add: sends_def exI [of _ "[]"])
  show "sends u w" if "sends u v" "sends v w" for u v w
    using that unfolding sends_def by (elim exE) (simp add: exI [of _ "_ @ _"])
qed

lemma sends_deliver: "keeps sends (deliver tp chat r)"
  unfolding deliver_def
  by (intro sending.keeps_tryA)
    (auto simp: keeps_def sends_def send_message_run intro: exI [of _ "[]"] split: if_splits)

lemma deliver_run:
  "\<exists>q ans. deliver tp chat r w =
     (q, w\<lparr>tg_log := tg_log w @ [SendMessage chat (reply_text r) (reply_keyboard r) ans]\<rparr>)"
  by (auto simp: deliver_def tryA_def send_message_run split: sum.split)

lemma sends_answer:
  assumes "answer_update env rp tp t upd v = (r, v')"
  shows "\<exists>q v1. run_flow env rp tp t upd v = (q, v1) \<and> sends v1 v'"
proof -
  obtain q v1 where f: "run_flow env rp tp t upd v = (q, v1)" by fastforce
  let ?m = "\<lambda>result. thenA
       (case result of
          None \<Rightarrow> deliver tp (upd_chat_id upd) (plain_reply MSG_PROVIDER_UNAVAILABLE)
        | Some rs \<Rightarrow> foldA (\<lambda>r _. deliver tp (upd_chat_id upd) r) rs ())
       (retA (200 :: nat))"
  have "keeps sends (?m result)" for result
    by (intro sending.keeps_thenA sending.keeps_retA sending.keeps_case_option sending.keeps_foldA sends_deliver)
  then have "sends v1 (snd (?m result v1))" for result by (simp add: keeps_def)
  moreover have "sends v1 v1" by (rule sending.rel_refl)
  ultimately have "sends v1 v'"
    using assms f by (auto simp: answer_update_def bindA_def split: sum.splits) (metis snd_conv)+
  with f show ?thesis by blast
qed

text \<open>A flow that returns gives one reply.\<close>

definition one_reply :: "reply list \<Rightarrow> bool" where
  "one_reply rs \<longleftrightarrow> (\<exists>x. rs = [x])"

lemma one_reply_single [simp]: "one_reply [x]"
  by (simp add: one_reply_def)

lemma returns_case_sum [returns_rules]:
  "(\<And>y. x = Inl y \<Longrightarrow> returns P (m y)) \<Longrightarrow> (\<And>y. x = Inr y \<Longrightarrow> returns P (n y)) \<Longrightarrow>
     returns P (case x of Inl y \<Rightarrow> m y | Inr y \<Rightarrow> n y)"
  by (cases x) simp_all

lemma returns_one_reply [returns_rules]:
  "returns one_reply (retA [x])"
  "returns one_reply (offer_referral_link env pt t upd m)"
  "returns one_reply (start_flow env pt t upd)"
  "returns one_reply (submit_for_market env rp tp pt t upd u m)"
proof -
  show base: "returns one_reply (retA [x])" for x by (simp add: returns_retA)
  show offer: "returns one_reply (offer_referral_link env pt t upd m)" for m
    unfolding offer_referral_link_def
    by (intro returns_bindA returns_case_option returns_if returns_thenA base)
  show "returns one_reply (start_flow env pt t upd)"
    unfolding start_flow_def by (intro returns_bindA returns_case_list base offer)
  show "returns one_reply (submit_for_market env rp tp pt t upd u m)"
    unfolding submit_for_market_def by (intro returns_bindA base)
qed

lemma returns_handle_uid [returns_rules]: "returns one_reply (handle_uid env rp tp pt t upd raw)"
  unfolding handle_uid_def Let_def
  by (intro returns_bindA returns_case_option returns_case_list returns_if returns_one_reply)

lemma returns_handle: "returns one_reply (handle env rp tp pt t upd)"
  unfolding handle_def handle_text_def Let_def
  by (intro returns_case_option returns_case_sum returns_if returns_one_reply returns_handle_uid)

lemma answer_sends_one:
  assumes "answer_update env rp tp t upd v = (r, v')" and "run_flow env rp tp t upd v = (q, v1)" and "ready t v"
  shows "\<exists>txt kb ans. tg_log v' = tg_log v1 @ [SendMessage (upd_chat_id upd) txt kb ans]"
  using assms(2,3)
proof (cases rule: run_flow_cases)
  case (finished rs u)
  obtain x where x: "rs = [x]" using returnsD [OF returns_handle finished(1)] by (auto simp: one_reply_def)
  obtain z ans where d: "deliver tp (upd_chat_id upd) x v1 =
      (z, v1\<lparr>tg_log := tg_log v1 @ [SendMessage (upd_chat_id upd) (reply_text x) (reply_keyboard x) ans]\<rparr>)"
    using deliver_run by blast
  with assms(1,2) finished(3) x show ?thesis
    by (auto simp: answer_update_def bindA_def thenA_def split: sum.splits)
next
  case undone
  obtain z ans where d: "deliver tp (upd_chat_id upd) (plain_reply MSG_PROVIDER_UNAVAILABLE) v1 =
      (z, v1\<lparr>tg_log := tg_log v1 @ [SendMessage (upd_chat_id upd) (reply_text (plain_reply MSG_PROVIDER_UNAVAILABLE))
        (reply_keyboard (plain_reply MSG_PROVIDER_UNAVAILABLE)) ans]\<rparr>)"
    using deliver_run by blast
  with assms(1,2) undone(1) show ?thesis
    by (auto simp: answer_update_def bindA_def thenA_def split: sum.splits)
qed

subsection \<open>Properties\<close>

lemma turn_stays:
  assumes "answer_update env rp tp t upd v = (r, v')" and "sess t v"
  shows "sess t v' \<and> others t (db v') = others t (db v)"
proof -
  have "keeps (iso t) (answer_update env rp tp t upd)"
    unfolding answer_update_def run_flow_def deliver_def
    by (intro iso.keeps_bindA iso.keeps_thenA iso.keeps_tryA iso.keeps_handle iso.keeps_commit iso.keeps_retA
        iso.keeps_case_option iso.keeps_foldA iso.keeps_talk)
      (auto intro: iso.keeps_rollback iso.keeps_thenA iso.keeps_retA split: if_splits)
  from keepsD [OF this assms(1)] assms(2) show ?thesis by (simp add: iso_def)
qed

lemma ready_sess: "ready t v \<Longrightarrow> postgres v \<Longrightarrow> start v = db v \<Longrightarrow> sess t v"
  by (simp add: ready_def sess_def)

text \<open>A token opens one tenant only: on PostgreSQL, whatever an update contains and whatever becomes of
  it, either nothing is stored or the token belongs to a tenant and no row of any other tenant has
  changed.\<close>

theorem update_stays_with_its_tenant:
  assumes "receive_update dep tok body w = (r, w')" and "idle w" and "postgres w"
  shows "db w' = db w \<or>
    (\<exists>x \<in> set (routes (db w)). token x = tok \<and>
       others (route_tenant_id x) (db w') = others (route_tenant_id x) (db w))"
  using assms(1,2)
proof (cases rule: receive_update_cases)
  case (answered j x upd u rp tp v v')
  note v = providers_ready [OF answered(5)]
  have "postgres v"
    using beginsD [OF begins_tenant_providers answered(5)] answered(4) assms(3)
    by (simp add: same_state_def bind_tenant_def fresh_session_def begin_tx_def apply_postgres_tenant_setting_def)
  then have "sess (route_tenant_id x) v" using v by (intro ready_sess) simp_all
  from turn_stays [OF answered(6) this] answered(4,7) v(2)
  have "others (route_tenant_id x) (db w') = others (route_tenant_id x) (db w)"
    by (auto simp: sess_def same_state_def)
  moreover have "x \<in> set (filter (\<lambda>r. token r = tok) (routes (db w)))"
    using one_or_none_SomeD [OF answered(2)] by simp
  ultimately show ?thesis by auto
qed simp

text \<open>C30. Only a finished flow is stored: what an update leaves in the database is exactly what a flow that
  returned its replies has committed; a flow that raised, at whatever step, and one whose commit failed
  leave the database as it was.\<close>

theorem only_a_finished_flow_is_stored:
  assumes "receive_update dep tok body w = (r, w')" and "idle w"
  shows "db w' = db w \<or>
    (\<exists>t upd rp tp v rs u u'. ready t v \<and> db v = db w \<and>
       handle (dep_runtime dep) rp tp BITUNIX t upd v = (Inr rs, u) \<and> commit u = (Inr (), u') \<and> db w' = db u')"
  using assms
proof (cases rule: receive_update_cases)
  case (answered j x upd u rp tp v v')
  note v = providers_ready [OF answered(5)]
  obtain q v1 where f: "run_flow (dep_runtime dep) rp tp (route_tenant_id x) upd v = (q, v1)" and s: "sends v1 v'"
    using sends_answer [OF answered(6)] by blast
  have same: "db v' = db v1" "in_tx v' = in_tx v1" "start v' = start v1" using s by (auto simp: sends_def)
  have db_w: "db v = db w" using v(2) answered(4) by (simp add: same_state_def)
  from f v(1) show ?thesis
  proof (cases rule: run_flow_cases)
    case (finished rs u1)
    have "db w' = db v1" using same answered(7) commit_ends [OF finished(2)] by simp
    with v(1) db_w finished(1,2) show ?thesis by blast
  next
    case undone
    with same v(2,3) db_w answered(7) show ?thesis by simp
  qed
qed simp

text \<open>C31. A configured tenant's member always gets an answer: when the token, the update and the tenant's
  providers can be read, then whatever happens in the flow (refusals, outages, exceptions, failed
  commits), the last thing done is one attempt to send a message to the chat the update came from.\<close>

theorem member_is_answered:
  assumes "receive_update dep tok (Some j) w = (r, w')" and "idle w"
    and "one_or_none (filter (\<lambda>r. token r = tok) (routes (db w))) = Inr (Some x)"
    and "parse_update j = Inr (Some upd)" and "upd_user_id upd \<noteq> 0"
    and "\<And>v. db v = db w \<Longrightarrow>
      \<exists>p. fst (tenant_providers dep (route_tenant_id x) BITUNIX (bind_tenant (route_tenant_id x) (fresh_session v))) = Inr (Some p)"
  shows "\<exists>evs txt kb ans. tg_log w' = tg_log w @ evs @ [SendMessage (upd_chat_id upd) txt kb ans]"
proof -
  obtain u where u: "same_state w u" and turn: "tenant_turn dep (route_tenant_id x) upd u = (r, w')"
    using receive_update_routed [OF assms(2,3), of dep j] assms(1,4,5) by auto
  have "idle u" using u by (simp add: same_state_def)
  with turn show ?thesis
  proof (cases rule: tenant_turn_cases)
    case unchanged
    from assms(6) [of u] u unchanged(4) show ?thesis by (auto simp: same_state_def)
  next
    case (answered rp tp v v')
    note v = providers_ready [OF answered(1)]
    obtain q v1 where f: "run_flow (dep_runtime dep) rp tp (route_tenant_id x) upd v = (q, v1)"
      using sends_answer [OF answered(2)] by blast
    have "keeps grows (run_flow (dep_runtime dep) rp tp (route_tenant_id x) upd)"
      unfolding run_flow_def
      by (intro grows.inner.keeps_tryA grows.inner.keeps_bindA grows.keeps_handle grows.inner.keeps_thenA grows.keeps_commit
          grows.inner.keeps_retA) (auto intro: grows.inner.keeps_thenA grows.keeps_rollback grows.inner.keeps_retA)
    from keepsD [OF this f] obtain evs where "tg_log v1 = tg_log v @ evs" by (auto simp: grows_def)
    with answer_sends_one [OF answered(2) f v(1)] answered(4) v(4) u show ?thesis
      by (fastforce simp: same_state_def)
  qed
qed

text \<open>An unknown token learns nothing and does nothing: the answer is the 200 every update gets, and
  no row, no call and no question comes of it.\<close>

theorem unknown_token_does_nothing:
  assumes "idle w" and "\<And>x. x \<in> set (routes (db w)) \<Longrightarrow> token x \<noteq> tok"
  shows "\<exists>w'. receive_update dep tok (Some j) w = (Inr 200, w') \<and> db w' = db w \<and>
    tg_log w' = tg_log w \<and> ref_log w' = ref_log w"
proof -
  have "filter (\<lambda>r. token r = tok) (routes (db w)) = []" using assms(2) by (simp add: filter_empty_conv)
  with receive_update_unrouted [OF assms(1), of tok dep j] show ?thesis
    by (auto simp: same_state_def)
qed

text \<open>Not every path returns 200: an update whose parsing raises (an id that is no number, a field that is
  no object) raises out of the endpoint once its token is known, so Telegram gets no 200 and delivers the
  same update again.\<close>

theorem unreadable_update_is_not_acknowledged:
  assumes "idle w" and "one_or_none (filter (\<lambda>r. token r = tok) (routes (db w))) = Inr (Some x)"
    and "parse_update j = Inl e"
  shows "\<exists>w'. receive_update dep tok (Some j) w = (Inl e, w') \<and> db w' = db w \<and> tg_log w' = tg_log w"
  using receive_update_routed [OF assms(1,2), of dep j] assms(3) by (auto simp: same_state_def)

end
