(* ===== verification/AdminSetup.thy ===== *)
theory AdminSetup
  imports Admin Webhook
begin

text \<open>
  What the administration's PUTs of programmes, channels and bots come to, and how they meet the rest of the
  program: the programme that onboarding reads, the path that routes the webhook, the markets the bot offers.
\<close>

subsection \<open>Writing a row as it is\<close>

lemma update_where_same:
  "(\<And>x. x \<in> set rs \<Longrightarrow> p x \<Longrightarrow> x = r) \<Longrightarrow> update_where p (\<lambda>_. r) rs = rs"
  by (auto simp: update_where_def intro!: map_idI)

lemma ready_flush: "ready t w \<Longrightarrow> flush w = (Inr (), w)"
  by (simp add: flush_def ready_def)

lemma touch_row_same:
  assumes "ready t w" and "table_unique tbl (tbl_get tbl (db w))" and "r \<in> set (tbl_get tbl (db w))"
    and "tenant_id r = t" and "\<And>x y. tbl_clash tbl x y \<Longrightarrow> tbl_clash tbl y x"
    and "tbl_set tbl (tbl_get tbl (db w)) (db w) = db w"
  shows "touch_row tbl r w = (Inr (), w)"
proof -
  let ?hit = "\<lambda>x. row_policy w x \<and> row_id x = row_id r"
  have pol: "row_policy w r" using assms(1,4) by (rule ready_policy)
  have one: "x = r" if "x \<in> set (tbl_get tbl (db w))" "row_id x = row_id r \<or> tbl_clash tbl x r" for x
    using table_unique_pair [OF assms(2,5) that(1) assms(3) that(2)] .
  have "update_where ?hit (\<lambda>_. r) (tbl_get tbl (db w)) = tbl_get tbl (db w)"
    by (rule update_where_same) (use one in auto)
  moreover have "\<not> (\<exists>x \<in> set (tbl_get tbl (db w)). row_id x \<noteq> row_id r \<and> tbl_clash tbl x r)"
    using one by auto
  ultimately have "put_row tbl r w = (Inr (), w)"
    using pol assms(3,6) by (auto simp: put_row_def Let_def)
  moreover have "begin_tx w = w" "\<not> failed w" using assms(1) by (simp_all add: ready_begin_tx) (simp add: ready_def)
  ultimately show ?thesis by (simp add: touch_row_def in_flush_def statement_def)
qed

subsection \<open>The referral programme\<close>

lemma upsert_config_InrD:
  assumes "upsert_referral_config env t q w = (Inr resp, w')" and "ready t w"
  obtains c where "c \<in> set (referral_configs (db w'))" "tenant_id c = t"
    "cfg_provider_type c = cfq_provider_type q" "cfg_market c = cfq_market q" "set_config q c = c"
    "resp = config_view c" "ready t w'"
proof -
  from assms(1) obtain found w1 c w2 w3 where
    g: "get_for t (cfq_provider_type q) (cfq_market q) w = (Inr found, w1)"
    and c: "(case found of Some c \<Rightarrow> retA c
        | None \<Rightarrow> bindA (new_scoped env t) (\<lambda>b. save configs_table True t (new_config b q))) w1 = (Inr c, w2)"
    and th: "touch_row configs_table (set_config q c) w2 = (Inr (), w3)"
    and fl: "flush w3 = (Inr (), w')" and resp: "resp = config_view (set_config q c)"
    unfolding upsert_referral_config_def thenA_def bindA_eq_Inr
    by (elim exE conjE) (rule that, assumption, assumption, simp_all)
  from find_one_InrD [OF g [unfolded get_for_def] assms(2)]
  have w1: "w1 = w" and found: "one_or_none (filter (\<lambda>r. tenant_id r = t \<and> tenant_id r = t \<and>
      cfg_provider_type r = cfq_provider_type q \<and> cfg_market r = cfq_market q) (referral_configs (db w))) = Inr found"
    by (simp_all add: configs_table_def)
  have "ready t w2 \<and> tenant_id c = t \<and> cfg_provider_type c = cfq_provider_type q \<and> cfg_market c = cfq_market q"
  proof (cases found)
    case None
    with c w1 obtain b v where b: "new_scoped env t w = (Inr b, v)"
        "save configs_table True t (new_config b q) v = (Inr c, w2)"
      by (auto simp: bindA_eq_Inr)
    have v: "ready t v" using new_scoped_InrD [OF b(1)] assms(2) by auto
    from save_InrD [OF b(2) v] v show ?thesis by (auto simp: new_config_def)
  next
    case (Some c0)
    from one_or_none_filterD [OF found [unfolded Some]] c w1 Some assms(2) show ?thesis by simp
  qed
  note w2 = this
  from touch_row_InrD [OF th conjunct1 [OF w2]] w2
  have w3: "ready t w3" "set_config q c \<in> set (referral_configs (db w3))"
    by (auto simp: configs_table_def updated_in)
  with fl have "w' = w3" by (simp add: ready_flush)
  show thesis
    by (rule that [of "set_config q c"]) (use w2 w3 resp \<open>w' = w3\<close> in \<open>simp_all add: set_config_def\<close>)
qed


text \<open>Putting the same programme again changes nothing: the second PUT gives the same answer and leaves
  the whole world, database included, as the first left it.\<close>

theorem programme_put_is_idempotent:
  assumes "upsert_referral_config env t q w = (Inr resp, w')" and "ready t w" and "keyed w"
  shows "upsert_referral_config env t q w' = (Inr resp, w')"
proof -
  obtain c where c: "c \<in> set (referral_configs (db w'))" "tenant_id c = t"
    "cfg_provider_type c = cfq_provider_type q" "cfg_market c = cfq_market q" "set_config q c = c"
    "resp = config_view c" "ready t w'"
    using upsert_config_InrD [OF assms(1,2)] .
  have "keyed w'" using keepsD [OF ukeys.keeps_configs(1) assms(1)] assms(3) by (simp add: ukeys_def)
  then have u: "table_unique configs_table (referral_configs (db w'))" by (simp add: keyed_def unique_keys_def)
  then have "one_or_none (filter (\<lambda>r. tenant_id r = t \<and> cfg_provider_type r = cfq_provider_type q \<and>
      cfg_market r = cfq_market q) (referral_configs (db w'))) = Inr (Some c)"
    by (rule found_by_key) (use c in \<open>auto simp: configs_table_def\<close>)
  then have "get_for t (cfq_provider_type q) (cfq_market q) w' = (Inr (Some c), w')"
    using c(7) by (simp add: get_for_ready)
  moreover have "touch_row configs_table c w' = (Inr (), w')"
    by (rule touch_row_same [OF c(7)]) (use u c in \<open>auto simp: configs_table_def\<close>)
  ultimately show ?thesis
    using c(5-7) by (simp add: upsert_referral_config_def bindA_def thenA_def ready_flush)
qed

subsection \<open>Channels\<close>

text \<open>C35. A channel that was switched off stays off: once the channel of a market is inactive, every PUT for
  that market, also one that wants to switch it on again, tries to insert a second row, fails on the
  unique constraint and loses whatever else its transaction had done.\<close>

theorem inactive_channel_cannot_return:
  assumes "ready t w" and "unique_keys (db w)"
    and "ch \<in> set (channels (db w))" and "tenant_id ch = t" and "ch_market ch = chq_market q" and "\<not> ch_is_active ch"
  shows "\<exists>w'. upsert_channel env t q w = (Inl IntegrityError, w') \<and> db w' = start w"
proof -
  have u: "table_unique channels_table (channels (db w))" using assms(2) by (simp add: unique_keys_def)
  have only: "c = ch" if "c \<in> set (channels (db w))" "tenant_id c = t" "ch_market c = chq_market q" for c
    by (rule table_unique_pair [OF u]) (use that assms(3-5) in \<open>auto simp: channels_table_def\<close>)
  have "filter (\<lambda>r. tenant_id r = t \<and> ch_market r = chq_market q \<and> ch_is_active r) (channels (db w)) = []"
    using only assms(6) by (auto simp: filter_empty_conv)
  then have g: "get_for_market t (chq_market q) w = (Inr None, w)" by (simp add: get_for_market_ready [OF assms(1)])
  obtain b v where b: "new_scoped env t w = (Inr b, v)"
    by (simp add: new_scoped_def new_id_def utcnow_def bindA_def)
  have v: "ready t v" "db v = db w" "start v = start w" using new_scoped_InrD [OF b] assms(1) by auto
  have "\<not> failed v" using v(1) by (simp add: ready_def)
  let ?r = "(new_channel b q)\<lparr>tenant_id := t\<rparr>"
  have "row_policy v ?r" by (rule ready_policy [OF v(1)]) simp
  moreover have "tbl_clash channels_table ch ?r" using assms(4,5) by (simp add: channels_table_def new_channel_def)
  ultimately have "insert_row channels_table ?r v = (Inl IntegrityError, v)"
    using assms(3) v(2) by (auto simp: insert_row_def channels_table_def)
  then have "add_row channels_table ?r v = (Inl IntegrityError, v\<lparr>db := start v, pending := [], failed := True\<rparr>)"
    using v(1) \<open>\<not> failed v\<close>
    by (simp add: add_row_def in_flush_def statement_def ready_begin_tx thenA_def bindA_def write_pending_ready)
  then show ?thesis
    using g b v(3) by (simp add: upsert_channel_def save_def Let_def bindA_def thenA_def)
qed

subsection \<open>The webhook path\<close>

lemma ensure_route_InrD:
  assumes "ensure_webhook_route env tokens t w = (Inr tok, w')" and "ready t w"
  shows "ready t w' \<and> (\<exists>x \<in> set (routes (db w')). token x = tok \<and> route_tenant_id x = t \<and> provider x = TELEGRAM_PROVIDER) \<and>
    (distinct (map token (routes (db w))) \<longrightarrow> distinct (map token (routes (db w')))) \<and>
    (\<forall>x \<in> set (routes (db w)). route_tenant_id x = t \<and> provider x = TELEGRAM_PROVIDER \<longrightarrow> token x = tok)"
proof -
  let ?rs = "filter (\<lambda>r. route_tenant_id r = t \<and> provider r = TELEGRAM_PROVIDER) (routes (db w))"
  have q: "thenA flush (statement (readA (\<lambda>w. filter (\<lambda>r. route_tenant_id r = t \<and> provider r = TELEGRAM_PROVIDER)
      (routes (db w))))) w = (Inr ?rs, w)"
    using assms(2) by (simp add: thenA_def bindA_def ready_flush statement_def ready_begin_tx) (simp add: ready_def)
  show ?thesis
  proof (cases "one_or_none ?rs")
    case (Inl e)
    with assms(1) q show ?thesis by (simp add: ensure_webhook_route_def bindA_def)
  next
    case (Inr found)
    show ?thesis
    proof (cases found)
      case (Some x)
      with assms(1) q Inr have w': "w' = w" "tok = token x" by (simp_all add: ensure_webhook_route_def bindA_def)
      have "x \<in> set (routes (db w)) \<and> route_tenant_id x = t \<and> provider x = TELEGRAM_PROVIDER"
        using one_or_none_filterD [OF Inr [unfolded Some]] .
      moreover have "y = x" if "y \<in> set (routes (db w))" "route_tenant_id y = t \<and> provider y = TELEGRAM_PROVIDER" for y
        using one_or_none_filter_only [OF Inr [unfolded Some] that] .
      ultimately show ?thesis using w' assms(2) by auto
    next
      case None
      obtain b v where b: "new_scoped env t w = (Inr b, v)"
        by (simp add: new_scoped_def new_id_def utcnow_def bindA_def)
      have v: "ready t v" "db v = db w" using new_scoped_InrD [OF b] assms(2) by auto
      define r where "r = \<lparr>row_id = row_id b, created_at = created_at b, token = take 64 (tokens (draws w)),
        route_tenant_id = t, provider = TELEGRAM_PROVIDER\<rparr>"
      have "in_flush (thenA write_pending (insert_route r)) v = (Inr (), w')" and tok: "tok = token r"
        using assms(1) q Inr None b
        by (auto simp: ensure_webhook_route_def bindA_def [of "thenA flush _"] bindA_def [of "readA _"]
            bindA_def [of "new_scoped _ _"] bindA_liftR Let_def thenA_def [of "in_flush _"] bindA_eq_Inr r_def)
      then have "insert_route r v = (Inr (), w')" using in_flush_InrD [OF v(1)] by blast
      then have w': "w' = v\<lparr>db := (db v)\<lparr>routes := routes (db v) @ [r]\<rparr>\<rparr>"
        and fresh: "\<forall>x \<in> set (routes (db w)). token x \<noteq> token r"
        using v(2) by (auto simp: insert_route_def split: if_splits)
      have "\<forall>x \<in> set (routes (db w)). \<not> (route_tenant_id x = t \<and> provider x = TELEGRAM_PROVIDER)"
        using one_or_none_NoneD [OF Inr [unfolded None]] by blast
      with w' v fresh tok show ?thesis by (auto simp: r_def)
    qed
  qed
qed

text \<open>Reading in a session that is ready changes nothing.\<close>

lemma reading_ready: "reading m \<Longrightarrow> ready t w \<Longrightarrow> snd (m w) = w"
  using readingD [of m w "fst (m w)" "snd (m w)"] ready_begin_tx [of t w] by (simp add: ready_def)

lemma touch_row_errors: "touch_row tbl r w = (Inl e, w') \<Longrightarrow> \<not> is_unavailable e \<and> \<not> is_missing e"
  by (auto simp: touch_row_def in_flush_def statement_def put_row_def Let_def split: if_splits prod.splits sum.splits)

lemma touch_row_routes:
  assumes "touch_row tbl r w = (Inr x, w')" and "ready t w" and "\<And>rs d. routes (tbl_set tbl rs d) = routes d"
  shows "ready t w' \<and> routes (db w') = routes (db w)"
  using touch_row_InrD [OF assms(1,2)] assms(2,3) by auto

lemma verify_bot_InrD:
  assumes "verify_bot dep t config cred w = (Inr c', w')" and "ready t w"
  shows "ready t w' \<and> routes (db w') = routes (db w)"
proof -
  have tbl: "routes (tbl_set bot_configs_table rs d) = routes d" "routes (tbl_set credentials_table rs' d) = routes d"
    for rs rs' d by (simp_all add: bot_configs_table_def credentials_table_def)
  let ?off = "config\<lparr>bot_username := None, bot_verified_at := None\<rparr>"
  obtain fr where f: "factory_telegram dep t w = (fr, w)"
    using reading_ready [OF reading_factory(2) assms(2)] by (metis prod.collapse)
  have off: ?thesis if "ready t v" "routes (db v) = routes (db w)"
      "thenA (touch_row bot_configs_table ?off) (retA ?off) v = (Inr c', w')" for v
  proof -
    from that(3) have "touch_row bot_configs_table ?off v = (Inr (), w')" by (auto simp: thenA_def bindA_eq_Inr)
    from touch_row_routes [OF this that(1) tbl(1)] that(2) show ?thesis by simp
  qed
  show ?thesis
  proof (cases fr)
    case (Inl e)
    with f assms show ?thesis
      by (intro off [of w]) (auto simp: verify_bot_def tryA_def bindA_def Let_def split: if_splits)
  next
    case (Inr tp)
    obtain g where g: "get_me tp w = (g, w\<lparr>tg_log := tg_log w @ [GetMe g]\<rparr>)"
      by (simp add: telegram_calls Let_def)
    let ?v = "w\<lparr>tg_log := tg_log w @ [GetMe g]\<rparr>"
    show ?thesis
    proof (cases g)
      case (Inl e)
      with f g assms \<open>fr = Inr tp\<close> show ?thesis
        by (intro off [of ?v]) (auto simp: verify_bot_def tryA_def bindA_def Let_def split: if_splits)
    next
      case (Inr identity)
      obtain now u where u: "utcnow (dep_runtime dep) ?v = (Inr now, u)" by (simp add: utcnow_def)
      have rdy: "ready t u" "routes (db u) = routes (db w)" using utcnow_InrD [OF u] assms(2) by simp_all
      let ?c = "config\<lparr>bot_username := bot_name identity, bot_verified_at := Some now\<rparr>"
      let ?k = "cred\<lparr>cred_verified_at := Some now\<rparr>"
      obtain z1 u1 where t1: "touch_row bot_configs_table ?c u = (z1, u1)" by fastforce
      obtain z2 u2 where t2: "touch_row credentials_table ?k u1 = (z2, u2)" by fastforce
      note run = f g u t1 t2 assms(1) \<open>fr = Inr tp\<close> Inr
      have "z1 = Inr () \<and> z2 = Inr () \<and> w' = u2"
        using run touch_row_errors [of bot_configs_table ?c u _ u1] touch_row_errors [of credentials_table ?k u1 _ u2]
        by (cases z1; cases z2) (auto simp: verify_bot_def tryA_def bindA_def thenA_def Let_def split: if_splits)
      with touch_row_routes [OF t1 [unfolded conjunct1 [OF this]] rdy(1) tbl(1)] rdy(2) t2 show ?thesis
        using touch_row_routes [of credentials_table ?k u1 "()" u2 t] tbl(2) by simp
    qed
  qed
qed

lemma upsert_bot_InrD:
  assumes "upsert_bot dep tokens t q w = (Inr resp, w')" and "ready t w"
  obtains u u' tok where "ready t u" "routes (db u) = routes (db w)"
    "ensure_webhook_route (dep_runtime dep) tokens t u = (Inr tok, u')" "routes (db w') = routes (db u')"
    "webhook_path resp = Some (WEBHOOK_PATH_PREFIX @ tok)"
proof -
  have tbl: "routes (tbl_set bot_configs_table rs d) = routes d" for rs d by (simp add: bot_configs_table_def)
  from assms(1) obtain cr w1 w2 found w3 c w4 w5 tok w6 c' w7 where
    s: "store_secret dep t TELEGRAM TELEGRAM_BOT_TOKEN (bq_token q) w = (Inr cr, w1)"
    and f1: "flush w1 = (Inr (), w2)" and g: "get_bot_config t w2 = (Inr found, w3)"
    and c: "(case found of Some c \<Rightarrow> retA c
         | None \<Rightarrow> bindA (new_scoped (dep_runtime dep) t) (\<lambda>b.
             save bot_configs_table True t (new_bot_config b (row_id cr)))) w3 = (Inr c, w4)"
    and th: "touch_row bot_configs_table (c\<lparr>credential_id := row_id cr\<rparr>) w4 = (Inr (), w5)"
    and er: "ensure_webhook_route (dep_runtime dep) tokens t w5 = (Inr tok, w6)"
    and vb: "verify_bot dep t (c\<lparr>credential_id := row_id cr\<rparr>) cr w6 = (Inr c', w7)"
    and f2: "flush w7 = (Inr (), w')" and resp: "webhook_path resp = Some (WEBHOOK_PATH_PREFIX @ tok)"
    unfolding upsert_bot_def thenA_def Let_def bindA_eq_Inr
    by (elim exE conjE) (rule that, assumption, simp, assumption, assumption, simp, assumption, assumption, auto)
  have w1: "ready t w1" "routes (db w1) = routes (db w)" using store_secret_InrD [OF s assms(2)] by auto
  have w2: "w2 = w1" using f1 w1(1) by (simp add: ready_flush)
  have w3: "w3 = w1" using g w2 w1(1) by (simp add: get_bot_config_ready)
  have w4: "ready t w4 \<and> routes (db w4) = routes (db w)"
  proof (cases found)
    case None
    with c w3 obtain b v where b: "new_scoped (dep_runtime dep) t w1 = (Inr b, v)"
        "save bot_configs_table True t (new_bot_config b (row_id cr)) v = (Inr c, w4)"
      by (auto simp: bindA_eq_Inr)
    have v: "ready t v" "routes (db v) = routes (db w)" using new_scoped_InrD [OF b(1)] w1 by auto
    from save_InrD [OF b(2) v(1)] v tbl show ?thesis by auto
  next
    case (Some c0)
    with c w3 w1 show ?thesis by simp
  qed
  have w5: "ready t w5" "routes (db w5) = routes (db w)"
    using touch_row_routes [OF th conjunct1 [OF w4] tbl] w4 by simp_all
  have w6: "ready t w6" using ensure_route_InrD [OF er w5(1)] by blast
  have w7: "ready t w7" "routes (db w7) = routes (db w6)" using verify_bot_InrD [OF vb w6] by simp_all
  have "w' = w7" using f2 w7(1) by (simp add: ready_flush)
  with that [OF w5 er _ resp] w7(2) show thesis by simp
qed

text \<open>A token that is unique is found by the lookup.\<close>

lemma token_resolves:
  assumes "distinct (map token rs)" and "x \<in> set rs"
  shows "one_or_none (filter (\<lambda>r. token r = token x) rs) = Inr (Some x)"
proof -
  obtain found where f: "one_or_none (filter (\<lambda>r. token r = token x) rs) = Inr found"
    using one_or_none_short [OF filter_key_length [OF assms(1)]] by blast
  then have "found = Some x"
    using assms(2) one_or_none_NoneD [of "\<lambda>r. token r = token x" rs x]
      one_or_none_filter_only [of "\<lambda>r. token r = token x" rs _ x] by (cases found) auto
  with f show ?thesis by simp
qed

text \<open>C36. The path that is handed out leads home: the webhook path a PUT of the bot answers with ends in a
  token that the webhook's lookup resolves to this tenant and to no other, and a tenant that already had a
  path keeps it, however often the bot is installed again.\<close>

theorem webhook_path_leads_home:
  assumes "upsert_bot dep tokens t q w = (Inr resp, w')" and "ready t w"
    and "unique_keys (db w)"
  shows "\<exists>tok x. webhook_path resp = Some (WEBHOOK_PATH_PREFIX @ tok) \<and>
    one_or_none (filter (\<lambda>r. token r = tok) (routes (db w'))) = Inr (Some x) \<and> route_tenant_id x = t \<and>
    (\<forall>y \<in> set (routes (db w)). route_tenant_id y = t \<and> provider y = TELEGRAM_PROVIDER \<longrightarrow> token y = tok)"
proof -
  obtain u u' tok where u: "ready t u" "routes (db u) = routes (db w)"
    "ensure_webhook_route (dep_runtime dep) tokens t u = (Inr tok, u')" "routes (db w') = routes (db u')"
    "webhook_path resp = Some (WEBHOOK_PATH_PREFIX @ tok)"
    using upsert_bot_InrD [OF assms(1,2)] .
  note r = ensure_route_InrD [OF u(3,1)]
  then obtain x where x: "x \<in> set (routes (db w'))" "token x = tok" "route_tenant_id x = t" using u(4) by auto
  have "distinct (map token (routes (db w')))" using r assms(3) u(2,4) by (simp add: unique_keys_def)
  from token_resolves [OF this x(1)] x(2,3) u(2,5) r show ?thesis by auto
qed

subsection \<open>The integration check\<close>




end
