(* ===== verification/HeaderUuid.thy ===== *)
theory HeaderUuid
  imports Json
begin

text \<open>
  Python's \<open>uuid.UUID(text)\<close>, with which the middleware reads the tenant header, and \<open>str(uuid)\<close>, with
  which the session publishes the tenant. The parser is more liberal than the canonical form: \<open>urn:\<close>,
  \<open>uuid:\<close>, braces and dashes are dropped, and the 32 characters that are left go through
  \<open>int(text, 16)\<close> with its white space, sign, \<open>0x\<close> and underscores.
\<close>

subsection \<open>Parsing\<close>

text \<open>\<open>s.replace(pat, '')\<close> for a pattern that is not empty.\<close>

fun remove_all :: "ustr \<Rightarrow> ustr \<Rightarrow> ustr" where
  "remove_all pat [] = []"
| "remove_all pat (c # cs) =
     (if py_startswith (c # cs) pat then remove_all pat (drop (length pat - 1) cs)
      else c # remove_all pat cs)"

text \<open>\<open>s.strip('{}')\<close>.\<close>

definition strip_braces :: "ustr \<Rightarrow> ustr" where
  "strip_braces s =
     (let brace = (\<lambda>c. c = 123 \<or> c = 125) in rev (dropWhile brace (rev (dropWhile brace s))))"

definition hex_value :: "nat \<Rightarrow> nat option" where
  "hex_value c =
     (if 97 \<le> c \<and> c \<le> 102 then Some (c - 87)
      else if 65 \<le> c \<and> c \<le> 70 then Some (c - 55)
      else digit_value c)"

text \<open>Hexadecimal digits with single underscores between them.\<close>

fun hex_digits :: "nat \<Rightarrow> bool \<Rightarrow> ustr \<Rightarrow> nat option" where
  "hex_digits acc after_digit [] = (if after_digit then Some acc else None)"
| "hex_digits acc after_digit (c # cs) =
     (if c = 95 then (if after_digit then hex_digits acc False cs else None)
      else case hex_value c of
          None \<Rightarrow> None
        | Some d \<Rightarrow> hex_digits (16 * acc + d) True cs)"

text \<open>A prefix \<open>0x\<close>, with the one underscore that may follow it.\<close>

fun drop_0x :: "ustr \<Rightarrow> ustr" where
  "drop_0x (c # d # cs) =
     (if digit_value c = Some 0 \<and> (d = 120 \<or> d = 88)
      then (case cs of [] \<Rightarrow> [] | e # es \<Rightarrow> if e = 95 then es else cs)
      else c # d # cs)"
| "drop_0x s = s"

definition int16_of_text :: "ustr \<Rightarrow> int res" where
  "int16_of_text s =
     (case split_sign (py_strip s) of (neg, body) \<Rightarrow>
        case hex_digits 0 False (drop_0x body) of
          None \<Rightarrow> Inl ValueError
        | Some n \<Rightarrow> Inr (if neg then - int n else int n))"

definition uuid_of_text :: "ustr \<Rightarrow> uuid res" where
  "uuid_of_text s =
     (let hex = filter (\<lambda>c. c \<noteq> 45) (strip_braces (remove_all (asc ''uuid:'') (remove_all (asc ''urn:'') s))) in
      if length hex \<noteq> 32 then Inl ValueError
      else bindR (int16_of_text hex) (\<lambda>i.
        if 0 \<le> i \<and> i < 2 ^ 128 then Inr (nat i) else Inl ValueError))"

subsection \<open>Printing\<close>

definition hex_digit :: "nat \<Rightarrow> nat" where
  "hex_digit d = (if d < 10 then 48 + d else 87 + d)"

fun hex_text :: "nat \<Rightarrow> nat \<Rightarrow> ustr" where
  "hex_text 0 u = []"
| "hex_text (Suc n) u = hex_text n (u div 16) @ [hex_digit (u mod 16)]"

definition text_of_uuid :: "uuid \<Rightarrow> ustr" where
  "text_of_uuid u =
     (let h = hex_text 32 u; part = (\<lambda>i n. take n (drop i h)) in
      part 0 8 @ [45] @ part 8 4 @ [45] @ part 12 4 @ [45] @ part 16 4 @ [45] @ part 20 12)"

subsection \<open>Properties\<close>

lemma length_hex_text [simp]: "length (hex_text n u) = n"
  by (induction n arbitrary: u) simp_all

text \<open>The characters of hexadecimal text.\<close>

definition is_hex :: "nat \<Rightarrow> bool" where
  "is_hex c \<longleftrightarrow> 48 \<le> c \<and> c \<le> 57 \<or> 97 \<le> c \<and> c \<le> 102"

lemma is_hex_digit: "is_hex (hex_digit (u mod 16))"
proof -
  have "u mod 16 < 16" by simp
  then show ?thesis by (cases "u mod 16 < 10") (simp_all add: is_hex_def hex_digit_def)
qed

lemma hex_text_chars: "c \<in> set (hex_text n u) \<Longrightarrow> is_hex c"
  by (induction n arbitrary: u) (auto simp: is_hex_digit)

lemma hex_value_digit: "d < 16 \<Longrightarrow> hex_value (hex_digit d) = Some d \<and> hex_digit d \<noteq> 95"
  by (cases "d < 10") (simp_all add: hex_digit_def hex_value_def digit_value_def nd_ranges_def)

lemma hex_digits_append:
  assumes "\<And>c. c \<in> set s \<Longrightarrow> hex_value c \<noteq> None \<and> c \<noteq> 95" and "s \<noteq> []" and "hex_digits acc b s = Some n"
  shows "hex_digits acc b (s @ t) = hex_digits n True t"
  using assms
proof (induction s arbitrary: acc b)
  case (Cons c s)
  from Cons.prems(1) [of c] obtain d where "hex_value c = Some d" "c \<noteq> 95" by auto
  with Cons show ?case by (cases "s = []") simp_all
qed simp

lemma hex_text_valid: "c \<in> set (hex_text n u) \<Longrightarrow> hex_value c \<noteq> None \<and> c \<noteq> 95"
  by (induction n arbitrary: u) (auto simp: hex_value_digit)

lemma hex_digits_text: "hex_digits 0 False (hex_text (Suc n) u) = Some (u mod 16 ^ Suc n)"
proof (induction n arbitrary: u)
  case 0
  show ?case using hex_value_digit [of "u mod 16"] by simp
next
  case (Suc n)
  have v: "hex_value (hex_digit (u mod 16)) = Some (u mod 16)" "hex_digit (u mod 16) \<noteq> 95"
    using hex_value_digit by simp_all
  let ?s = "hex_text (Suc n) (u div 16)"
  have "?s \<noteq> []" using length_hex_text [of "Suc n" "u div 16"] by (metis length_0_conv nat.distinct(1))
  from hex_digits_append [OF hex_text_valid this Suc.IH]
  have "hex_digits 0 False (?s @ [hex_digit (u mod 16)]) =
      hex_digits ((u div 16) mod 16 ^ Suc n) True [hex_digit (u mod 16)]" .
  then have "hex_digits 0 False (hex_text (Suc (Suc n)) u) =
      hex_digits ((u div 16) mod 16 ^ Suc n) True [hex_digit (u mod 16)]"
    by (simp only: hex_text.simps(2) [of "Suc n"])
  also have "\<dots> = Some (16 * ((u div 16) mod 16 ^ Suc n) + u mod 16)" using v by simp
  also have "16 * ((u div 16) mod 16 ^ Suc n) + u mod 16 = u mod 16 ^ Suc (Suc n)"
    by (metis mod_mult2_eq mult.commute power_Suc)
  finally show ?case .
qed

lemma remove_all_absent:
  assumes "hd pat \<notin> set s" and "pat \<noteq> []"
  shows "remove_all pat s = s"
  using assms
proof (induction s)
  case (Cons c s)
  then have "\<not> py_startswith (c # s) pat" by (cases pat) (auto simp: py_startswith_def)
  with Cons show ?case by simp
qed simp

lemma strip_braces_absent: "123 \<notin> set s \<Longrightarrow> 125 \<notin> set s \<Longrightarrow> strip_braces s = s"
proof -
  assume b: "123 \<notin> set s" "125 \<notin> set s"
  let ?brace = "\<lambda>c::nat. c = 123 \<or> c = 125"
  have "dropWhile ?brace s = s" "dropWhile ?brace (rev s) = rev s" by (rule dropWhile_none; use b in auto)+
  then show "strip_braces s = s" by (simp add: strip_braces_def Let_def)
qed

lemma text_of_uuid_chars: "c \<in> set (text_of_uuid u) \<Longrightarrow> c = 45 \<or> is_hex c"
  by (auto simp: text_of_uuid_def Let_def dest!: in_set_takeD in_set_dropD hex_text_chars)

lemma text_of_uuid_plain: "filter (\<lambda>c. c \<noteq> 45) (text_of_uuid u) = hex_text 32 u"
proof -
  let ?h = "hex_text 32 u"
  have all: "filter (\<lambda>c. c \<noteq> 45) (take n (drop i ?h)) = take n (drop i ?h)" for n i
    by (auto simp: filter_id_conv is_hex_def dest!: in_set_takeD in_set_dropD hex_text_chars)
  have split: "take n (drop i ?h) @ drop (i + n) ?h = drop i ?h" for n i
    by (metis add.commute append_take_drop_id drop_drop)
  have "filter (\<lambda>c. c \<noteq> 45) (text_of_uuid u) =
      take 8 (drop 0 ?h) @ take 4 (drop 8 ?h) @ take 4 (drop 12 ?h) @ take 4 (drop 16 ?h) @ take 12 (drop 20 ?h)"
    by (simp only: text_of_uuid_def Let_def filter_append all) simp
  also have "take 12 (drop 20 ?h) = drop 20 ?h" by simp
  also have "take 8 (drop 0 ?h) @ take 4 (drop 8 ?h) @ take 4 (drop 12 ?h) @ take 4 (drop 16 ?h) @ drop 20 ?h = ?h"
    using split [of 8 0] split [of 4 8] split [of 4 12] split [of 4 16] by simp
  finally show ?thesis .
qed

text \<open>The canonical text of a UUID, which is what \<open>str\<close> gives, is read back as that UUID.\<close>

theorem header_uuid_roundtrip:
  assumes "u < 2 ^ 128"
  shows "uuid_of_text (text_of_uuid u) = Inr u"
proof -
  have "117 \<notin> set (text_of_uuid u)" "123 \<notin> set (text_of_uuid u)" "125 \<notin> set (text_of_uuid u)"
    using text_of_uuid_chars [of 117 u] text_of_uuid_chars [of 123 u] text_of_uuid_chars [of 125 u]
    by (auto simp: is_hex_def)
  moreover have "hd (asc ''urn:'') = 117" "hd (asc ''uuid:'') = 117" "asc ''urn:'' \<noteq> []" "asc ''uuid:'' \<noteq> []"
    by (simp_all add: asc_def)
  ultimately have hex:
    "filter (\<lambda>c. c \<noteq> 45) (strip_braces (remove_all (asc ''uuid:'') (remove_all (asc ''urn:'') (text_of_uuid u))))
      = hex_text 32 u"
    by (simp only: remove_all_absent strip_braces_absent text_of_uuid_plain not_False_eq_True)
  obtain c d cs where h: "hex_text 32 u = c # d # cs"
    using length_hex_text [of 32 u]
    by (cases "hex_text 32 u" rule: drop_0x.cases) (auto simp del: length_hex_text)
  have range: "is_hex x" if "x \<in> set (c # d # cs)" for x using hex_text_chars that h by metis
  have "\<not> is_space x" if "x \<in> set (c # d # cs)" for x
    using range [OF that] by (auto simp: is_hex_def is_space_def in_ranges_def space_ranges_def)
  then have "py_strip (c # d # cs) = c # d # cs" by (rule py_strip_no_space)
  moreover have "split_sign (c # d # cs) = (False, c # d # cs)" "drop_0x (c # d # cs) = c # d # cs"
    using range [of c] range [of d] by (auto simp: is_hex_def split_sign_def)
  moreover have "hex_digits 0 False (hex_text 32 u) = Some (u mod 16 ^ 32)"
    using hex_digits_text [of 31 u] by (simp del: hex_text.simps)
  ultimately have "int16_of_text (hex_text 32 u) = Inr (int u)"
    using assms by (simp add: int16_of_text_def h)
  with hex assms show ?thesis by (simp add: uuid_of_text_def Let_def)
qed

theorem header_uuid_roundtrip_witness:
  "uuid_of_text (text_of_uuid 24197857200151252728969465429440056815) = Inr 24197857200151252728969465429440056815"
  by (rule header_uuid_roundtrip) simp

text \<open>Whatever is accepted as a UUID fits 128 bits.\<close>

lemma uuid_of_text_bound: "uuid_of_text s = Inr u \<Longrightarrow> u < 2 ^ 128"
  by (auto simp: uuid_of_text_def Let_def res_simps split: if_splits) 

end
