(* ===== verification/Web.thy ===== *)
theory Web
  imports Payments AdminSetup HeaderUuid
begin

text \<open>
  The edge of the application: \<open>app/main.py\<close>, the tenant middleware, the dependencies, the error handler and
  the routers of health and payments. The routing and decoding that FastAPI does is a parameter: from a
  request it makes the call of one of the declared endpoints, with a payload of the right type, or an answer
  of its own (404, 405, 422, a page of the documentation). A response is its status code.
\<close>

subsection \<open>Calls and where they are mounted\<close>

datatype call =
    Health
  | IngestPayment payment_request
  | PutCredential credential_request
  | ListCredentials
  | PutReferralConfig config_request
  | PutChannel channel_request
  | ListChannels
  | PutBot bot_request
  | IntegrationCheck
  | TelegramUpdate ustr "json option"
  | Unrouted nat

definition API_PREFIX :: ustr where
  "API_PREFIX = asc ''/api/v1''"

definition admin_path :: "string \<Rightarrow> ustr option" where
  "admin_path p = Some (API_PREFIX @ asc ''/admin'' @ asc p)"

fun call_path :: "call \<Rightarrow> ustr option" where
  "call_path Health = Some (asc ''/health'')"
| "call_path (IngestPayment q) = Some (API_PREFIX @ asc ''/webhooks'' @ asc ''/payments'')"
| "call_path (PutCredential q) = admin_path ''/credentials''"
| "call_path ListCredentials = admin_path ''/credentials''"
| "call_path (PutReferralConfig q) = admin_path ''/referral-config''"
| "call_path (PutChannel q) = admin_path ''/channels''"
| "call_path ListChannels = admin_path ''/channels''"
| "call_path (PutBot q) = admin_path ''/telegram-bot''"
| "call_path IntegrationCheck = admin_path ''/integration-check''"
| "call_path (TelegramUpdate tok body) = Some (API_PREFIX @ asc ''/telegram'' @ asc ''/'' @ tok)"
| "call_path (Unrouted n) = None"

subsection \<open>The tenant of a request\<close>

record http_request =
  req_method :: ustr
  req_path :: ustr
  req_tenant_header :: "ustr option"
  req_body :: "json option"

definition DEFAULT_PUBLIC_PATHS :: "ustr list" where
  "DEFAULT_PUBLIC_PATHS = map asc [''/health'', ''/docs'', ''/redoc'', ''/openapi.json'']"

text \<open>\<open>TenantContextMiddleware.__init__\<close>: the paths that were given, if any were.\<close>

definition middleware_paths :: "ustr list option \<Rightarrow> ustr list" where
  "middleware_paths given = (case given of None \<Rightarrow> DEFAULT_PUBLIC_PATHS
     | Some ps \<Rightarrow> if ps = [] then DEFAULT_PUBLIC_PATHS else ps)"

text \<open>What the middleware decides: an answer of its own, or the \<open>request.state.tenant_id\<close> to go on with.\<close>

definition admitted :: "ustr list \<Rightarrow> ustr list \<Rightarrow> http_request \<Rightarrow> nat + uuid option" where
  "admitted paths prefixes rq =
     (if req_path rq \<in> set paths \<or> list_ex (py_startswith (req_path rq)) prefixes then Inr None
      else case req_tenant_header rq of
          None \<Rightarrow> Inl 401
        | Some h \<Rightarrow>
            if h = [] then Inl 401
            else case uuid_of_text h of Inl e \<Rightarrow> Inl 400 | Inr t \<Rightarrow> Inr (Some t))"

definition dispatch ::
  "ustr list \<Rightarrow> ustr list \<Rightarrow> (http_request \<Rightarrow> uuid option \<Rightarrow> nat act) \<Rightarrow> http_request \<Rightarrow> nat act" where
  "dispatch paths prefixes call_next rq =
     (case admitted paths prefixes rq of Inl n \<Rightarrow> retA n | Inr state \<Rightarrow> call_next rq state)"

definition get_tenant_id :: "http_request \<Rightarrow> uuid option \<Rightarrow> uuid res" where
  "get_tenant_id rq state =
     (case state of
        None \<Rightarrow> Inl (RuntimeError (asc ''No tenant context for '' @ req_path rq @
          asc ''. Either TenantContextMiddleware is not registered, or this path is listed in its public_paths.''))
      | Some t \<Rightarrow> Inr t)"

definition get_tenant_session :: "uuid \<Rightarrow> 'a act \<Rightarrow> 'a act" where
  "get_tenant_session t body =
     with_session
       (thenA (writeA (bind_tenant t))
       (tryA (bindA body (\<lambda>x. thenA commit (retA x)))
             (\<lambda>e. Some (thenA rollback (raiseA e)))))"

subsection \<open>The application\<close>

text \<open>The calls that depend on the tenant's session: whether the payload meets its constraints, and the
  handler.\<close>

fun tenant_call :: "deployment \<Rightarrow> (nat \<Rightarrow> ustr) \<Rightarrow> call \<Rightarrow> (bool \<times> (uuid \<Rightarrow> unit act)) option" where
  "tenant_call dep tokens (IngestPayment q) =
     Some (payment_request_ok q, \<lambda>t. bindA (process_payment (dep_runtime dep) t q) (\<lambda>_. retA ()))"
| "tenant_call dep tokens (PutCredential q) =
     Some (credential_request_ok q, \<lambda>t. bindA (upsert_credential dep t q) (\<lambda>_. retA ()))"
| "tenant_call dep tokens ListCredentials = Some (True, \<lambda>t. bindA (list_credentials t) (\<lambda>_. retA ()))"
| "tenant_call dep tokens (PutReferralConfig q) =
     Some (config_request_ok q, \<lambda>t. bindA (upsert_referral_config (dep_runtime dep) t q) (\<lambda>_. retA ()))"
| "tenant_call dep tokens (PutChannel q) =
     Some (channel_request_ok q, \<lambda>t. bindA (upsert_channel (dep_runtime dep) t q) (\<lambda>_. retA ()))"
| "tenant_call dep tokens ListChannels = Some (True, \<lambda>t. bindA (list_channels t) (\<lambda>_. retA ()))"
| "tenant_call dep tokens (PutBot q) =
     Some (bot_request_ok q, \<lambda>t. bindA (upsert_bot dep tokens t q) (\<lambda>_. retA ()))"
| "tenant_call dep tokens IntegrationCheck = Some (True, \<lambda>t. bindA (check_integration dep t) (\<lambda>_. retA ()))"
| "tenant_call dep tokens c = None"

fun open_call :: "deployment \<Rightarrow> call \<Rightarrow> nat act" where
  "open_call dep (TelegramUpdate tok body) = receive_update dep tok body"
| "open_call dep (Unrouted n) = retA n"
| "open_call dep c = retA 200"

definition endpoint ::
  "deployment \<Rightarrow> (nat \<Rightarrow> ustr) \<Rightarrow> call \<Rightarrow> http_request \<Rightarrow> uuid option \<Rightarrow> nat act" where
  "endpoint dep tokens c rq state =
     (case tenant_call dep tokens c of
        None \<Rightarrow> open_call dep c
      | Some (ok, body) \<Rightarrow>
          bindA (liftR (get_tenant_id rq state)) (\<lambda>t.
          if ok then thenA (get_tenant_session t (body t)) (retA 200) else retA 422))"

text \<open>No exception handler is registered: an \<open>HTTPException\<close> is its status, anything else is a 500.\<close>

fun exception_status :: "exn \<Rightarrow> nat" where
  "exception_status (HTTPException n) = n"
| "exception_status e = 500"

definition app :: "deployment \<Rightarrow> (nat \<Rightarrow> ustr) \<Rightarrow> (http_request \<Rightarrow> call) \<Rightarrow> http_request \<Rightarrow> nat act" where
  "app dep tokens routing rq =
     tryA (dispatch (middleware_paths None) [WEBHOOK_PATH_PREFIX]
            (\<lambda>rq state. endpoint dep tokens (routing rq) rq state) rq)
       (\<lambda>e. Some (retA (exception_status e)))"

text \<open>What \<open>error_handler.py\<close> would answer if it were registered.\<close>

fun global_exception_handler :: "exn \<Rightarrow> nat" where
  "global_exception_handler (EntityNotFoundError s) = 404"
| "global_exception_handler (ProviderUnavailableError s) = 503"
| "global_exception_handler (DomainError s) = 400"
| "global_exception_handler (ApplicationError s) = 400"
| "global_exception_handler (MissingCredentialError s) = 400"
| "global_exception_handler e = 500"

subsection \<open>What a request keeps\<close>

text \<open>Relations that the handlers of a request of tenant \<open>t\<close> keep.\<close>

locale request_relation = setup_relation S R t for S R t +
  assumes payments_kept: "keeps S (insert_row payments_table p)" "keeps S (put_row payments_table p)"
begin

lemma keeps_payment: "keeps R (process_payment env t' q)"
  unfolding process_payment_def
  by (intro keeps_bindA keeps_new_scoped keeps_save payments_kept keeps_retA)

lemma keeps_tenant_call: "tenant_call dep tokens c = Some (ok, body) \<Longrightarrow> keeps R (body t)"
  by (cases c)
    (auto intro!: keeps_bindA keeps_retA keeps_payment keeps_credentials keeps_configs keeps_upsert_bot
      keeps_check_integration)

end

interpretation iso: request_relation "iso_tx t" "iso t" t for t
  by unfold_locales (rule keeps_rules)+

lemma insert_route_uncommitted: "keeps uncommitted_tx (insert_route r)"
  by (simp add: keeps_def uncommitted_tx_def insert_route_def)

interpretation uncommitted: setup_relation uncommitted_tx uncommitted t for t
  by unfold_locales (rule keeps_rules insert_route_uncommitted)+

interpretation uncommitted: request_relation uncommitted_tx uncommitted t for t
  by unfold_locales (rule keeps_rules)+

text \<open>A session of the tenant: what it commits, or nothing.\<close>

lemma get_tenant_session_run:
  assumes "idle w"
  shows "get_tenant_session t body w =
    (case body (bind_tenant t (fresh_session w)) of
       (Inl e, v) \<Rightarrow> (Inl e, snd (rollback (snd (rollback v))))
     | (Inr x, v) \<Rightarrow> (case commit v of
           (Inl e, u) \<Rightarrow> (Inl e, snd (rollback (snd (rollback u))))
         | (Inr y, u) \<Rightarrow> (Inr x, snd (rollback u))))"
proof -
  obtain r v where b: "body (bind_tenant t (fresh_session w)) = (r, v)" by fastforce
  show ?thesis
  proof (cases r)
    case (Inl e)
    with assms b show ?thesis
      by (simp add: get_tenant_session_def with_session_run thenA_def bindA_def tryA_def rollback_def)
  next
    case (Inr x)
    obtain q u where "commit v = (q, u)" by fastforce
    with assms b Inr show ?thesis
      by (cases q) (simp_all add: get_tenant_session_def with_session_run thenA_def bindA_def tryA_def rollback_def)
  qed
qed

lemma get_tenant_session_Inl:
  assumes "get_tenant_session t body w = (Inl e, w')" and "idle w" and "keeps uncommitted body"
  shows "db w' = db w"
proof -
  let ?b = "bind_tenant t (fresh_session w)"
  obtain r v where b: "body ?b = (r, v)" by fastforce
  have "committed ?b = db w" by (simp add: committed_def bind_tenant_def fresh_session_def)
  with keepsD [OF assms(3) b] have v: "committed v = db w" by (simp add: uncommitted_def)
  have undone: "db (snd (rollback (snd (rollback u)))) = committed u" for u
    by (simp add: committed_def rollback_def)
  show ?thesis
  proof (cases r)
    case (Inl e')
    with assms(1,2) b v undone show ?thesis by (auto simp: get_tenant_session_run)
  next
    case (Inr x)
    obtain q u where c: "commit v = (q, u)" by fastforce
    with assms(1,2) b Inr obtain e' where "q = Inl e'" "w' = snd (rollback (snd (rollback u)))"
      by (auto simp: get_tenant_session_run split: sum.splits)
    with commit_Inl [of v e' u] c v undone show ?thesis by simp
  qed
qed

lemma get_tenant_session_iso:
  assumes "get_tenant_session t body w = (r, w')" and "idle w" and "postgres w" and "keeps (iso t) body"
  shows "others t (db w') = others t (db w)"
proof -
  let ?b = "bind_tenant t (fresh_session w)"
  let ?m = "tryA (bindA body (\<lambda>x. thenA commit (retA x))) (\<lambda>e. Some (thenA rollback (raiseA e)))"
  have kept: "keeps (iso t) ?m"
    by (intro iso.keeps_tryA iso.keeps_bindA assms(4) iso.keeps_thenA iso.keeps_commit iso.keeps_retA)
      (auto intro: iso.keeps_thenA iso.keeps_rollback iso.keeps_raiseA)
  obtain q v where m: "?m ?b = (q, v)" by fastforce
  have s: "sess t ?b" using assms(3) by (rule fresh_bound_sess)
  have v: "sess t v \<and> others t (db v) = others t (db w)"
    using keepsD [OF kept m] s by (simp add: iso_def)
  have "w' = snd (rollback v)"
    using assms(1,2) m by (simp add: get_tenant_session_def with_session_run thenA_def bindA_def split: prod.splits)
  moreover have "iso t v (snd (rollback v))" using iso.keeps_rollback by (simp add: keeps_def)
  ultimately show ?thesis using v by (simp add: iso_def)
qed

subsection \<open>Properties\<close>

text \<open>A request that does not say who it is for does nothing: outside the public paths, a request without a
  tenant header is answered 401 and one whose header is no UUID 400, before anything is routed, decoded or
  read, and the world stays exactly as it was.\<close>

theorem anonymous_request_does_nothing:
  assumes "req_path rq \<notin> set DEFAULT_PUBLIC_PATHS" and "\<not> py_startswith (req_path rq) WEBHOOK_PATH_PREFIX"
    and "\<And>h t. req_tenant_header rq = Some h \<Longrightarrow> uuid_of_text h \<noteq> Inr t"
  shows "app dep tokens routing rq w =
    (Inr (if req_tenant_header rq \<in> {None, Some []} then 401 else 400), w)"
proof -
  have "admitted (middleware_paths None) [WEBHOOK_PATH_PREFIX] rq =
      Inl (if req_tenant_header rq \<in> {None, Some []} then 401 else 400)"
    using assms by (auto simp: admitted_def middleware_paths_def split: option.splits sum.splits)
  then show ?thesis by (simp add: app_def dispatch_def tryA_def)
qed

text \<open>No guarded endpoint is mounted under a public path.\<close>

lemma guarded_paths:
  assumes "tenant_call dep tokens c = Some h" and "call_path c = Some p"
  shows "p \<notin> set DEFAULT_PUBLIC_PATHS \<and> \<not> py_startswith p WEBHOOK_PATH_PREFIX"
  using assms
  by (cases c) (auto simp: DEFAULT_PUBLIC_PATHS_def WEBHOOK_PATH_PREFIX_def API_PREFIX_def admin_path_def asc_def
      py_startswith_def)

lemma guarded_has_path: "tenant_call dep tokens c = Some h \<Longrightarrow> call_path c \<noteq> None"
  by (cases c) (auto simp: admin_path_def)

text \<open>C21. The structural guarantee of the dependencies holds: when FastAPI gives a request to an endpoint only
  on the path the endpoint is mounted at, then whatever reaches an endpoint that asks for the tenant has
  one, the one its header names, and it is a 128 bit number; the \<open>RuntimeError\<close> of \<open>get_tenant_id\<close> is
  never raised.\<close>

theorem guarded_calls_know_their_tenant:
  assumes "\<And>rq p. call_path (routing rq) = Some p \<Longrightarrow> req_path rq = p"
    and "admitted (middleware_paths None) [WEBHOOK_PATH_PREFIX] rq = Inr state"
    and "tenant_call dep tokens (routing rq) = Some h"
  shows "\<exists>t header. get_tenant_id rq state = Inr t \<and> req_tenant_header rq = Some header \<and>
    uuid_of_text header = Inr t \<and> t < 2 ^ 128"
proof -
  obtain p where "call_path (routing rq) = Some p" using guarded_has_path [OF assms(3)] by blast
  with guarded_paths [OF assms(3) this] assms(1)
  have "req_path rq \<notin> set DEFAULT_PUBLIC_PATHS" "\<not> py_startswith (req_path rq) WEBHOOK_PATH_PREFIX" by auto
  with assms(2) obtain header t where "state = Some t" "req_tenant_header rq = Some header" "uuid_of_text header = Inr t"
    by (auto simp: admitted_def middleware_paths_def split: option.splits sum.splits if_splits)
  with uuid_of_text_bound show ?thesis by (auto simp: get_tenant_id_def)
qed

lemma app_admitted:
  "admitted (middleware_paths None) [WEBHOOK_PATH_PREFIX] rq = Inr state \<Longrightarrow>
   app dep tokens routing rq w = tryA (endpoint dep tokens (routing rq) rq state) (\<lambda>e. Some (retA (exception_status e))) w"
  by (simp add: app_def dispatch_def tryA_def)

text \<open>The ways a guarded request can go.\<close>

lemma app_cases:
  assumes "app dep tokens routing rq w = (Inr n, w')" and "tenant_call dep tokens (routing rq) = Some (ok, body)"
  obtains (refused) "w' = w" "n \<noteq> 200"
  | (failed) t e where "get_tenant_session t (body t) w = (Inl e, w')" "n = exception_status e"
      "admitted (middleware_paths None) [WEBHOOK_PATH_PREFIX] rq = Inr (Some t)"
  | (answered) t where "get_tenant_session t (body t) w = (Inr (), w')" "n = 200" "ok"
      "admitted (middleware_paths None) [WEBHOOK_PATH_PREFIX] rq = Inr (Some t)"
proof (cases "admitted (middleware_paths None) [WEBHOOK_PATH_PREFIX] rq")
  case (Inl m)
  then have "m = 401 \<or> m = 400" by (auto simp: admitted_def split: if_splits option.splits sum.splits)
  with Inl assms(1) show ?thesis by (intro refused) (auto simp: app_def dispatch_def tryA_def)
next
  case (Inr state)
  note run = app_admitted [OF this, of dep tokens routing w]
  show ?thesis
  proof (cases "state = None \<or> \<not> ok")
    case True
    with run assms show ?thesis
      by (intro refused) (auto simp: endpoint_def bindA_def tryA_def get_tenant_id_def split: option.splits)
  next
    case False
    then obtain t where t: "state = Some t" "ok" by auto
    obtain r v where r: "get_tenant_session t (body t) w = (r, v)" by fastforce
    have "app dep tokens routing rq w = (case r of Inl e \<Rightarrow> (Inr (exception_status e), v) | Inr x \<Rightarrow> (Inr 200, v))"
      using run assms(2) t r
      by (auto simp: endpoint_def bindA_def thenA_def tryA_def get_tenant_id_def split: sum.splits)
    with assms(1) r t Inr show ?thesis by (cases r) (auto intro: failed answered)
  qed
qed

text \<open>C13. A request is stored whole or not at all: whenever a guarded endpoint answers anything but 200 (a
  refused header, a payload that breaks a constraint, an exception of a handler, a commit that fails), the
  database is what it was before the request.\<close>

theorem request_is_all_or_nothing:
  assumes "app dep tokens routing rq w = (Inr n, w')" and "tenant_call dep tokens (routing rq) = Some h"
    and "idle w" and "n \<noteq> 200"
  shows "db w' = db w"
proof -
  obtain ok body where h: "h = (ok, body)" by fastforce
  from assms(1) assms(2) [unfolded h] show ?thesis
  proof (cases rule: app_cases)
    case (failed t e)
    from get_tenant_session_Inl [OF failed(1) assms(3)] uncommitted.keeps_tenant_call [OF assms(2) [unfolded h]]
    show ?thesis .
  qed (use assms(4) in simp_all)
qed

text \<open>A request writes in its own tenant only: on PostgreSQL, whatever a guarded endpoint is asked and
  whatever it answers, no row of a tenant other than the one the header names has changed.\<close>

theorem request_stays_with_its_tenant:
  assumes "app dep tokens routing rq w = (Inr n, w')" and "tenant_call dep tokens (routing rq) = Some h"
    and "req_tenant_header rq = Some header" and "uuid_of_text header = Inr t" and "idle w" and "postgres w"
  shows "others t (db w') = others t (db w)"
proof -
  obtain ok body where h: "h = (ok, body)" by fastforce
  have kept: "keeps (iso t) (body t)" by (rule iso.keeps_tenant_call [OF assms(2) [unfolded h]])
  have same: "t' = t" if "admitted (middleware_paths None) [WEBHOOK_PATH_PREFIX] rq = Inr (Some t')" for t'
    using that assms(3,4) by (auto simp: admitted_def split: if_splits)
  from assms(1) assms(2) [unfolded h] show ?thesis
  proof (cases rule: app_cases)
    case (failed t' e)
    with get_tenant_session_iso [OF _ assms(5,6) kept] same show ?thesis by blast
  next
    case (answered t')
    with get_tenant_session_iso [OF _ assms(5,6) kept] same show ?thesis by blast
  qed simp
qed

subsection \<open>Payments\<close>

definition http_error :: "exn \<Rightarrow> bool" where
  "http_error e \<longleftrightarrow> (\<exists>n. e = HTTPException n)"

lemma insert_row_errors: "insert_row tbl r w = (Inl e, w') \<Longrightarrow> \<not> http_error e"
  by (auto simp: insert_row_def http_error_def split: if_splits)

lemma process_payment_errors:
  assumes "process_payment env t q w = (Inl e, w')" and "pending w = []"
  shows "\<not> http_error e"
proof -
  obtain b v where b: "new_scoped env t w = (Inr b, v)"
    by (simp add: new_scoped_def new_id_def utcnow_def bindA_def)
  have "pending v = []" using new_scoped_InrD [OF b] assms(2) by simp
  then have wp: "write_pending (begin_tx v) = (Inr (), begin_tx v)" by (simp add: write_pending_def)
  let ?r = "(new_payment b q)\<lparr>tenant_id := t\<rparr>"
  from assms(1) b obtain u where "add_row payments_table ?r v = (Inl e, u)"
    by (auto simp: process_payment_def save_def Let_def thenA_def bindA_def split: prod.splits sum.splits)
  with wp insert_row_errors [of payments_table ?r "begin_tx v" e] show ?thesis
    by (cases "insert_row payments_table ?r (begin_tx v)")
      (auto simp: add_row_def in_flush_def statement_def thenA_def bindA_def http_error_def split: if_splits sum.splits)
qed

lemma payment_session:
  assumes "get_tenant_session t (bindA (process_payment env t q) (\<lambda>_. retA ())) w = (r, w')" and "idle w"
  shows "(\<forall>e. r = Inl e \<longrightarrow> \<not> http_error e) \<and>
    (r = Inr () \<longrightarrow> idle w' \<and> (\<exists>p. db w' = (db w)\<lparr>payments := payments (db w) @ [p]\<rparr> \<and> tenant_id p = t \<and>
       pay_user_id p = prq_user_id q \<and> tx_hash p = prq_tx_hash q \<and> amount p = prq_amount q \<and>
       currency p = prq_currency q \<and> pay_status p = asc ''PROCESSED''))"
proof -
  let ?b = "bind_tenant t (fresh_session w)"
  have b: "pending ?b = []" "db ?b = db w" "ready t (begin_tx ?b)"
    by (simp_all add: ready_def begin_tx_def apply_postgres_tenant_setting_def bind_tenant_def fresh_session_def)
  obtain z v where pv: "process_payment env t q ?b = (z, v)" by fastforce
  show ?thesis
  proof (cases z)
    case (Inl e)
    with assms pv process_payment_errors [OF pv [unfolded Inl] b(1)] show ?thesis
      by (auto simp: get_tenant_session_run bindA_def)
  next
    case (Inr resp)
    note p = process_payment_InrD [OF pv [unfolded Inr] b(3)]
    then have rdy: "ready t v" using b(3) by auto
    then have "commit v = (Inr (), v\<lparr>in_tx := False, published := None\<rparr>)"
      by (simp add: commit_def ready_flush thenA_def bindA_def) (simp add: ready_def)
    with assms pv Inr have w': "r = Inr ()" "w' = snd (rollback (v\<lparr>in_tx := False, published := None\<rparr>))"
      by (auto simp: get_tenant_session_run bindA_def)
    with p b(2) show ?thesis by (auto simp: idle_def rollback_def)
  qed
qed

text \<open>A payment that was answered 200 went through a session of the header's tenant.\<close>

lemma accepted_session:
  assumes "app dep tokens routing rq w = (Inr 200, w')" and "routing rq = IngestPayment q" and "idle w"
  obtains t header where
    "get_tenant_session t (bindA (process_payment (dep_runtime dep) t q) (\<lambda>_. retA ())) w = (Inr (), w')"
    "req_tenant_header rq = Some header" "uuid_of_text header = Inr t" "payment_request_ok q"
proof -
  have call: "tenant_call dep tokens (routing rq) =
      Some (payment_request_ok q, \<lambda>t. bindA (process_payment (dep_runtime dep) t q) (\<lambda>_. retA ()))"
    using assms(2) by simp
  from assms(1) call show ?thesis
  proof (cases rule: app_cases)
    case (answered t)
    then obtain header where "req_tenant_header rq = Some header" "uuid_of_text header = Inr t"
      by (auto simp: admitted_def split: if_splits option.splits sum.splits)
    with answered that show ?thesis by blast
  next
    case (failed t e)
    from payment_session [OF failed(1) assms(3)] failed(2) have False by (cases e) (auto simp: http_error_def)
    then show ?thesis ..
  qed simp
qed


text \<open>One transaction can be paid in twice: nothing looks at the transaction hash, so two requests with
  the same payload that are both answered 200 leave two rows more with the same hash.\<close>

theorem same_transaction_is_recorded_twice:
  assumes "app dep tokens routing rq w = (Inr 200, w1)" and "app dep tokens routing rq w1 = (Inr 200, w2)"
    and "routing rq = IngestPayment q" and "idle w"
  shows "length (filter (\<lambda>p. tx_hash p = prq_tx_hash q) (payments (db w2))) =
    length (filter (\<lambda>p. tx_hash p = prq_tx_hash q) (payments (db w))) + 2"
proof -
  obtain t header where "get_tenant_session t (bindA (process_payment (dep_runtime dep) t q) (\<lambda>_. retA ())) w = (Inr (), w1)"
    using accepted_session [OF assms(1,3,4)] .
  from payment_session [OF this assms(4)] obtain p where
    p: "db w1 = (db w)\<lparr>payments := payments (db w) @ [p]\<rparr>" "idle w1" "tx_hash p = prq_tx_hash q" by blast
  obtain t' header' where "get_tenant_session t' (bindA (process_payment (dep_runtime dep) t' q) (\<lambda>_. retA ())) w1 = (Inr (), w2)"
    using accepted_session [OF assms(2,3) p(2)] .
  from payment_session [OF this p(2)] p show ?thesis by auto
qed

end
