(* ===== verification/Removals.thy ===== *)
theory Removals
  imports Scheduler
begin

text \<open>
  Who is taken out of a channel, and why: in a pass, a turn of the sweep or a whole sweep, completed or not, every
  ban and unban is of the user of a membership that was due, in a channel of the tenant. The relation \<open>taken\<close>
  follows the removals through every action, exceptions included, as long as users and channels stay the same.
\<close>

subsection \<open>Removals for a reason\<close>

definition removed_for :: "(tg_event \<Rightarrow> bool) \<Rightarrow> world \<Rightarrow> world \<Rightarrow> bool" where
  "removed_for P w w' \<longleftrightarrow> (\<exists>new. removals w' = removals w @ new \<and> (\<forall>ev \<in> set new. P ev))"

lemma removed_for_same: "removals w' = removals w \<Longrightarrow> removed_for P w w'"
  by (simp add: removed_for_def)

lemma removed_for_trans: "removed_for P u v \<Longrightarrow> removed_for P v w \<Longrightarrow> removed_for P u w"
  by (force simp: removed_for_def)

lemma removed_for_mono: "removed_for P w w' \<Longrightarrow> (\<And>ev. P ev \<Longrightarrow> Q ev) \<Longrightarrow> removed_for Q w w'"
  by (auto simp: removed_for_def)

lemma removals_logs: "tg_log w' = tg_log w \<Longrightarrow> removals w' = removals w"
  by (simp add: removals_def)

definition people_of :: "database \<Rightarrow> telegram_user list \<times> telegram_channel list" where
  "people_of d = (telegram_users d, channels d)"

definition taken_tx ::
  "(tg_event \<Rightarrow> bool) \<Rightarrow> telegram_user list \<times> telegram_channel list \<Rightarrow> world \<Rightarrow> world \<Rightarrow> bool" where
  "taken_tx P c w w' \<longleftrightarrow> (in_tx w \<and> people_of (start w) = c \<and> people_of (db w) = c \<longrightarrow>
     in_tx w' \<and> people_of (start w') = c \<and> people_of (db w') = c \<and> removed_for P w w')"

definition taken ::
  "(tg_event \<Rightarrow> bool) \<Rightarrow> telegram_user list \<times> telegram_channel list \<Rightarrow> world \<Rightarrow> world \<Rightarrow> bool" where
  "taken P c w w' \<longleftrightarrow> (people_of (db w) = c \<and> (in_tx w \<longrightarrow> people_of (start w) = c) \<longrightarrow>
     people_of (db w') = c \<and> (in_tx w' \<longrightarrow> people_of (start w') = c) \<and> removed_for P w w')"

lemma removals_simps [simp]:
  "removals (begin_tx w) = removals w" "removals (snd (rollback w)) = removals w"
  "removals (w\<lparr>db := d\<rparr>) = removals w" "removals (w\<lparr>pending := ps\<rparr>) = removals w"
  "removals (w\<lparr>ticks := k\<rparr>) = removals w" "removals (w\<lparr>draws := k\<rparr>) = removals w"
  "removals (w\<lparr>ref_log := us\<rparr>) = removals w" "removals (w\<lparr>failed := b\<rparr>) = removals w"
  "removals (w\<lparr>in_tx := b\<rparr>) = removals w" "removals (w\<lparr>published := p\<rparr>) = removals w"
  "removals (w\<lparr>tg_log := tg_log w @ [ev]\<rparr>) = removals w @ (if removes ev then [ev] else [])"
  by (simp_all add: removals_def rollback_def)

lemma removed_for_simps [simp]:
  "removed_for P w w" "removed_for P (begin_tx w) w' = removed_for P w w'"
  "removed_for P w (w'\<lparr>db := d\<rparr>) = removed_for P w w'" "removed_for P w (w'\<lparr>pending := ps\<rparr>) = removed_for P w w'"
  "removed_for P w (w'\<lparr>failed := b\<rparr>) = removed_for P w w'"
  by (simp_all add: removed_for_def)

lemma taken_rows:
  assumes "\<And>rs d. people_of (tbl_set tbl rs d) = people_of d"
  shows "keeps (taken_tx P c) (insert_row tbl r)" "keeps (taken_tx P c) (put_row tbl r)"
  using assms by (auto simp: keeps_def taken_tx_def insert_row_def put_row_def Let_def removed_for_def)

lemma people_tables:
  "people_of (tbl_set accounts_table as d) = people_of d" "people_of (tbl_set subscriptions_table ss d) = people_of d"
  "people_of (tbl_set memberships_table ms d) = people_of d" "people_of (tbl_set snapshots_table ts d) = people_of d"
  "people_of (tbl_set executions_table xs d) = people_of d"
  by (simp_all add: people_of_def table_defs)

interpretation taken_tx: world_relation "taken_tx P c" for P c
  by unfold_locales (auto simp: taken_tx_def intro: removed_for_trans)

interpretation taken: closing_relation "taken_tx P c" "taken P c" for P c
proof unfold_locales
  show "taken P c u w" if "taken P c u v" "taken P c v w" for u v w
    using that by (auto simp: taken_def intro: removed_for_trans)
  show "taken P c w w'" if "taken_tx P c (begin_tx w) w'" for w w'
    using that by (auto simp: taken_def taken_tx_def start_begin_tx split: if_splits)
  show "taken P c w (w'\<lparr>db := start w', pending := [], failed := True\<rparr>)" if "taken_tx P c (begin_tx w) w'" for w w'
    using that by (auto simp: taken_def taken_tx_def start_begin_tx split: if_splits)
  show "keeps (taken_tx P c) (insert_row snapshots_table r)" for r by (intro taken_rows people_tables)
qed (auto simp: taken_def taken_tx_def rollback_def removed_for_def removals_def)

subsection \<open>What a pass calls\<close>

lemma taken_leaves:
  "keeps (taken P c) (utcnow env)" "keeps (taken P c) (new_scoped env t)" "keeps (taken P c) (validate_user rp u)"
  "keeps (taken P c) (send_message tp chat msg mk)"
  by (auto simp: keeps_def taken_def utcnow_def new_scoped_def new_id_def bindA_def validate_user_def telegram_calls
      Let_def removed_for_def)

lemma taken_touches:
  "keeps (taken P c) (touch_row accounts_table a)" "keeps (taken P c) (touch_row subscriptions_table s)"
  "keeps (taken P c) (touch_row memberships_table m)" "keeps (taken P c) (touch_row executions_table x)"
  by (intro taken.keeps_touch_row taken_rows people_tables)+

lemma taken_find: "keeps (taken P c) (bindA (select_rows tbl p) (\<lambda>rs. liftR (one_or_none rs)))"
  by (intro taken.keeps_bindA taken.keeps_select_rows taken.keeps_liftR)

lemmas taken_rules =
  taken.keeps_bindA taken.keeps_thenA taken.keeps_retA taken.keeps_raiseA taken.keeps_liftR taken.keeps_if
  taken.keeps_case_option taken.keeps_case_list taken.keeps_liftR_bind taken_leaves taken_touches

text \<open>A row that is found was there, when the rows are known.\<close>

lemma taken_found:
  assumes "\<And>d. people_of d = c \<Longrightarrow> tbl_get tbl d = rows"
    and "\<And>found. (\<And>x. found = Some x \<Longrightarrow> x \<in> set rows \<and> p x) \<Longrightarrow> keeps (taken P c) (f found)"
  shows "keeps (taken P c) (bindA (bindA (select_rows tbl p) (\<lambda>rs. liftR (one_or_none rs))) f)"
proof (rule keepsI)
  fix w r w'
  assume run: "bindA (bindA (select_rows tbl p) (\<lambda>rs. liftR (one_or_none rs))) f w = (r, w')"
  show "taken P c w w'"
  proof (cases "people_of (db w) = c \<and> (in_tx w \<longrightarrow> people_of (start w) = c)")
    case True
    show ?thesis
    using run
    proof (rule taken.rel_bindA)
      show "taken P c w v" if "bindA (select_rows tbl p) (\<lambda>rs. liftR (one_or_none rs)) w = (q, v)" for q v
        using taken_find that by (rule keepsD)
      fix found v q u
      assume found: "bindA (select_rows tbl p) (\<lambda>rs. liftR (one_or_none rs)) w = (Inr found, v)" and rest: "f found v = (q, u)"
      have "taken P c w v" using taken_find found by (rule keepsD)
      with True have "people_of (db v) = c" by (simp add: taken_def)
      with assms(1) have rows: "tbl_get tbl (db v) = rows" by simp
      obtain rs where "select_rows tbl p w = (Inr rs, v)" "one_or_none rs = Inr found"
        using found by (auto simp: bindA_eq_Inr)
      moreover from this have "rs = scoped_rows tbl p v"
        by (auto simp: select_rows_def thenA_def bindA_eq_Inr statement_def split: if_splits)
      ultimately have "x \<in> set (scoped_rows tbl p v)" if "found = Some x" for x
        using one_or_none_SomeD [of rs x] that by auto
      then have "x \<in> set rows \<and> p x" if "found = Some x" for x
        using that rows by (simp add: scoped_rows_def)
      from assms(2) [OF this] rest show "taken P c v u" by (rule keepsD)
    qed
  qed (auto simp: taken_def)
qed

subsection \<open>A membership that is due\<close>

text \<open>The member was warned as often as the policy says, and the last warning has run out.\<close>

definition due :: "compliance_policy \<Rightarrow> datetime \<Rightarrow> vip_membership \<Rightarrow> bool" where
  "due policy moment mem \<longleftrightarrow>
     mem_status mem \<in> set MONITORED \<and> max_warnings policy \<le> warnings_sent mem \<and>
     (case last_warning_at mem of None \<Rightarrow> True | Some l \<Rightarrow> next_warning policy l \<le> micros moment)"

lemma revoked_due:
  assumes "decide_compliance (snapshot_of mem) v (tenant_policy policy config) moment = Inr d" and "action d = REVOKE"
  shows "due policy moment mem"
  using decide_punish [OF assms(1)] decide_revoke(1) [OF assms] assms(2)
  by (auto simp: due_def snapshot_of_def tenant_policy_def next_warning_def split: option.split)

subsection \<open>One member, one pass\<close>

text \<open>A removal of the user of a membership that is due, in a channel of the tenant. (A user who is not on
  record is removed as number 0, which is nobody's.)\<close>

fun names :: "int \<Rightarrow> int \<Rightarrow> tg_event \<Rightarrow> bool" where
  "names c u (BanChatMember c' u' r) \<longleftrightarrow> c' = c \<and> u' = u"
| "names c u (UnbanChatMember c' u' r) \<longleftrightarrow> c' = c \<and> u' = u"
| "names c u ev = False"

definition rightly_out ::
  "uuid \<Rightarrow> vip_membership \<Rightarrow> telegram_user list \<times> telegram_channel list \<Rightarrow> tg_event \<Rightarrow> bool" where
  "rightly_out t mem c ev \<longleftrightarrow>
     (\<exists>ch \<in> set (snd c). tenant_id ch = t \<and>
       (names (chat_id ch) 0 ev \<or>
        (\<exists>user \<in> set (fst c). tenant_id user = t \<and> row_id user = mem_user_id mem \<and>
           names (chat_id ch) (telegram_user_id user) ev)))"

definition out_for :: "compliance_policy \<Rightarrow> datetime \<Rightarrow> uuid \<Rightarrow> database \<Rightarrow> tg_event \<Rightarrow> bool" where
  "out_for policy moment t d ev \<longleftrightarrow>
     (\<exists>mem \<in> set (vip_memberships d). tenant_id mem = t \<and> due policy moment mem \<and> rightly_out t mem (people_of d) ev)"

lemma taken_remove:
  assumes "\<And>ch ev. channel = Some ch \<Longrightarrow> names (chat_id ch) u ev \<Longrightarrow> P ev"
  shows "keeps (taken P c) (remove_from_channel tp channel u)"
proof -
  have "keeps (taken P c) (ban_chat_member tp (chat_id ch) u)" "keeps (taken P c) (unban_chat_member tp (chat_id ch) u)"
    if "channel = Some ch" for ch
    using assms [OF that] by (auto simp: keeps_def taken_def telegram_calls Let_def removed_for_def)
  then show ?thesis unfolding remove_from_channel_def by (intro taken_rules)
qed

lemma taken_notify: "keeps (taken P c) (notify tp chat msg)"
  unfolding notify_def by (intro taken_rules)

lemma taken_revoke:
  assumes "\<And>ev. rightly_out t mem c ev \<Longrightarrow> P ev" and "action d = REVOKE"
    and "\<And>x. user = Some x \<Longrightarrow> x \<in> set (fst c) \<and> tenant_id x = t \<and> row_id x = mem_user_id mem"
  shows "keeps (taken P c) (carry_out tp t mem m d moment rep policy (map_option telegram_user_id user))"
proof -
  let ?u = "case map_option telegram_user_id user of None \<Rightarrow> 0 | Some c \<Rightarrow> c"
  have out: "keeps (taken P c) (remove_from_channel tp channel ?u)"
    if "\<And>ch. channel = Some ch \<Longrightarrow> ch \<in> set (snd c) \<and> tenant_id ch = t \<and> ch_market ch = m \<and> ch_is_active ch" for channel
    using that assms(1,3) by (intro taken_remove) (auto simp: rightly_out_def split: option.splits)
  have ex: "keeps (taken P c) (expire_subscription moment sub)" for sub
    unfolding expire_subscription_def by (intro taken_rules)
  have act: "keeps (taken P c) (get_active_for_user t i m)" for i
    unfolding get_active_for_user_def by (intro taken_rules taken.keeps_select_rows)
  show ?thesis
    unfolding carry_out_def assms(2) compliance_action.case get_for_market_def
  proof (rule taken_found [where rows = "snd c"])
    show "tbl_get channels_table d = snd c" if "people_of d = c" for d
      using that by (auto simp: channels_table_def people_of_def)
  qed (intro taken_rules taken_notify out ex act)
qed

lemma taken_apply_action:
  assumes "\<And>ev. action d = REVOKE \<Longrightarrow> rightly_out t mem c ev \<Longrightarrow> P ev"
  shows "keeps (taken P c) (apply_action tp t mem m d moment rep policy)"
proof -
  have "keeps (taken P c) (carry_out tp t mem m d moment rep policy (map_option telegram_user_id user))"
    if "\<And>x. user = Some x \<Longrightarrow> x \<in> set (fst c) \<and> tenant_id x = t \<and> row_id x = mem_user_id mem" for user
  proof (cases "action d = REVOKE")
    case True
    with that assms show ?thesis by (intro taken_revoke) blast+
  next
    case False
    then show ?thesis
      unfolding carry_out_def by (cases "action d") (auto intro!: taken_rules taken_notify)
  qed
  then have acting: "keeps (taken P c) (bindA (get_by_id users_table t (mem_user_id mem))
      (\<lambda>user. carry_out tp t mem m d moment rep policy (map_option telegram_user_id user)))"
    unfolding get_by_id_def
    by (intro taken_found [where rows = "fst c"]) (auto simp: users_table_def people_of_def)
  show ?thesis unfolding apply_action_def by (intro taken.keeps_if taken.keeps_retA acting)
qed

lemma taken_process_member:
  assumes "\<And>ev. due policy moment mem \<Longrightarrow> rightly_out t mem c ev \<Longrightarrow> P ev"
  shows "keeps (taken P c) (process_member env rp tp policy period t ps moment mem rep)"
proof -
  have "keeps (taken P c) (record_snapshot env t account ps period check v)" for account check v
    unfolding record_snapshot_def by (intro taken_rules taken.keeps_add_snapshot)
  moreover have "keeps (taken P c) (try_validate rp u)" for u
    unfolding try_validate_def by (intro taken.keeps_tryA taken_rules) (auto intro: taken_rules split: if_splits)
  ultimately have "keeps (taken P c) (check_member env rp tp policy period t mem ps moment r account config)"
    for r account config
    unfolding check_member_def
    by (auto intro!: taken_rules taken_apply_action assms dest: revoked_due)
  then show ?thesis
    unfolding process_member_def Let_def list_for_user_def get_for_def
    by (intro taken_rules taken_find taken.keeps_select_rows)
qed

lemma taken_run_members:
  assumes "run_members env rp tp policy period t ps moment w = (r, w')" and "ready t w"
  shows "taken (out_for policy moment t (db w)) (people_of (db w)) w w'"
proof -
  let ?ms = "filter (\<lambda>r. tenant_id r = t \<and> mem_status r \<in> set [MS_INVITED, MS_ACTIVE, MS_SUSPENDED]) (vip_memberships (db w))"
  have "keeps (taken (out_for policy moment t (db w)) (people_of (db w)))
      (foldA (process_member env rp tp policy period t ps moment) ?ms (new_report True ps))"
    by (intro taken.keeps_foldA taken_process_member) (auto simp: out_for_def)
  moreover have "foldA (process_member env rp tp policy period t ps moment) ?ms (new_report True ps) w = (r, w')"
    using assms(1) list_by_status_ready [OF assms(2), of "[MS_INVITED, MS_ACTIVE, MS_SUSPENDED]"]
    by (simp add: run_members_def bindA_Inr)
  ultimately show ?thesis by (rule keepsD)
qed

lemma claim_SomeD:
  assumes "claim_period env t jn ps w = (Inr (Some x), v)" and "ready t w"
  shows "ready t v \<and> people_of (db v) = people_of (db w) \<and>
    vip_memberships (db v) = vip_memberships (db w)"
proof -
  let ?v = "w\<lparr>draws := Suc (draws w), ticks := Suc (Suc (ticks w))\<rparr>"
  have v: "ready t ?v" using assms(2) by simp
  then have "flush ?v = (Inr (), ?v)" "begin_tx ?v = ?v" "\<not> failed ?v"
    by (simp_all add: flush_def ready_begin_tx) (simp_all add: ready_def)
  then obtain y where "insert_row executions_table y ?v = (Inr (), v)"
    using assms(1)
    by (auto simp: claim_period_def bindA_def utcnow_def new_scoped_def new_id_def thenA_def Let_def statement_def tryA_def
        split: prod.splits sum.splits if_splits option.splits)
  with v show ?thesis by (auto dest!: insert_row_InrD simp: executions_table_def people_of_def)
qed

lemma taken_finish: "keeps (taken P c) (finish env x err)"
  unfolding finish_def by (intro taken_rules)

lemma taken_claim: "keeps (taken P c) (claim_period env t jn ps)"
  unfolding claim_period_def Let_def
  by (intro taken_rules taken.keeps_flush taken.keeps_statement taken_tx.keeps_tryA taken_tx.keeps_bindA
      taken_tx.keeps_retA taken_rows people_tables) (auto intro: taken_tx.keeps_retA split: if_splits)

lemma taken_run_claimed:
  assumes "run_claimed env rp tp policy period t ps moment x w = (r, w')" and "ready t w"
  shows "taken (out_for policy moment t (db w)) (people_of (db w)) w w'"
  using assms(1) unfolding run_claimed_def
proof (rule taken.rel_bindA)
  let ?R = "taken (out_for policy moment t (db w)) (people_of (db w))"
  show "?R w v" if "tryA (run_members env rp tp policy period t ps moment)
       (\<lambda>e. Some (bindA (finish env x (Some (exn_text env e))) (\<lambda>x'.
                 thenA (touch_row executions_table x') (raiseA e)))) w = (q, v)" for q v
    using that
    by (rule taken.rel_tryA) (auto intro: taken_run_members assms(2) taken_rules taken_finish)
  have "keeps ?R (bindA (finish env (counted rep x) None) (\<lambda>x'. thenA (touch_row executions_table x') (retA rep)))" for rep
    by (intro taken_rules taken_finish)
  then show "?R v u"
    if "bindA (finish env (counted rep x) None) (\<lambda>x'. thenA (touch_row executions_table x') (retA rep)) v = (q, u)" for rep v q u
    using that by (rule keepsD)
qed

lemma taken_claiming:
  assumes "bindA (claim_period env t JOB_NAME ps) (\<lambda>execution.
       case execution of None \<Rightarrow> retA (new_report False ps)
       | Some x \<Rightarrow> run_claimed env rp tp policy period t ps moment x) w = (r, w')" and "ready t w"
  shows "taken (out_for policy moment t (db w)) (people_of (db w)) w w'"
  using assms(1)
proof (rule taken.rel_bindA)
  let ?R = "taken (out_for policy moment t (db w)) (people_of (db w))"
  show "?R w v" if "claim_period env t JOB_NAME ps w = (q, v)" for q v
    using taken_claim that by (rule keepsD)
  fix execution v q u
  assume c: "claim_period env t JOB_NAME ps w = (Inr execution, v)"
    and r: "(case execution of None \<Rightarrow> retA (new_report False ps)
       | Some x \<Rightarrow> run_claimed env rp tp policy period t ps moment x) v = (q, u)"
  show "?R v u"
  proof (cases execution)
    case (Some x)
    from claim_SomeD [OF c [unfolded Some] assms(2)] have v: "ready t v" "people_of (db v) = people_of (db w)"
      "vip_memberships (db v) = vip_memberships (db w)" by auto
    then have same: "out_for policy moment t (db v) = out_for policy moment t (db w)" by (simp add: out_for_def fun_eq_iff)
    from r Some have "run_claimed env rp tp policy period t ps moment x v = (q, u)" by simp
    from taken_run_claimed [OF this v(1)] show ?thesis by (simp only: same v(2))
  qed (use r in \<open>simp add: taken.rel_refl\<close>)
qed

lemma taken_run:
  assumes "run env rp tp policy period t now w = (r, w')" and "ready t w"
  shows "taken (out_for policy (moment_of env w now) t (db w)) (people_of (db w)) w w'"
  using assms(1) unfolding run_def
proof (rule taken.rel_bindA)
  let ?R = "taken (out_for policy (moment_of env w now) t (db w)) (people_of (db w))"
  have "keeps ?R (now_or_utcnow env now)" by (cases now) (simp_all add: now_or_utcnow_def taken_leaves taken.keeps_retA)
  then show "?R w v" if "now_or_utcnow env now w = (q, v)" for q v
    using that by (rule keepsD)
  fix moment v q u
  assume n: "now_or_utcnow env now w = (Inr moment, v)"
    and rest: "bindA (liftR (period_start_for moment period)) (\<lambda>ps. bindA (claim_period env t JOB_NAME ps) (\<lambda>execution.
     case execution of None \<Rightarrow> retA (new_report False ps)
     | Some x \<Rightarrow> run_claimed env rp tp policy period t ps moment x)) v = (q, u)"
  from now_or_utcnow_InrD [OF n] assms(2) have v: "moment = moment_of env w now" "ready t v" "db v = db w" by auto
  show "?R v u"
  proof (cases "period_start_for moment period")
    case (Inr ps)
    with rest have "bindA (claim_period env t JOB_NAME ps) (\<lambda>execution.
       case execution of None \<Rightarrow> retA (new_report False ps)
       | Some x \<Rightarrow> run_claimed env rp tp policy period t ps moment x) v = (q, u)" by (simp add: bindA_def)
    from taken_claiming [OF this v(2)] v(1,3) show ?thesis by simp
  qed (use rest in \<open>simp add: bindA_def taken.rel_refl\<close>)
qed

subsection \<open>Turns\<close>

lemma taken_pass:
  assumes "tenant_providers dep t BITUNIX (bind_tenant t (fresh_session w)) = (Inr (Some (rp, tp)), v)"
    and "pass_and_commit (dep_runtime dep) rp tp period t v = (q, v')"
  shows "removed_for (out_for default_policy (Aware (clock (dep_runtime dep) (ticks w))) t (db w)) w v'"
proof -
  note v = providers_ready [OF assms(1)]
  let ?P = "out_for default_policy (moment_of (dep_runtime dep) v None) t (db v)"
  from assms(2) have "taken ?P (people_of (db v)) v v'"
    unfolding pass_and_commit_def
  proof (rule taken.rel_bindA)
    show "taken ?P (people_of (db v)) v u" if "run (dep_runtime dep) rp tp default_policy period t None v = (z, u)" for z u
      using that v(1) by (rule taken_run)
    show "taken ?P (people_of (db v)) u u'" if "thenA commit (retA rep) u = (z, u')" for rep u z u'
    proof -
      have "keeps (taken ?P (people_of (db v))) (thenA commit (retA rep))"
        by (intro taken.keeps_thenA taken.keeps_commit taken.keeps_retA)
      then show ?thesis using that by (rule keepsD)
    qed
  qed
  with v(2,3) have "removed_for ?P v v'" by (simp add: taken_def)
  with v(2,7) removals_logs [OF v(4)] show ?thesis by (simp add: moment_of_def removed_for_def)
qed

text \<open>Whatever becomes of a tenant's turn, nobody is taken out by it but users of memberships of the tenant that
  were due when the turn began.\<close>

lemma taken_turn:
  assumes "sweep_tenant dep BITUNIX period t w = (r, w')" and "idle w"
  shows "removed_for (out_for default_policy (Aware (clock (dep_runtime dep) (ticks w))) t (db w)) w w'"
  using assms
proof (cases rule: sweep_tenant_cases)
  case (failed rp tp v e v')
  from taken_pass [OF failed(2,3)] removals_logs [OF failed(5)] show ?thesis by (simp add: removed_for_def)
next
  case (passed rp tp v rep v')
  from taken_pass [OF passed(2,3)] removals_logs [OF passed(5)] show ?thesis by (simp add: removed_for_def)
qed (auto intro: removed_for_same removals_logs)

end
