(* ===== verification/Turns.thy ===== *)
theory Turns
  imports Removals
begin

text \<open>
  What a turn of the sweep keeps, for any relation that sessions and passes keep, and why the sweep always comes to
  its end when the stored secrets can be opened.
\<close>

subsection \<open>What whole sessions keep\<close>

locale session_relation = closing_relation S R for S R +
  assumes bind_kept: "R w (w\<lparr>bound := b\<rparr>)"
begin

lemma keeps_with_session [keeps_rules]:
  assumes "keeps R m" shows "keeps R (with_session m)"
proof (rule keepsI)
  fix w r w' assume run: "with_session m w = (r, w')"
  let ?b = "(snd (rollback w))\<lparr>bound := None\<rparr>"
  obtain q v where m: "m ?b = (q, v)" by fastforce
  have "R w ?b" using outer_rollback bind_kept by (rule rel_trans)
  moreover have "R ?b v" using assms m by (rule keepsD)
  ultimately have "R w v" by (rule rel_trans)
  moreover have "R v w'" using run m outer_rollback [of v] by (auto simp: with_session_def)
  ultimately show "R w w'" by (rule rel_trans)
qed

lemma keeps_bind_tenant [keeps_rules]: "keeps R (writeA (bind_tenant t))"
  by (simp add: keeps_def bind_tenant_def bind_kept)

end

text \<open>Relations kept by the turns of the sweep.\<close>

locale turns_relation = session_relation S R + sweep_relation S R for S R
begin

lemma keeps_sweep_tenant: "keeps R (sweep_tenant dep pt period t)"
  unfolding sweep_tenant_def pass_and_commit_def
  by (intro keeps_with_session keeps_thenA keeps_bind_tenant keeps_bindA keeps_tenant_providers)
    (auto intro!: keeps_case_option keeps_retA keeps_tryA keeps_bindA keeps_run keeps_thenA keeps_commit keeps_rollback)

lemma keeps_active_tenant_ids: "keeps R active_tenant_ids"
  unfolding active_tenant_ids_def by (intro keeps_with_session keeps_statement inner.keeps_readA)

lemma keeps_sweep: "keeps R (run_compliance_sweep dep pt period)"
  unfolding run_compliance_sweep_def
  by (intro keeps_bindA keeps_active_tenant_ids keeps_foldA keeps_sweep_tenant)

end

interpretation ukeys: turns_relation ukeys_tx ukeys
  by unfold_locales (auto simp: ukeys_def keyed_def)

interpretation grows: turns_relation grows grows
  by unfold_locales (auto simp: grows_def)

lemma keeps_snd: "keeps R m \<Longrightarrow> R w (snd (m w))"
  by (simp add: keeps_def)

lemma sweep_tenant_state:
  "idle (snd (sweep_tenant dep pt period t w))" "postgres (snd (sweep_tenant dep pt period t w)) = postgres w"
  using with_session_idle keeps_snd [OF grows.keeps_sweep_tenant, of w dep pt period t]
  by (simp_all add: sweep_tenant_def grows_def)

lemma sweep_tenant_unique:
  "idle w \<Longrightarrow> unique_keys (db w) \<Longrightarrow> unique_keys (db (snd (sweep_tenant dep pt period t w)))"
  using keeps_snd [OF ukeys.keeps_sweep_tenant, of w dep pt period t] by (auto simp: ukeys_def keyed_def idle_def)

subsection \<open>The sweep leaves the configuration alone\<close>

text \<open>What the provider factory reads, and the registry of tenants.\<close>

definition setup_of :: "database \<Rightarrow> tenant list \<times> provider_credential list \<times> telegram_bot_config list" where
  "setup_of d = (tenants d, credentials d, bot_configs d)"

definition setup_tx :: "world \<Rightarrow> world \<Rightarrow> bool" where
  "setup_tx w w' \<longleftrightarrow>
     (in_tx w \<longrightarrow> in_tx w' \<and> setup_of (start w') = setup_of (start w) \<and> setup_of (db w') = setup_of (db w))"

definition setup_kept :: "world \<Rightarrow> world \<Rightarrow> bool" where
  "setup_kept w w' \<longleftrightarrow> ((in_tx w \<longrightarrow> setup_of (start w) = setup_of (db w)) \<longrightarrow>
     (in_tx w' \<longrightarrow> setup_of (start w') = setup_of (db w')) \<and> setup_of (db w') = setup_of (db w))"

lemma setup_rows:
  assumes "\<And>rs d. setup_of (tbl_set tbl rs d) = setup_of d"
  shows "keeps setup_tx (insert_row tbl r)" "keeps setup_tx (put_row tbl r)"
  using assms by (simp_all add: keeps_def setup_tx_def insert_row_def put_row_def Let_def)

lemma setup_tables:
  "setup_of (tbl_set users_table us d) = setup_of d" "setup_of (tbl_set accounts_table as d) = setup_of d"
  "setup_of (tbl_set subscriptions_table ss d) = setup_of d" "setup_of (tbl_set memberships_table ms d) = setup_of d"
  "setup_of (tbl_set snapshots_table ts d) = setup_of d" "setup_of (tbl_set executions_table xs d) = setup_of d"
  by (simp_all add: setup_of_def table_defs)

interpretation setup_tx: world_relation setup_tx
  by unfold_locales (auto simp: setup_tx_def)

interpretation settled: turns_relation setup_tx setup_kept
proof unfold_locales
  show "setup_kept u w" if "setup_kept u v" "setup_kept v w" for u v w
    using that by (auto simp: setup_kept_def)
  show "setup_kept w w'" if "setup_tx (begin_tx w) w'" for w w'
    using that by (auto simp: setup_kept_def setup_tx_def start_begin_tx split: if_splits)
  show "setup_kept w (w'\<lparr>db := start w', pending := [], failed := True\<rparr>)" if "setup_tx (begin_tx w) w'" for w w'
    using that by (auto simp: setup_kept_def setup_tx_def start_begin_tx split: if_splits)
qed (auto simp: setup_kept_def setup_tx_def rollback_def intro: setup_rows setup_tables)

subsection \<open>The sweep comes to its end\<close>

text \<open>Every stored secret can be opened.\<close>

definition secrets_open :: "deployment \<Rightarrow> database \<Rightarrow> bool" where
  "secrets_open dep d \<longleftrightarrow>
     (\<forall>c \<in> set (credentials d). \<not> is_err (decrypt_secret (dep_cipher dep) (encrypted_secret c)))"

lemma at_most_one:
  assumes "table_unique tbl rs" and "\<And>x y. p x \<Longrightarrow> p y \<Longrightarrow> tbl_clash tbl x y"
  shows "\<exists>found. one_or_none (filter p rs) = Inr found"
proof -
  have u: "table_unique tbl (filter p rs)" and "\<forall>x \<in> set (filter p rs). p x"
    using table_unique_filter [OF assms(1)] by auto
  then show ?thesis
    using assms(2) by (cases "filter p rs" rule: one_or_none.cases) (auto simp: table_unique_def)
qed

lemma named_once:
  assumes "unique_keys d"
  shows "\<exists>found. one_or_none (filter (\<lambda>c. tenant_id c = t \<and> cred_provider_type c = pt \<and> credential_name c = nm)
    (credentials d)) = Inr found"
  by (rule at_most_one [where tbl = credentials_table])
    (use assms in \<open>auto simp: unique_keys_def credentials_table_def\<close>)

lemma bot_config_once:
  assumes "unique_keys d"
  shows "\<exists>found. one_or_none (filter (\<lambda>c. tenant_id c = t) (bot_configs d)) = Inr found"
  by (rule at_most_one [where tbl = bot_configs_table])
    (use assms in \<open>auto simp: unique_keys_def bot_configs_table_def\<close>)

lemma secret_open:
  assumes "unique_keys (db w)" and "secrets_open dep (db w)"
    and "v = bind_tenant t (fresh_session w) \<or> v = begin_tx (bind_tenant t (fresh_session w))"
  shows "(\<exists>p. secret dep t pt nm v = (Inr p, begin_tx (bind_tenant t (fresh_session w)))) \<or>
    (\<exists>e. secret dep t pt nm v = (Inl e, begin_tx (bind_tenant t (fresh_session w))) \<and> is_missing e)"
proof -
  obtain found where f: "one_or_none (filter (\<lambda>c. tenant_id c = t \<and> cred_provider_type c = pt \<and> credential_name c = nm)
    (credentials (db w))) = Inr found"
    using named_once [OF assms(1)] by blast
  then have q: "get_named t pt nm v = (Inr found, begin_tx (bind_tenant t (fresh_session w)))"
    using named_bound [OF assms(3)] by simp
  show ?thesis
  proof (cases found)
    case (Some c)
    then have "c \<in> set (credentials (db w))" using one_or_none_filterD [OF f [unfolded Some]] by simp
    with assms(2) obtain p where "decrypt_secret (dep_cipher dep) (encrypted_secret c) = Inr p"
      by (cases "decrypt_secret (dep_cipher dep) (encrypted_secret c)") (auto simp: secrets_open_def)
    with q Some show ?thesis by (simp add: secret_def bindA_def)
  qed (use q in \<open>simp add: secret_def bindA_def\<close>)
qed

lemma providers_open:
  assumes "unique_keys (db w)" and "secrets_open dep (db w)"
  shows "\<not> is_err (fst (tenant_providers dep t BITUNIX (bind_tenant t (fresh_session w))))"
proof -
  let ?b = "bind_tenant t (fresh_session w)"
  obtain cfg where cfg: "get_bot_config t (begin_tx ?b) = (Inr cfg, begin_tx ?b)"
    using bot_config_once [OF assms(1)] bot_config_bound by metis
  note s = secret_open [OF assms]
  have key: "(\<exists>p. secret dep t BITUNIX BITUNIX_API_KEY ?b = (Inr p, begin_tx ?b)) \<or>
      (\<exists>e. secret dep t BITUNIX BITUNIX_API_KEY ?b = (Inl e, begin_tx ?b) \<and> is_missing e)"
    and later: "(\<exists>p. secret dep t pt nm (begin_tx ?b) = (Inr p, begin_tx ?b)) \<or>
      (\<exists>e. secret dep t pt nm (begin_tx ?b) = (Inl e, begin_tx ?b) \<and> is_missing e)" for pt nm
    by (rule s; simp)+
  show ?thesis
    using key later [of BITUNIX BITUNIX_API_SECRET] later [of TELEGRAM TELEGRAM_BOT_TOKEN] cfg
    by (cases cfg) (auto simp: tenant_providers_def factory_referral_def factory_telegram_def bindA_def tryA_def)
qed

lemma turn_completes:
  assumes "idle w" and "unique_keys (db w)" and "secrets_open dep (db w)"
  shows "fst (sweep_tenant dep BITUNIX period t w) = Inr ()"
proof -
  obtain r w' where run: "sweep_tenant dep BITUNIX period t w = (r, w')" by fastforce
  from run assms(1) show ?thesis
    by (cases rule: sweep_tenant_cases) (use providers_open [OF assms(2,3), of t] run in auto)
qed

lemma secrets_stay:
  assumes "idle w" and "secrets_open dep (db w)"
  shows "secrets_open dep (db (snd (sweep_tenant dep pt period t w)))"
  using keeps_snd [OF settled.keeps_sweep_tenant, of w dep pt period t] assms
  by (auto simp: setup_kept_def idle_def setup_of_def secrets_open_def)

lemma turns_complete:
  assumes "idle w" and "unique_keys (db w)" and "secrets_open dep (db w)"
  shows "foldA (\<lambda>t _. sweep_tenant dep BITUNIX period t) ts () w =
    (Inr (), fold (\<lambda>t v. snd (sweep_tenant dep BITUNIX period t v)) ts w)"
  using assms
proof (induction ts arbitrary: w)
  case (Cons t ts)
  let ?v = "snd (sweep_tenant dep BITUNIX period t w)"
  have "sweep_tenant dep BITUNIX period t w = (Inr (), ?v)"
    using turn_completes [OF Cons.prems] by (metis prod.collapse)
  moreover have "foldA (\<lambda>t _. sweep_tenant dep BITUNIX period t) ts () ?v =
      (Inr (), fold (\<lambda>t v. snd (sweep_tenant dep BITUNIX period t v)) ts ?v)"
    by (intro Cons.IH sweep_tenant_state sweep_tenant_unique secrets_stay Cons.prems)
  ultimately show ?case by (simp add: bindA_Inr)
qed simp

text \<open>C28. The sweep comes to its end: when the keys hold and every stored secret can be opened, the sweep returns,
  whatever the exchange and Telegram answer and whatever passes fail or raise on the way, and what it did is
  one turn of every active tenant, in the order of the registry.\<close>

theorem sweep_completes:
  assumes "idle w" and "unique_keys (db w)" and "secrets_open dep (db w)"
  shows "run_compliance_sweep dep BITUNIX period w =
    (Inr (), fold (\<lambda>t v. snd (sweep_tenant dep BITUNIX period t v))
       (map row_id (filter tenant_is_active (tenants (db w)))) (snd (active_tenant_ids w)))"
proof -
  obtain v where v: "active_tenant_ids w = (Inr (map row_id (filter tenant_is_active (tenants (db w)))), v)"
    "idle v" "db v = db w"
    using active_tenant_ids_run [OF assms(1)] by blast
  with turns_complete [OF v(2), of dep period] assms show ?thesis
    by (simp add: run_compliance_sweep_def bindA_Inr)
qed

end
