(* ===== verification/Service.thy ===== *)
theory Service
  imports Web Turns
begin

text \<open>
  The running service: one process with one deployment, in which the requests of \<open>app/main.py\<close> and the sweeps
  of \<open>app/jobs/scheduler.py\<close> come one after another, in any order and number. What holds of every component is
  carried here to every history of the whole.
\<close>

subsection \<open>What whole sessions keep\<close>

context session_relation
begin

lemma keeps_get_tenant_session: "keeps R body \<Longrightarrow> keeps R (get_tenant_session t body)"
  unfolding get_tenant_session_def
  by (intro keeps_with_session keeps_thenA keeps_bind_tenant keeps_tryA keeps_bindA keeps_commit keeps_retA)
    (auto intro: keeps_thenA keeps_rollback keeps_raiseA)

end

text \<open>Relations kept by every request, whoever it is for.\<close>

locale edge_relation = session_relation S R + messaging_relation S R for S R +
  assumes every_tenant: "request_relation S R t"
begin

lemma keeps_answer_update: "keeps R (answer_update env rp tp t upd)"
  unfolding answer_update_def run_flow_def deliver_def
  by (intro keeps_bindA keeps_thenA keeps_tryA keeps_handle keeps_commit keeps_retA keeps_case_option keeps_foldA
      keeps_talk) (auto intro: keeps_rollback keeps_thenA keeps_retA split: if_splits)

lemma keeps_receive_update: "keeps R (receive_update dep tok body)"
  unfolding receive_update_def route_tenant_def
  by (intro keeps_bindA keeps_liftR keeps_with_session keeps_statement inner.keeps_readA keeps_case_option keeps_retA
      keeps_if keeps_thenA keeps_bind_tenant keeps_tenant_providers)
    (auto intro: keeps_retA keeps_answer_update split: prod.split)

lemma keeps_endpoint: "keeps R (endpoint dep tokens c rq state)"
proof (cases "tenant_call dep tokens c")
  case None
  then show ?thesis by (cases c) (simp_all add: endpoint_def keeps_receive_update keeps_retA)
next
  case (Some h)
  obtain ok body where h: "h = (ok, body)" by fastforce
  have "keeps R (body t)" for t by (rule request_relation.keeps_tenant_call [OF every_tenant Some [unfolded h]])
  with Some h show ?thesis
    by (auto simp: endpoint_def intro!: keeps_bindA keeps_liftR keeps_thenA keeps_get_tenant_session keeps_retA)
qed

theorem keeps_app: "keeps R (app dep tokens routing rq)"
  unfolding app_def dispatch_def
  by (intro keeps_tryA keeps_case_sum keeps_retA keeps_endpoint) (auto intro: keeps_retA)

end

text \<open>Relations kept by everything the service does.\<close>

locale service_relation = edge_relation S R + turns_relation S R for S R

interpretation ukeys: request_relation ukeys_tx ukeys t for t
  by unfold_locales (rule keeps_rules)+

interpretation grows: request_relation grows grows t for t
  by unfold_locales (rule keeps_rules)+

interpretation spares: request_relation spares spares t for t
  by unfold_locales (rule keeps_rules)+

interpretation ukeys: service_relation ukeys_tx ukeys
  by unfold_locales (auto simp: ukeys_def keyed_def)

interpretation grows: service_relation grows grows
  by unfold_locales (auto simp: grows_def)

interpretation spares: edge_relation spares spares
  by unfold_locales (auto simp: spares_def removals_def)

text \<open>Rows of the routing table are never changed and never deleted.\<close>

definition routed :: "world \<Rightarrow> bool" where
  "routed w \<longleftrightarrow> (in_tx w \<longrightarrow> set (routes (start w)) \<subseteq> set (routes (db w)))"

definition paths_tx :: "world \<Rightarrow> world \<Rightarrow> bool" where
  "paths_tx w w' \<longleftrightarrow> (in_tx w \<longrightarrow> in_tx w' \<and> start w' = start w \<and> set (routes (db w)) \<subseteq> set (routes (db w')))"

definition paths :: "world \<Rightarrow> world \<Rightarrow> bool" where
  "paths w w' \<longleftrightarrow> (routed w \<longrightarrow> routed w' \<and> set (routes (committed w)) \<subseteq> set (routes (committed w')))"

context scoped_table
begin

lemma paths_rows [keeps_rules]: "keeps paths_tx (insert_row tbl r)" "keeps paths_tx (put_row tbl r)"
  by (auto simp: keeps_def paths_tx_def insert_row_def put_row_def Let_def routes_set)

end

lemma insert_route_paths: "keeps paths_tx (insert_route r)"
  by (auto simp: keeps_def paths_tx_def insert_route_def)

interpretation paths_tx: world_relation paths_tx
  by unfold_locales (auto simp: paths_tx_def)

lemma start_begun: "start (begin_tx w) = committed w"
  by (simp add: begin_tx_def committed_def apply_postgres_tenant_setting_def)

interpretation paths: closing_relation paths_tx paths
proof unfold_locales
  show "paths u w" if "paths u v" "paths v w" for u v w using that by (auto simp: paths_def)
  show "paths w w'" if "paths_tx (begin_tx w) w'" for w w'
    using that start_begun [of w] by (auto simp: paths_def paths_tx_def routed_def committed_def split: if_splits)
  show "paths w (w'\<lparr>db := start w', pending := [], failed := True\<rparr>)" if "paths_tx (begin_tx w) w'" for w w'
    using that start_begun [of w] by (auto simp: paths_def paths_tx_def routed_def committed_def split: if_splits)
  show "keeps paths_tx (insert_row snapshots_table r)" for r by (rule snaps.paths_rows)
qed (auto simp: paths_def paths_tx_def routed_def committed_def rollback_def)

interpretation paths: sweep_relation paths_tx paths
  by unfold_locales (auto simp: paths_def routed_def committed_def intro: keeps_rules)

interpretation paths: setup_relation paths_tx paths t for t
  by unfold_locales (rule keeps_rules insert_route_paths)+

interpretation paths: request_relation paths_tx paths t for t
  by unfold_locales (rule keeps_rules)+

interpretation paths: service_relation paths_tx paths
  by unfold_locales (auto simp: paths_def routed_def committed_def)

subsection \<open>No transaction is left open\<close>

definition idling :: "world \<Rightarrow> world \<Rightarrow> bool" where
  "idling w w' \<longleftrightarrow> (idle w \<longrightarrow> idle w')"

interpretation idling: world_relation idling
  by unfold_locales (auto simp: idling_def)

lemma idling_session: "keeps idling (with_session m)"
  using with_session_idle [of m] by (simp add: keeps_def idling_def)

lemma idling_app: "keeps idling (app dep tokens routing rq)"
proof -
  have "keeps idling (receive_update dep tok body)" for tok body
    unfolding receive_update_def route_tenant_def
    by (intro idling.keeps_bindA idling.keeps_liftR idling_session idling.keeps_case_option idling.keeps_retA
        idling.keeps_if)
  then have "keeps idling (endpoint dep tokens c rq state)" for c state
    unfolding endpoint_def get_tenant_session_def
    by (cases c) (auto intro!: idling.keeps_bindA idling.keeps_liftR idling.keeps_thenA idling_session idling.keeps_retA)
  then show ?thesis
    unfolding app_def dispatch_def
    by (intro idling.keeps_tryA idling.keeps_case_sum idling.keeps_retA) (auto intro: idling.keeps_retA)
qed

lemma idling_sweep: "keeps idling (run_compliance_sweep dep pt period)"
  unfolding run_compliance_sweep_def active_tenant_ids_def sweep_tenant_def
  by (intro idling.keeps_bindA idling_session idling.keeps_foldA)

subsection \<open>Histories\<close>

text \<open>What happens to the service: a request arrives, or a sweep is due (the job of \<open>build_scheduler\<close>, which
  passes no arguments; an exception of a job is logged by the scheduler and the service goes on).\<close>

datatype event = Request http_request | Sweep

fun serve :: "deployment \<Rightarrow> (nat \<Rightarrow> ustr) \<Rightarrow> (http_request \<Rightarrow> call) \<Rightarrow> event \<Rightarrow> world \<Rightarrow> world" where
  "serve dep tokens routing (Request rq) w = snd (app dep tokens routing rq w)"
| "serve dep tokens routing Sweep w = snd (run_compliance_sweep dep BITUNIX DEFAULT_COMPLIANCE_PERIOD w)"

inductive serves ::
  "deployment \<Rightarrow> (nat \<Rightarrow> ustr) \<Rightarrow> (http_request \<Rightarrow> call) \<Rightarrow> world \<Rightarrow> event list \<Rightarrow> world \<Rightarrow> bool"
  for dep :: deployment and tokens :: "nat \<Rightarrow> ustr" and routing :: "http_request \<Rightarrow> call" and w :: world
where
  opened: "serves dep tokens routing w [] w"
| served: "serves dep tokens routing w evs v \<Longrightarrow>
    serves dep tokens routing w (evs @ [ev]) (serve dep tokens routing ev v)"

inductive_cases served_snocE: "serves dep tokens routing w (evs @ [ev]) w'"

text \<open>A relation kept by every event relates the ends of every history.\<close>

lemma serves_relates:
  assumes "serves dep tokens routing w evs w'"
    and "\<And>x. R x x" and "\<And>x y z. R x y \<Longrightarrow> R y z \<Longrightarrow> R x z"
    and "\<And>ev x. ev \<in> set evs \<Longrightarrow> R x (serve dep tokens routing ev x)"
  shows "R w w'"
  using assms(1,4)
proof (induction rule: serves.induct)
  case opened
  show ?case by (rule assms(2))
next
  case (served evs v ev)
  have "R w v" using served by simp
  moreover have "R v (serve dep tokens routing ev v)" using served.prems by simp
  ultimately show ?case by (rule assms(3))
qed

lemma serve_ukeys: "ukeys w (serve dep tokens routing ev w)"
  by (cases ev) (simp_all add: keeps_snd ukeys.keeps_app ukeys.keeps_sweep)

lemma serve_grows: "grows w (serve dep tokens routing ev w)"
  by (cases ev) (simp_all add: keeps_snd grows.keeps_app grows.keeps_sweep)

lemma serve_paths: "paths w (serve dep tokens routing ev w)"
  by (cases ev) (simp_all add: keeps_snd paths.keeps_app paths.keeps_sweep)

lemma serve_idling: "idling w (serve dep tokens routing ev w)"
  by (cases ev) (simp_all add: keeps_snd idling_app idling_sweep)

lemma serve_spares: "ev \<noteq> Sweep \<Longrightarrow> spares w (serve dep tokens routing ev w)"
  by (cases ev) (simp_all add: keeps_snd spares.keeps_app)

lemma serves_state:
  assumes "serves dep tokens routing w evs w'" and "idle w"
  shows "idle w'" and "postgres w' = postgres w" and "unique_keys (db w) \<Longrightarrow> unique_keys (db w')"
    and "set (routes (db w)) \<subseteq> set (routes (db w'))"
proof -
  have "idling w w'" "grows w w'" "ukeys w w'" "paths w w'"
    using serves_relates [OF assms(1), of idling] serves_relates [OF assms(1), of grows]
      serves_relates [OF assms(1), of ukeys] serves_relates [OF assms(1), of paths]
    by (auto intro: serve_idling serve_grows serve_ukeys serve_paths idling.rel_refl idling.rel_trans grows.inner.rel_refl
        grows.inner.rel_trans ukeys.rel_refl ukeys.rel_trans paths.rel_refl paths.rel_trans)
  with assms(2) show "idle w'" "postgres w' = postgres w" "unique_keys (db w) \<Longrightarrow> unique_keys (db w')"
    "set (routes (db w)) \<subseteq> set (routes (db w'))"
    by (auto simp: idling_def grows_def ukeys_def paths_def keyed_def idle_def routed_def committed_def)
qed

subsection \<open>In whose name\<close>

text \<open>The rows of one tenant.\<close>

abbreviation domestic :: "uuid \<Rightarrow> 'a scoped_scheme list \<Rightarrow> 'a scoped_scheme list" where
  "domestic t rs \<equiv> filter (\<lambda>r. tenant_id r = t) rs"

definition rows_of :: "uuid \<Rightarrow> database \<Rightarrow> database" where
  "rows_of t d = d\<lparr>
     telegram_users := domestic t (telegram_users d),
     referral_accounts := domestic t (referral_accounts d),
     subscriptions := domestic t (subscriptions d),
     vip_memberships := domestic t (vip_memberships d),
     snapshots := domestic t (snapshots d),
     job_executions := domestic t (job_executions d),
     referral_configs := domestic t (referral_configs d),
     channels := domestic t (channels d),
     bot_configs := domestic t (bot_configs d),
     credentials := domestic t (credentials d),
     payments := domestic t (payments d),
     routes := filter (\<lambda>r. route_tenant_id r = t) (routes d)\<rparr>"

lemma rows_of_others: "t \<noteq> u \<Longrightarrow> rows_of t (others u d) = rows_of t d"
proof -
  assume "t \<noteq> u"
  then have both: "(x \<noteq> u \<and> x = t) = (x = t)" for x by auto
  show ?thesis by (simp add: rows_of_def others_def both)
qed

lemma others_rows_of: "others u d' = others u d \<Longrightarrow> t \<noteq> u \<Longrightarrow> rows_of t d' = rows_of t d"
  using rows_of_others [of t u d] rows_of_others [of t u d'] by simp

text \<open>Whom an event speaks for: the tenant of the route its token has, the one its header names, or every
  active one.\<close>

fun speaks_for :: "(http_request \<Rightarrow> call) \<Rightarrow> world \<Rightarrow> event \<Rightarrow> uuid \<Rightarrow> bool" where
  "speaks_for routing w (Request rq) t =
     (case routing rq of
        TelegramUpdate tok body \<Rightarrow> list_ex (\<lambda>x. token x = tok \<and> route_tenant_id x = t) (routes (db w))
      | _ \<Rightarrow> map_option uuid_of_text (req_tenant_header rq) = Some (Inr t))"
| "speaks_for routing w Sweep t = list_ex (\<lambda>x. row_id x = t \<and> tenant_is_active x) (tenants (db w))"

lemma guarded_speaks:
  assumes "tenant_call dep tokens (routing rq) = Some h"
  shows "speaks_for routing w (Request rq) t \<longleftrightarrow> map_option uuid_of_text (req_tenant_header rq) = Some (Inr t)"
  using assms by (cases "routing rq") simp_all

lemma admitted_speaks:
  "admitted (middleware_paths None) [WEBHOOK_PATH_PREFIX] rq = Inr (Some t) \<Longrightarrow>
     map_option uuid_of_text (req_tenant_header rq) = Some (Inr t)"
  by (auto simp: admitted_def split: if_splits option.splits sum.splits)

lemma open_app:
  assumes "tenant_call dep tokens (routing rq) = None" and "\<nexists>tok body. routing rq = TelegramUpdate tok body"
  shows "snd (app dep tokens routing rq w) = w"
proof (cases "admitted (middleware_paths None) [WEBHOOK_PATH_PREFIX] rq")
  case (Inl n)
  then show ?thesis by (simp add: app_def dispatch_def tryA_def)
next
  case (Inr state)
  from assms have "endpoint dep tokens (routing rq) rq state = open_call dep (routing rq)" by (simp add: endpoint_def)
  with assms app_admitted [OF Inr, of dep tokens routing w] show ?thesis by (cases "routing rq") (simp_all add: tryA_def)
qed

lemma webhook_app:
  assumes "routing rq = TelegramUpdate tok body"
  shows "snd (app dep tokens routing rq w) = w \<or>
    snd (app dep tokens routing rq w) = snd (receive_update dep tok body w)"
proof (cases "admitted (middleware_paths None) [WEBHOOK_PATH_PREFIX] rq")
  case (Inl n)
  then show ?thesis by (simp add: app_def dispatch_def tryA_def)
next
  case (Inr state)
  from assms have "endpoint dep tokens (routing rq) rq state = receive_update dep tok body" by (simp add: endpoint_def)
  with app_admitted [OF Inr, of dep tokens routing w] show ?thesis
    by (auto simp: tryA_def split: prod.splits sum.splits)
qed

lemma request_speaks:
  assumes "idle w" and "postgres w" and "\<not> speaks_for routing w (Request rq) t"
  shows "rows_of t (db (snd (app dep tokens routing rq w))) = rows_of t (db w)"
proof (cases "tenant_call dep tokens (routing rq)")
  case (Some h)
  obtain ok body where h: "h = (ok, body)" by fastforce
  obtain r w' where run: "app dep tokens routing rq w = (r, w')" by fastforce
  obtain n where r: "r = Inr n" using run by (auto simp: app_def tryA_def split: prod.splits sum.splits)
  have kept: "keeps (iso u) (body u)" for u by (rule iso.keeps_tenant_call [OF Some [unfolded h]])
  have other: "t \<noteq> u" if "admitted (middleware_paths None) [WEBHOOK_PATH_PREFIX] rq = Inr (Some u)" for u
    using assms(3) guarded_speaks [where routing = routing and w = w and t = t, OF Some] admitted_speaks [OF that] by auto
  from run [unfolded r] Some [unfolded h] show ?thesis
  proof (cases rule: app_cases)
    case refused
    with run show ?thesis by simp
  next
    case (failed u e)
    from others_rows_of [OF get_tenant_session_iso [OF failed(1) assms(1,2) kept] other [OF failed(3)]] run show ?thesis
      by simp
  next
    case (answered u)
    from others_rows_of [OF get_tenant_session_iso [OF answered(1) assms(1,2) kept] other [OF answered(4)]] run
    show ?thesis by simp
  qed
next
  case None
  show ?thesis
  proof (cases "\<exists>tok body. routing rq = TelegramUpdate tok body")
    case False
    with open_app [where routing = routing, OF None] show ?thesis by simp
  next
    case True
    then obtain tok body where c: "routing rq = TelegramUpdate tok body" by blast
    obtain r w' where run: "receive_update dep tok body w = (r, w')" by fastforce
    from update_stays_with_its_tenant [OF run assms(1,2)] have "rows_of t (db w') = rows_of t (db w)"
      using assms(3) c others_rows_of [where t = t and d = "db w" and d' = "db w'"] by (fastforce simp: list_ex_iff)
    with webhook_app [where routing = routing and dep = dep and tokens = tokens and w = w, OF c] run show ?thesis by auto
  qed
qed

lemma fold_sweep_isolated:
  assumes "idle w" and "postgres w" and "t \<notin> set ts"
  shows "rows_of t (db (snd (foldA (\<lambda>u _. sweep_tenant dep pt period u) ts () w))) = rows_of t (db w)"
  using assms
proof (induction ts arbitrary: w)
  case (Cons u ts)
  obtain r v where uv: "sweep_tenant dep pt period u w = (r, v)" by fastforce
  have v: "rows_of t (db v) = rows_of t (db w)" "idle v" "postgres v"
    using others_rows_of [OF turn_is_isolated [OF Cons.prems(1,2), of u dep pt period], of t] Cons.prems(2,3)
      sweep_tenant_state [of dep pt period u w] uv by simp_all
  show ?case
  proof (cases r)
    case (Inr x)
    with Cons.IH [OF v(2,3)] Cons.prems(3) uv v(1) show ?thesis by (simp add: bindA_def)
  qed (use uv v in \<open>simp add: bindA_def\<close>)
qed simp

lemma sweep_speaks:
  assumes "idle w" and "postgres w" and "\<not> speaks_for routing w Sweep t"
  shows "rows_of t (db (snd (run_compliance_sweep dep pt period w))) = rows_of t (db w)"
proof -
  let ?ts = "map row_id (filter tenant_is_active (tenants (db w)))"
  obtain v where v: "active_tenant_ids w = (Inr ?ts, v)" "idle v" "db v = db w"
    using active_tenant_ids_run [OF assms(1)] by blast
  from keepsD [OF grows.keeps_active_tenant_ids v(1)] assms(2) have "postgres v" by (simp add: grows_def)
  moreover have "t \<notin> set ?ts" using assms(3) by (auto simp: list_ex_iff)
  ultimately have "rows_of t (db (snd (foldA (\<lambda>u _. sweep_tenant dep pt period u) ?ts () v))) = rows_of t (db v)"
    using v(2) by (intro fold_sweep_isolated)
  with v show ?thesis by (simp add: run_compliance_sweep_def bindA_def)
qed

lemma serve_speaks:
  assumes "idle w" and "postgres w" and "\<not> speaks_for routing w ev t"
  shows "rows_of t (db (serve dep tokens routing ev w)) = rows_of t (db w)"
proof (cases ev)
  case (Request rq)
  with request_speaks [where routing = routing, OF assms(1,2)] assms(3) show ?thesis by simp
next
  case Sweep
  with sweep_speaks [where routing = routing, OF assms(1,2)] assms(3) show ?thesis by simp
qed

subsection \<open>Who is taken out\<close>








subsection \<open>Properties\<close>

text \<open>C17. The keys hold for ever: after any history of requests and sweeps (refusals, outages, exceptions and
  failed commits included) every primary key and every unique constraint of every table holds if it held at the
  start, and no transaction is left open.\<close>

theorem service_keeps_the_keys:
  assumes "serves dep tokens routing w evs w'" and "idle w" and "unique_keys (db w)"
  shows "unique_keys (db w') \<and> idle w'"
  using serves_state [OF assms(1,2)] assms(3) by blast

text \<open>C5. Tenants are apart: on PostgreSQL, when any row of a tenant differs after a history, then the history
  has an event that spoke for that tenant when it came: a request to a guarded endpoint under its header, an
  update under its webhook token, or a sweep while the tenant was active.\<close>

theorem tenants_are_apart:
  assumes "serves dep tokens routing w evs w'" and "idle w" and "postgres w"
    and "rows_of t (db w') \<noteq> rows_of t (db w)"
  shows "\<exists>evs1 ev evs2 v. evs = evs1 @ ev # evs2 \<and> serves dep tokens routing w evs1 v \<and> speaks_for routing v ev t"
  using assms
proof (induction rule: serves.induct)
  case (served evs v ev)
  show ?case
  proof (cases "rows_of t (db v) = rows_of t (db w)")
    case True
    with serves_state [OF served.hyps served.prems(1)] served.prems(2,3) serve_speaks [of v routing ev t dep tokens]
    have "speaks_for routing v ev t" by auto
    with served.hyps show ?thesis by blast
  next
    case False
    with served.IH served.prems(1,2) obtain evs1 ev' evs2 v' where "evs = evs1 @ ev' # evs2"
      "serves dep tokens routing w evs1 v'" "speaks_for routing v' ev' t" by blast
    moreover from this have "evs @ [ev] = evs1 @ ev' # (evs2 @ [ev])" by simp
    ultimately show ?thesis by blast
  qed
qed simp

text \<open>C29. Only the sweep removes: whatever requests arrive, however they end, they never ban or unban anybody;
  a history without a sweep leaves the removals recorded in the log exactly as they were.\<close>

theorem only_the_sweep_removes:
  assumes "serves dep tokens routing w evs w'" and "Sweep \<notin> set evs"
  shows "removals w' = removals w"
proof -
  have "spares x (serve dep tokens routing ev x)" if "ev \<in> set evs" for ev x
    using that assms(2) by (intro serve_spares) blast
  with spares.inner.rel_refl spares.inner.rel_trans have "spares w w'" by (rule serves_relates [OF assms(1)])
  then show ?thesis by (simp add: spares_def)
qed


text \<open>C39. A path that was handed out works for ever: after any history, the token of a route there was at the
  start is still resolved to the same tenant.\<close>

theorem webhook_paths_are_permanent:
  assumes "serves dep tokens routing w evs w'" and "idle w" and "unique_keys (db w)" and "x \<in> set (routes (db w))"
  shows "\<exists>v. route_tenant (token x) w' = (Inr (Some (route_tenant_id x)), v)"
proof -
  note w' = serves_state [OF assms(1,2)]
  have "distinct (map token (routes (db w')))" using w'(3) [OF assms(3)] by (simp add: unique_keys_def)
  moreover have "x \<in> set (routes (db w'))" using w'(4) assms(4) by blast
  ultimately have "one_or_none (filter (\<lambda>r. token r = token x) (routes (db w'))) = Inr (Some x)"
    by (rule token_resolves)
  moreover obtain r v where run: "route_tenant (token x) w' = (r, v)" by fastforce
  ultimately show ?thesis using route_tenant_run(1) [OF run w'(1)] by auto
qed

end
