(* ===== verification/DemoChat.thy ===== *)
theory DemoChat
  imports DemoSweep Conversation
begin

text \<open>The running example in the chat: a tenant with both markets set up.\<close>

definition two_markets_world :: world where
  "two_markets_world = demo_world\<lparr>db := demo_db\<lparr>
     referral_configs := [demo_config, demo_config\<lparr>row_id := 11, cfg_market := FOREX\<rparr>],
     channels := [foreign_channel, demo_channel,
       demo_channel\<lparr>row_id := 22, ch_market := FOREX, chat_id := -300\<rparr>]\<rparr>\<rparr>"

definition demo_update :: "ustr option \<Rightarrow> ustr option \<Rightarrow> incoming_update" where
  "demo_update txt cb = \<lparr>upd_chat_id = 777, upd_user_id = 777, upd_text = txt, callback_data = cb,
     upd_username = None, upd_first_name = Some (asc ''Ali'')\<rparr>"

lemma two_markets:
  "ready 1 two_markets_world" "unique_keys (db two_markets_world)"
  "Collect (set_up 1 BITUNIX (db two_markets_world)) = {CRYPTO, FOREX}"
  by (auto simp: two_markets_world_def demo_world_def new_world_def ready_def unique_keys_def
      table_unique_def table_defs set_up_def demo_db_def empty_db_def demo_config_def demo_channel_def
      foreign_channel_def)

theorem render_always_answers_witness:
  "\<exists>s. render \<lparr>outcome = OO_INSUFFICIENT_BALANCE, res_invite_link = None,
     verdict = Some \<lparr>v_reason = INSUFFICIENT_BALANCE, v_compliance_state = CS_NON_COMPLIANT,
       balance = Fin False 12050 (-2), shortfall = Fin False 17950 (-2)\<rparr>, res_uid = None\<rparr> [] = Inr s"
  by (rule render_always_answers) simp

theorem offered_markets_are_set_up_witness:
  "\<exists>ms. available_markets 1 BITUNIX two_markets_world = (Inr ms, two_markets_world) \<and> sorted ms \<and>
     set ms = {CRYPTO, FOREX}"
  using offered_markets_are_set_up [OF two_markets(1,2), of BITUNIX] unfolding two_markets(3) by blast

theorem uid_needs_a_market_witness:
  "\<exists>ms. set ms = {CRYPTO, FOREX} \<and>
     handle_uid demo_runtime demo_referral demo_telegram BITUNIX 1 (demo_update None None)
       (asc ''123 456 789'') two_markets_world =
     (Inr [if ms = [] then plain_reply MSG_NOT_CONFIGURED
           else \<lparr>reply_text = CHOOSE_MARKET, reply_keyboard = Some (map (\<lambda>m. [market_button m]) ms)\<rparr>],
      two_markets_world)"
proof -
  have uid: "is_valid_bitunix_uid (normalize_uid (Some (asc ''123 456 789'')))" by code_simp
  have none: "telegram_users (db two_markets_world) = []"
    by (simp add: two_markets_world_def demo_world_def new_world_def demo_db_def empty_db_def)
  have "\<nexists>!m. m \<in> Collect (set_up 1 BITUNIX (db two_markets_world))"
    unfolding two_markets(3) by auto
  then have "\<nexists>!m. set_up 1 BITUNIX (db two_markets_world) m" by simp
  from uid_needs_a_market [OF two_markets(1,2) uid _ this] none show ?thesis
    unfolding two_markets(3) by simp
qed

end
