(* ===== verification/DemoWebhook.thy ===== *)
theory DemoWebhook
  imports DemoChat Webhook
begin

text \<open>The running example at the webhook: a configured tenant, its route, and updates as Telegram sends them.\<close>

definition demo_route :: webhook_route where
  "demo_route = \<lparr>row_id = 50, created_at = long_ago, token = asc ''t0ken'', route_tenant_id = 1,
     provider = asc ''TELEGRAM''\<rparr>"

definition hook_world :: world where
  "hook_world = new_world True ((sweep_db (sealed ''k''))\<lparr>routes := [demo_route]\<rparr>)"

definition text_update :: "json \<Rightarrow> json" where
  "text_update i = JObj [(asc ''message'', JObj
     [(asc ''from'', JObj [(asc ''id'', i), (asc ''first_name'', JStr (asc ''Ali''))]),
      (asc ''chat'', JObj [(asc ''id'', i), (asc ''type'', JStr (asc ''private''))]),
      (asc ''text'', JStr (asc ''/start''))])]"

lemma hook_world_facts:
  "idle hook_world" "postgres hook_world" "tg_log hook_world = []"
  "db hook_world = (sweep_db (sealed ''k''))\<lparr>routes := [demo_route]\<rparr>"
  "one_or_none (filter (\<lambda>r. token r = asc ''t0ken'') (routes (db hook_world))) = Inr (Some demo_route)"
  by (simp_all add: idle_def hook_world_def new_world_def demo_route_def)

lemma text_update_parsed:
  "parse_update (text_update (JInt 777)) = Inr (Some (demo_update (Some (asc ''/start'')) None))"
  "parse_update (text_update (JStr (asc ''abc''))) = Inl ValueError"
  by code_simp+

theorem update_stays_with_its_tenant_witness:
  "\<exists>r w'. receive_update demo_deployment (asc ''t0ken'') (Some (text_update (JInt 777))) hook_world = (r, w') \<and>
     (db w' = db hook_world \<or> others 1 (db w') = others 1 (db hook_world))"
proof -
  obtain r w' where run: "receive_update demo_deployment (asc ''t0ken'') (Some (text_update (JInt 777))) hook_world = (r, w')"
    by fastforce
  from update_stays_with_its_tenant [OF run hook_world_facts(1,2)] run show ?thesis
    by (auto simp: hook_world_facts(4) demo_route_def)
qed

theorem only_a_finished_flow_is_stored_witness:
  "\<exists>r w'. receive_update demo_deployment (asc ''t0ken'') (Some (text_update (JInt 777))) hook_world = (r, w') \<and>
     (db w' = db hook_world \<or> (\<exists>u u'. commit u = (Inr (), u') \<and> db w' = db u'))"
proof -
  obtain r w' where run: "receive_update demo_deployment (asc ''t0ken'') (Some (text_update (JInt 777))) hook_world = (r, w')"
    by fastforce
  from only_a_finished_flow_is_stored [OF run hook_world_facts(1)] run show ?thesis by blast
qed

lemma hook_providers:
  assumes "db v = db hook_world"
  shows "\<exists>p. fst (tenant_providers demo_deployment (route_tenant_id demo_route) BITUNIX
    (bind_tenant (route_tenant_id demo_route) (fresh_session v))) = Inr (Some p)"
proof -
  have open_all: "decrypt_secret (dep_cipher demo_deployment) (sealed ''k'') = Inr (asc ''k'')"
    "decrypt_secret (dep_cipher demo_deployment) (sealed ''s3cret'') = Inr (asc ''s3cret'')"
    "decrypt_secret (dep_cipher demo_deployment) (sealed ''123:abc'') = Inr (asc ''123:abc'')"
    by code_simp+
  show ?thesis
    by (rule exI, rule configured_providers
        [where key = "demo_credential 31 BITUNIX BITUNIX_API_KEY (sealed ''k'')"
         and sec = "demo_credential 32 BITUNIX BITUNIX_API_SECRET (sealed ''s3cret'')"
         and tok = "demo_credential 33 TELEGRAM TELEGRAM_BOT_TOKEN (sealed ''123:abc'')"
         and bcfg = demo_bot_config])
      (simp_all add: assms hook_world_facts(4) sweep_db_def demo_credential_def demo_route_def
        demo_bot_config_def BITUNIX_API_KEY_def BITUNIX_API_SECRET_def asc_def open_all [unfolded asc_def])
qed

theorem member_is_answered_witness:
  "\<exists>r w' evs txt kb ans.
     receive_update demo_deployment (asc ''t0ken'') (Some (text_update (JInt 777))) hook_world = (r, w') \<and>
     tg_log w' = evs @ [SendMessage 777 txt kb ans]"
proof -
  obtain r w' where run: "receive_update demo_deployment (asc ''t0ken'') (Some (text_update (JInt 777))) hook_world = (r, w')"
    by fastforce
  have "upd_user_id (demo_update (Some (asc ''/start'')) None) \<noteq> 0" by (simp add: demo_update_def)
  from member_is_answered [OF run hook_world_facts(1,5) text_update_parsed(1) this hook_providers] run
  show ?thesis by (auto simp: hook_world_facts(3) demo_update_def)
qed

theorem unknown_token_does_nothing_witness:
  "\<exists>w'. receive_update demo_deployment (asc ''other'') (Some (text_update (JInt 777))) hook_world = (Inr 200, w') \<and>
     db w' = db hook_world"
proof -
  have "x \<in> set (routes (db hook_world)) \<Longrightarrow> token x \<noteq> asc ''other''" for x
    by (auto simp: hook_world_facts(4) demo_route_def asc_def)
  from unknown_token_does_nothing [OF hook_world_facts(1) this] show ?thesis by blast
qed

theorem unreadable_update_is_not_acknowledged_witness:
  "\<exists>w'. receive_update demo_deployment (asc ''t0ken'') (Some (text_update (JStr (asc ''abc'')))) hook_world =
     (Inl ValueError, w')"
  using unreadable_update_is_not_acknowledged [OF hook_world_facts(1,5) text_update_parsed(2)] by blast

end
