(* ===== verification/DemoAdmin.thy ===== *)
theory DemoAdmin
  imports DemoWebhook AdminSetup
begin

text \<open>The running example in the administration: a tenant that configures itself.\<close>

definition office_world :: "database \<Rightarrow> world" where
  "office_world d = (new_world True d)\<lparr>in_tx := True, bound := Some 1, published := Some 1\<rparr>"

definition office_db :: database where
  "office_db = sweep_db (sealed ''k'')"

definition key_request :: "string \<Rightarrow> credential_request" where
  "key_request s = \<lparr>crq_provider_type = BITUNIX, crq_name = BITUNIX_API_KEY, crq_secret = asc s\<rparr>"

definition forex_request :: config_request where
  "forex_request = \<lparr>cfq_provider_type = BITUNIX, cfq_market = FOREX, cfq_link = asc ''https://bitunix.com/r/2'',
     cfq_ib_id = None, cfq_minimum_balance = Fin False 500 0, cfq_minimum_trades = 2, cfq_period_days = 7,
     cfq_grace_days = 14, cfq_is_active = True\<rparr>"

definition reopening :: channel_request where
  "reopening = \<lparr>chq_market = CRYPTO, chq_chat_id = -100, chq_title = None, chq_is_active = True\<rparr>"

definition demo_tokens :: "nat \<Rightarrow> ustr" where
  "demo_tokens k = asc ''token'' @ [k]"

definition closed_db :: database where
  "closed_db = demo_db\<lparr>channels := [foreign_channel, demo_channel\<lparr>ch_is_active := False\<rparr>]\<rparr>"

lemma office_facts:
  "ready 1 (office_world d)" "start (office_world d) = d" "db (office_world d) = d"
  "unique_keys d \<Longrightarrow> keyed (office_world d)"
  by (simp_all add: office_world_def new_world_def ready_def keyed_def)

lemma office_unique: "unique_keys office_db" "unique_keys closed_db" "routes office_db = []"
  using sweep_db_unique
  by (simp_all add: office_db_def closed_db_def unique_keys_def table_unique_def table_defs demo_tenant_def demo_db_def empty_db_def
      foreign_channel_def demo_channel_def sweep_db_def pass_db_def)

lemma is_okD: "\<not> is_err (fst x) \<Longrightarrow> \<exists>r w. x = (Inr r, w)"
  by (cases x; cases "fst x") auto

lemma office_runs:
  "\<not> is_err (fst (upsert_credential demo_deployment 1 (key_request ''new-key-9876'') (office_world office_db)))"
  "\<not> is_err (fst (upsert_referral_config demo_runtime 1 forex_request (office_world office_db)))"
  "\<not> is_err (fst (upsert_bot demo_deployment demo_tokens 1 \<lparr>bq_token = asc ''456:def''\<rparr> (office_world office_db)))"
  "case fst (check_integration demo_deployment 1 (office_world office_db)) of Inl e \<Rightarrow> False | Inr r \<Rightarrow> check_ready r"
  by code_simp+

theorem entered_secret_is_used_witness:
  "\<exists>resp w'. upsert_credential demo_deployment 1 (key_request ''new-key-9876'') (office_world office_db) = (Inr resp, w') \<and>
     secret demo_deployment 1 BITUNIX BITUNIX_API_KEY w' = (Inr (asc ''new-key-9876''), w')"
proof -
  obtain resp w' where run: "upsert_credential demo_deployment 1 (key_request ''new-key-9876'') (office_world office_db) = (Inr resp, w')"
    using is_okD [OF office_runs(1)] by blast
  have "dep_cipher demo_deployment = demo_cipher" by (simp add: demo_deployment_def)
  with entered_secret_is_used [OF run office_facts(1) office_facts(4) [OF office_unique(1)]] run demo_cipher_laws(1,2)
  show ?thesis by (simp add: key_request_def)
qed

theorem secret_is_not_shown_witness:
  "fst (upsert_credential demo_deployment 1 (key_request ''abcd-9876'') (office_world office_db)) =
   fst (upsert_credential demo_deployment 1 (key_request ''quite another 9876'') (office_world office_db))"
proof -
  have "last_four (asc ''abcd-9876'') = last_four (asc ''quite another 9876'')"
    "asc ''abcd-9876'' \<noteq> []" "asc ''quite another 9876'' \<noteq> []"
    "encodable (asc ''abcd-9876'')" "encodable (asc ''quite another 9876'')"
    by code_simp+
  from secret_is_not_shown [OF office_facts(1) this, of demo_deployment "key_request ''x''" office_db] show ?thesis
    by (simp add: key_request_def)
qed


theorem programme_put_is_idempotent_witness:
  "\<exists>resp w'. upsert_referral_config demo_runtime 1 forex_request (office_world office_db) = (Inr resp, w') \<and>
     upsert_referral_config demo_runtime 1 forex_request w' = (Inr resp, w')"
proof -
  obtain resp w' where run: "upsert_referral_config demo_runtime 1 forex_request (office_world office_db) = (Inr resp, w')"
    using is_okD [OF office_runs(2)] by blast
  from programme_put_is_idempotent [OF run office_facts(1) office_facts(4) [OF office_unique(1)]] run
  show ?thesis by blast
qed

theorem inactive_channel_cannot_return_witness:
  "\<exists>w'. upsert_channel demo_runtime 1 reopening (office_world closed_db) = (Inl IntegrityError, w') \<and> db w' = closed_db"
proof -
  have ch: "demo_channel\<lparr>ch_is_active := False\<rparr> \<in> set (channels (db (office_world closed_db)))"
    "tenant_id (demo_channel\<lparr>ch_is_active := False\<rparr>) = 1"
    "ch_market (demo_channel\<lparr>ch_is_active := False\<rparr>) = chq_market reopening"
    "\<not> ch_is_active (demo_channel\<lparr>ch_is_active := False\<rparr>)"
    by (simp_all add: office_facts closed_db_def demo_channel_def reopening_def)
  have "unique_keys (db (office_world closed_db))" using office_unique(2) by (simp add: office_facts)
  from inactive_channel_cannot_return [OF office_facts(1) this ch] show ?thesis
    by (simp add: office_facts)
qed

theorem webhook_path_leads_home_witness:
  "\<exists>resp w' tok x.
     upsert_bot demo_deployment demo_tokens 1 \<lparr>bq_token = asc ''456:def''\<rparr> (office_world office_db) = (Inr resp, w') \<and>
     webhook_path resp = Some (WEBHOOK_PATH_PREFIX @ tok) \<and>
     one_or_none (filter (\<lambda>r. token r = tok) (routes (db w'))) = Inr (Some x) \<and> route_tenant_id x = 1"
proof -
  obtain resp w' where run:
    "upsert_bot demo_deployment demo_tokens 1 \<lparr>bq_token = asc ''456:def''\<rparr> (office_world office_db) = (Inr resp, w')"
    using is_okD [OF office_runs(3)] by blast
  have "unique_keys (db (office_world office_db))" using office_unique(1) by (simp add: office_facts)
  from webhook_path_leads_home [OF run office_facts(1) this] run show ?thesis by blast
qed


end
