(* ===== verification/DemoWeb.thy ===== *)
theory DemoWeb
  imports Web DemoAdmin
begin

text \<open>The running example at the edge: requests with and without a tenant.\<close>

definition tenant_1 :: ustr where
  "tenant_1 = text_of_uuid 1"

definition demo_request :: "string \<Rightarrow> ustr option \<Rightarrow> http_request" where
  "demo_request p h = \<lparr>req_method = asc ''POST'', req_path = asc p, req_tenant_header = h, req_body = None\<rparr>"

definition demo_payment :: payment_request where
  "demo_payment = \<lparr>prq_tx_hash = asc ''0xabc'', prq_user_id = 7, prq_amount = Fin False 50 0, prq_currency = asc ''USDT''\<rparr>"

text \<open>A routing that knows three endpoints, each at its path.\<close>

definition demo_routing :: "http_request \<Rightarrow> call" where
  "demo_routing rq =
     (if req_path rq = asc ''/api/v1/webhooks/payments'' then IngestPayment demo_payment
      else if req_path rq = asc ''/api/v1/admin/channels'' then PutChannel reopening
      else if req_path rq = asc ''/health'' then Health
      else Unrouted 404)"

lemma demo_routing_paths: "call_path (demo_routing rq) = Some p \<Longrightarrow> req_path rq = p"
  by (auto simp: demo_routing_def API_PREFIX_def admin_path_def asc_def split: if_splits)

definition payment_post :: http_request where
  "payment_post = demo_request ''/api/v1/webhooks/payments'' (Some tenant_1)"

definition channel_put :: http_request where
  "channel_put = demo_request ''/api/v1/admin/channels'' (Some tenant_1)"

abbreviation demo_app :: "http_request \<Rightarrow> nat act" where
  "demo_app \<equiv> app demo_deployment demo_tokens demo_routing"

fun answers :: "nat \<Rightarrow> nat res \<times> world \<Rightarrow> bool" where
  "answers n (Inr m, w) = (m = n)"
| "answers n (Inl e, w) = False"

lemma answersD: "answers n x \<Longrightarrow> \<exists>w. x = (Inr n, w)"
  by (cases "(n, x)" rule: answers.cases) auto

definition edge_world :: "database \<Rightarrow> world" where
  "edge_world d = new_world True d"

lemma edge_idle: "idle (edge_world d)" "postgres (edge_world d)" "db (edge_world d) = d"
  by (simp_all add: edge_world_def new_world_def idle_def)

lemma demo_header: "uuid_of_text tenant_1 = Inr 1"
  unfolding tenant_1_def by code_simp

lemma demo_admitted:
  "admitted (middleware_paths None) [WEBHOOK_PATH_PREFIX] payment_post = Inr (Some 1)"
  "admitted (middleware_paths None) [WEBHOOK_PATH_PREFIX] channel_put = Inr (Some 1)"
proof -
  have "tenant_1 \<noteq> []" by (simp add: tenant_1_def text_of_uuid_def Let_def)
  then show "admitted (middleware_paths None) [WEBHOOK_PATH_PREFIX] payment_post = Inr (Some 1)"
    "admitted (middleware_paths None) [WEBHOOK_PATH_PREFIX] channel_put = Inr (Some 1)"
    by (simp_all add: admitted_def payment_post_def channel_put_def demo_request_def middleware_paths_def
        DEFAULT_PUBLIC_PATHS_def WEBHOOK_PATH_PREFIX_def asc_def py_startswith_def demo_header)
qed

lemma demo_routed: "demo_routing payment_post = IngestPayment demo_payment" "demo_routing channel_put = PutChannel reopening"
  by (simp_all add: demo_routing_def payment_post_def channel_put_def demo_request_def asc_def)

text \<open>What is left of an admitted request.\<close>

definition after_admission :: "http_request \<Rightarrow> nat act" where
  "after_admission rq =
     tryA (endpoint demo_deployment demo_tokens (demo_routing rq) rq (Some 1)) (\<lambda>e. Some (retA (exception_status e)))"

lemma demo_app_admitted: "demo_app payment_post = after_admission payment_post" "demo_app channel_put = after_admission channel_put"
  using app_admitted [OF demo_admitted(1)] app_admitted [OF demo_admitted(2)] by (auto simp: after_admission_def fun_eq_iff)

lemma edge_runs:
  "answers 200 (after_admission payment_post (edge_world office_db))"
  "answers 200 (after_admission payment_post (snd (after_admission payment_post (edge_world office_db))))"
  "answers 500 (after_admission channel_put (edge_world closed_db))"
  by code_simp+

lemma edge_answers:
  "\<exists>w. demo_app payment_post (edge_world office_db) = (Inr 200, w)"
  "\<exists>w. demo_app payment_post (snd (demo_app payment_post (edge_world office_db))) = (Inr 200, w)"
  "\<exists>w. demo_app channel_put (edge_world closed_db) = (Inr 500, w)"
  unfolding demo_app_admitted by (intro answersD edge_runs)+

theorem anonymous_request_does_nothing_witness:
  "demo_app (demo_request ''/api/v1/admin/channels'' None) (edge_world office_db) = (Inr 401, edge_world office_db)"
  using anonymous_request_does_nothing [of "demo_request ''/api/v1/admin/channels'' None" demo_deployment demo_tokens demo_routing]
  by (simp add: demo_request_def DEFAULT_PUBLIC_PATHS_def WEBHOOK_PATH_PREFIX_def asc_def py_startswith_def)

theorem guarded_calls_know_their_tenant_witness:
  "\<exists>t. get_tenant_id channel_put (Some 1) = Inr t \<and> uuid_of_text tenant_1 = Inr t"
proof -
  have "tenant_call demo_deployment demo_tokens (demo_routing channel_put) =
      Some (channel_request_ok reopening,
        \<lambda>t. bindA (upsert_channel (dep_runtime demo_deployment) t reopening) (\<lambda>_. retA ()))"
    by (simp add: demo_routed)
  from guarded_calls_know_their_tenant [where routing = demo_routing, OF demo_routing_paths demo_admitted(2) this] show ?thesis
    by (auto simp: channel_put_def demo_request_def)
qed

theorem request_is_all_or_nothing_witness:
  "\<exists>w'. demo_app channel_put (edge_world closed_db) = (Inr 500, w') \<and> db w' = closed_db"
proof -
  obtain w' where run: "demo_app channel_put (edge_world closed_db) = (Inr 500, w')" using edge_answers(3) by blast
  have "tenant_call demo_deployment demo_tokens (demo_routing channel_put) =
      Some (channel_request_ok reopening,
        \<lambda>t. bindA (upsert_channel (dep_runtime demo_deployment) t reopening) (\<lambda>_. retA ()))"
    by (simp add: demo_routed)
  from request_is_all_or_nothing [OF run this edge_idle(1)] run show ?thesis by (simp add: edge_idle)
qed

theorem request_stays_with_its_tenant_witness:
  "\<exists>w'. demo_app payment_post (edge_world office_db) = (Inr 200, w') \<and> others 1 (db w') = others 1 office_db"
proof -
  obtain w' where run: "demo_app payment_post (edge_world office_db) = (Inr 200, w')" using edge_answers(1) by blast
  have call: "tenant_call demo_deployment demo_tokens (demo_routing payment_post) =
      Some (payment_request_ok demo_payment,
        \<lambda>t. bindA (process_payment (dep_runtime demo_deployment) t demo_payment) (\<lambda>_. retA ()))"
    by (simp add: demo_routed)
  have "req_tenant_header payment_post = Some tenant_1" by (simp add: payment_post_def demo_request_def)
  from request_stays_with_its_tenant [OF run call this demo_header edge_idle(1,2)] run show ?thesis
    by (simp add: edge_idle)
qed


theorem same_transaction_is_recorded_twice_witness:
  "\<exists>w1 w2. demo_app payment_post (edge_world office_db) = (Inr 200, w1) \<and> demo_app payment_post w1 = (Inr 200, w2) \<and>
     length (filter (\<lambda>p. tx_hash p = asc ''0xabc'') (payments (db w2))) =
     length (filter (\<lambda>p. tx_hash p = asc ''0xabc'') (payments office_db)) + 2"
proof -
  obtain w1 where run: "demo_app payment_post (edge_world office_db) = (Inr 200, w1)" using edge_answers(1) by blast
  with edge_answers(2) obtain w2 where run2: "demo_app payment_post w1 = (Inr 200, w2)" by auto
  from same_transaction_is_recorded_twice [OF run run2 demo_routed(1) edge_idle(1)] run run2 show ?thesis
    by (simp add: edge_idle demo_payment_def)
qed

end
