(* ===== verification/DemoService.thy ===== *)
theory DemoService
  imports Service DemoWeb DemoWebhook
begin

text \<open>The running example over whole histories.\<close>

abbreviation demo_serves :: "world \<Rightarrow> event list \<Rightarrow> world \<Rightarrow> bool" where
  "demo_serves \<equiv> serves demo_deployment demo_tokens demo_routing"

abbreviation demo_serve :: "event \<Rightarrow> world \<Rightarrow> world" where
  "demo_serve \<equiv> serve demo_deployment demo_tokens demo_routing"

lemma served_one: "demo_serves w [ev] (demo_serve ev w)"
  using serves.served [OF serves.opened, of demo_deployment demo_tokens demo_routing w ev] by simp

lemma served_two: "demo_serves w [ev, ev'] (demo_serve ev' (demo_serve ev w))"
  using serves.served [OF served_one, of w ev ev'] by simp

text \<open>A payment, and the sweep after it.\<close>

theorem service_keeps_the_keys_witness:
  "\<exists>w'. demo_serves (edge_world office_db) [Request payment_post, Sweep] w' \<and> unique_keys (db w') \<and> idle w'"
proof -
  have "unique_keys (db (edge_world office_db))" using office_unique(1) by (simp add: edge_idle)
  from service_keeps_the_keys [OF served_two [of "edge_world office_db" "Request payment_post" Sweep] edge_idle(1) this]
    served_two show ?thesis by blast
qed

fun pays :: "nat res \<times> world \<Rightarrow> uuid list" where
  "pays (r, w) = map tenant_id (payments (db w))"

lemma payment_run: "pays (after_admission payment_post (edge_world office_db)) = [1]"
  by code_simp

theorem tenants_are_apart_witness:
  "\<exists>w' evs1 ev evs2 v. demo_serves (edge_world office_db) [Request payment_post] w' \<and>
     rows_of 1 (db w') \<noteq> rows_of 1 office_db \<and>
     [Request payment_post] = evs1 @ ev # evs2 \<and> demo_serves (edge_world office_db) evs1 v \<and> speaks_for demo_routing v ev 1"
proof -
  let ?w = "demo_serve (Request payment_post) (edge_world office_db)"
  have "map tenant_id (payments (db ?w)) = [1]"
    using payment_run by (cases "after_admission payment_post (edge_world office_db)") (simp add: demo_app_admitted)
  then have "domestic 1 (payments (db ?w)) \<noteq> []" by (auto simp: filter_empty_conv)
  moreover have "payments office_db = []" by code_simp
  ultimately have "payments (rows_of 1 (db ?w)) \<noteq> payments (rows_of 1 office_db)" by (simp add: rows_of_def)
  then have "rows_of 1 (db ?w) \<noteq> rows_of 1 (db (edge_world office_db))" by (auto simp: edge_idle)
  from tenants_are_apart [OF served_one edge_idle(1,2) this] this served_one show ?thesis
    by (metis edge_idle(3))
qed

theorem only_the_sweep_removes_witness:
  "\<exists>w'. demo_serves (edge_world office_db) [Request payment_post, Request channel_put] w' \<and>
     removals w' = removals (edge_world office_db)"
proof -
  obtain w' where w': "demo_serves (edge_world office_db) [Request payment_post, Request channel_put] w'"
    using served_two by blast
  from only_the_sweep_removes [OF w'] w' show ?thesis by auto
qed

lemma hook_unique: "unique_keys (db hook_world)"
  using sweep_db_unique [of "sealed ''k''"] by (simp add: hook_world_facts(4) unique_keys_def sweep_db_def)

theorem webhook_paths_are_permanent_witness:
  "\<exists>w' v. demo_serves hook_world [Sweep, Request payment_post] w' \<and> route_tenant (asc ''t0ken'') w' = (Inr (Some 1), v)"
proof -
  have "demo_route \<in> set (routes (db hook_world))" by (simp add: hook_world_facts(4))
  moreover obtain w' where w': "demo_serves hook_world [Sweep, Request payment_post] w'" using served_two by blast
  ultimately have "\<exists>v. route_tenant (token demo_route) w' = (Inr (Some (route_tenant_id demo_route)), v)"
    using hook_world_facts(1) hook_unique by (intro webhook_paths_are_permanent)
  with w' show ?thesis by (auto simp: demo_route_def)
qed


lemma hook_secrets: "secrets_open demo_deployment (db hook_world)"
  by code_simp

text \<open>Two active tenants, one of them without credentials.\<close>

theorem sweep_completes_witness:
  "run_compliance_sweep demo_deployment BITUNIX week hook_world =
    (Inr (), fold (\<lambda>t v. snd (sweep_tenant demo_deployment BITUNIX week t v)) [1, 2] (snd (active_tenant_ids hook_world)))"
proof -
  have "map row_id (filter tenant_is_active (tenants (db hook_world))) = [1, 2]" by code_simp
  with sweep_completes [OF hook_world_facts(1) hook_unique hook_secrets, of week] show ?thesis by simp
qed

end
