(* ===== verification/Migrations.thy ===== *)
theory Migrations
  imports Session "HOL-Library.Code_Target_Nat"
begin

text \<open>
  \<open>migrations/versions/*.py\<close>: the revisions that build the database, as programs of a small language of
  schema statements with an interpreter. A schema maps the names of tables to tables; a statement fails
  (\<open>None\<close>) where PostgreSQL refuses it: a table that exists already, a column, index or policy that
  does not. Every statement acts on one table, so a run of statements splits into runs on each table, which
  is how the theorems about all databases reduce to evaluations on the tables of the program.

  The dialect decides about the row policies, as in the code. \<open>batch_alter_table\<close> is a plain ALTER.
  Names of indexes are kept with their tables; that they are unique in the whole schema, which PostgreSQL
  asks for, is \<open>names_are_unique\<close>.
\<close>

subsection \<open>Schemas and statements\<close>

datatype sql_type =
    SqlUuid | SqlString nat | SqlNumeric nat nat | SqlDateTime | SqlEnum "string list" string nat
  | SqlInteger | SqlBigInteger | SqlBoolean

datatype sql_column = Column (column_name: string) (column_type: sql_type) (column_nullable: bool)

datatype sql_constraint = PrimaryKey "string list" | UniqueConstraint "string list" "string option"

datatype sql_index = Index (index_name: string) (index_columns: "string list") (index_unique: bool)

text \<open>The one predicate the policies use: a column equals a run-time setting,
  \<open>column = NULLIF(current_setting(setting, true), '')::uuid\<close>.\<close>

datatype sql_predicate = EqSetting string string

datatype sql_policy = Policy (policy_name: string) (policy_using: sql_predicate) (policy_check: sql_predicate)

record sql_table =
  columns :: "sql_column list"
  constraints :: "sql_constraint list"
  indexes :: "sql_index list"
  rls_enabled :: bool
  rls_forced :: bool
  policies :: "sql_policy list"

type_synonym schema = "string \<Rightarrow> sql_table option"

datatype ddl =
    CreateTable string "sql_column list" "sql_constraint list"
  | DropTable string
  | CreateIndex string string "string list" bool
  | DropIndex string string
  | AddColumn string sql_column
  | DropColumn string string
  | AlterType string string sql_type
  | EnableRowSecurity string
  | DisableRowSecurity string
  | ForceRowSecurity string
  | NoForceRowSecurity string
  | CreatePolicy string sql_policy
  | DropPolicyIfExists string string

fun table_of :: "ddl \<Rightarrow> string" where
  "table_of (CreateTable t cs ks) = t"
| "table_of (DropTable t) = t"
| "table_of (CreateIndex i t cs u) = t"
| "table_of (DropIndex i t) = t"
| "table_of (AddColumn t c) = t"
| "table_of (DropColumn t c) = t"
| "table_of (AlterType t c ty) = t"
| "table_of (EnableRowSecurity t) = t"
| "table_of (DisableRowSecurity t) = t"
| "table_of (ForceRowSecurity t) = t"
| "table_of (NoForceRowSecurity t) = t"
| "table_of (CreatePolicy t p) = t"
| "table_of (DropPolicyIfExists p t) = t"

fun constraint_columns :: "sql_constraint \<Rightarrow> string list" where
  "constraint_columns (PrimaryKey cs) = cs"
| "constraint_columns (UniqueConstraint cs n) = cs"

definition has_columns :: "sql_column list \<Rightarrow> string list \<Rightarrow> bool" where
  "has_columns cs ns \<longleftrightarrow> list_all (\<lambda>n. n \<in> set (map column_name cs)) ns"

text \<open>What a statement makes of an existing table.\<close>

fun change :: "ddl \<Rightarrow> sql_table \<Rightarrow> sql_table option" where
  "change (CreateTable t cs ks) r = None"
| "change (DropTable t) r = None"
| "change (CreateIndex i t cs u) r =
     (if i \<in> set (map index_name (indexes r)) \<or> \<not> has_columns (columns r) cs then None
      else Some (r\<lparr>indexes := indexes r @ [Index i cs u]\<rparr>))"
| "change (DropIndex i t) r =
     (if i \<in> set (map index_name (indexes r))
      then Some (r\<lparr>indexes := filter (\<lambda>x. index_name x \<noteq> i) (indexes r)\<rparr>) else None)"
| "change (AddColumn t c) r =
     (if column_name c \<in> set (map column_name (columns r)) then None
      else Some (r\<lparr>columns := columns r @ [c]\<rparr>))"
| "change (DropColumn t n) r =
     (if n \<in> set (map column_name (columns r))
      then Some (r\<lparr>columns := filter (\<lambda>c. column_name c \<noteq> n) (columns r),
                   constraints := filter (\<lambda>k. n \<notin> set (constraint_columns k)) (constraints r),
                   indexes := filter (\<lambda>i. n \<notin> set (index_columns i)) (indexes r)\<rparr>)
      else None)"
| "change (AlterType t n ty) r =
     (if n \<in> set (map column_name (columns r))
      then Some (r\<lparr>columns := map (\<lambda>c. if column_name c = n then Column n ty (column_nullable c) else c) (columns r)\<rparr>)
      else None)"
| "change (EnableRowSecurity t) r = Some (r\<lparr>rls_enabled := True\<rparr>)"
| "change (DisableRowSecurity t) r = Some (r\<lparr>rls_enabled := False\<rparr>)"
| "change (ForceRowSecurity t) r = Some (r\<lparr>rls_forced := True\<rparr>)"
| "change (NoForceRowSecurity t) r = Some (r\<lparr>rls_forced := False\<rparr>)"
| "change (CreatePolicy t p) r =
     (if policy_name p \<in> set (map policy_name (policies r)) then None
      else Some (r\<lparr>policies := policies r @ [p]\<rparr>))"
| "change (DropPolicyIfExists n t) r = Some (r\<lparr>policies := filter (\<lambda>p. policy_name p \<noteq> n) (policies r)\<rparr>)"

text \<open>What it makes of a place for a table: the new content, or \<open>None\<close> when it is refused.\<close>

fun alter :: "ddl \<Rightarrow> sql_table option \<Rightarrow> sql_table option option" where
  "alter (CreateTable t cs ks) None =
     (if distinct (map column_name cs) \<and> list_all (\<lambda>k. has_columns cs (constraint_columns k)) ks
      then Some (Some \<lparr>columns = cs, constraints = ks, indexes = [], rls_enabled = False, rls_forced = False,
                       policies = []\<rparr>)
      else None)"
| "alter (DropTable t) (Some r) = Some None"
| "alter d (Some r) = map_option Some (change d r)"
| "alter (DropPolicyIfExists n t) None = Some None"
| "alter d None = None"

definition execute :: "ddl \<Rightarrow> schema \<Rightarrow> schema option" where
  "execute d s = map_option (\<lambda>c. s(table_of d := c)) (alter d (s (table_of d)))"

fun run_ddl :: "ddl list \<Rightarrow> schema \<Rightarrow> schema option" where
  "run_ddl [] s = Some s"
| "run_ddl (d # ds) s = Option.bind (execute d s) (run_ddl ds)"

subsection \<open>The revisions\<close>

text \<open>The policy of 0002, repeated by 0003 and 0004.\<close>

definition PREDICATE :: sql_predicate where
  "PREDICATE = EqSetting ''tenant_id'' ''app.tenant_id''"

definition enable_row_policy :: "string \<Rightarrow> ddl list" where
  "enable_row_policy t =
     [EnableRowSecurity t, ForceRowSecurity t, CreatePolicy t (Policy ''tenant_isolation'' PREDICATE PREDICATE)]"

definition disable_row_policy :: "string \<Rightarrow> ddl list" where
  "disable_row_policy t =
     [DropPolicyIfExists ''tenant_isolation'' t, NoForceRowSecurity t, DisableRowSecurity t]"

definition upgrade_0001 :: "bool \<Rightarrow> ddl list" where
  "upgrade_0001 pg =
     [CreateTable ''payment_records''
        [Column ''id'' SqlUuid False,
         Column ''tenant_id'' SqlUuid False,
         Column ''user_id'' SqlUuid False,
         Column ''tx_hash'' (SqlString 255) False,
         Column ''amount'' (SqlNumeric 12 2) False,
         Column ''currency'' (SqlString 10) False,
         Column ''status'' (SqlString 50) False,
         Column ''created_at'' SqlDateTime False,
         Column ''updated_at'' SqlDateTime False]
        [PrimaryKey [''id'']],
      CreateIndex ''ix_payment_records_tenant_id'' ''payment_records'' [''tenant_id''] False,
      CreateIndex ''ix_payments_tenant_id_id'' ''payment_records'' [''tenant_id'', ''id''] False,
      CreateIndex ''ix_payments_tenant_user'' ''payment_records'' [''tenant_id'', ''user_id''] False]"

definition downgrade_0001 :: "bool \<Rightarrow> ddl list" where
  "downgrade_0001 pg =
     [DropIndex ''ix_payments_tenant_user'' ''payment_records'',
      DropIndex ''ix_payments_tenant_id_id'' ''payment_records'',
      DropIndex ''ix_payment_records_tenant_id'' ''payment_records'',
      DropTable ''payment_records'']"

definition TENANT_SCOPED_TABLES :: "string list" where
  "TENANT_SCOPED_TABLES = [''payment_records'']"

definition upgrade_0002 :: "bool \<Rightarrow> ddl list" where
  "upgrade_0002 pg = (if \<not> pg then [] else concat (map enable_row_policy TENANT_SCOPED_TABLES))"

definition downgrade_0002 :: "bool \<Rightarrow> ddl list" where
  "downgrade_0002 pg = (if \<not> pg then [] else concat (map disable_row_policy TENANT_SCOPED_TABLES))"

definition NEW_TENANT_SCOPED_TABLES :: "string list" where
  "NEW_TENANT_SCOPED_TABLES =
     [''provider_credentials'', ''referral_accounts'', ''referral_program_configs'', ''subscriptions'',
      ''telegram_bot_configs'', ''telegram_channels'', ''telegram_users'', ''trading_activity_snapshots'',
      ''vip_memberships'']"

text \<open>The enumerations, stored as strings of a given length.\<close>

definition providertype_enum :: "nat \<Rightarrow> sql_type" where
  "providertype_enum n = SqlEnum [''BITUNIX'', ''EPLANET'', ''TELEGRAM''] ''providertype'' n"

definition market_enum :: "nat \<Rightarrow> sql_type" where
  "market_enum n = SqlEnum [''CRYPTO'', ''FOREX''] ''market'' n"

definition referralaccountstatus_enum :: "nat \<Rightarrow> sql_type" where
  "referralaccountstatus_enum n = SqlEnum [''UNVERIFIED'', ''VERIFIED'', ''REJECTED''] ''referralaccountstatus'' n"

definition compliancestate_enum :: "nat \<Rightarrow> sql_type" where
  "compliancestate_enum n = SqlEnum [''COMPLIANT'', ''WARNING'', ''NON_COMPLIANT'', ''SUSPENDED'', ''REVOKED'', ''PROVIDER_UNAVAILABLE'', ''VERIFICATION_PENDING''] ''compliancestate'' n"

definition accesstype_enum :: "nat \<Rightarrow> sql_type" where
  "accesstype_enum n = SqlEnum [''REFERRAL'', ''PAID'', ''TRIAL''] ''accesstype'' n"

definition subscriptionstatus_enum :: "nat \<Rightarrow> sql_type" where
  "subscriptionstatus_enum n = SqlEnum [''PENDING'', ''ACTIVE'', ''EXPIRED'', ''CANCELLED''] ''subscriptionstatus'' n"

definition membershipstatus_enum :: "nat \<Rightarrow> sql_type" where
  "membershipstatus_enum n = SqlEnum [''PENDING'', ''INVITED'', ''ACTIVE'', ''SUSPENDED'', ''EXPIRED'', ''REVOKED''] ''membershipstatus'' n"

definition jobrunstate_enum :: "nat \<Rightarrow> sql_type" where
  "jobrunstate_enum n = SqlEnum [''RUNNING'', ''SUCCEEDED'', ''FAILED''] ''jobrunstate'' n"

definition upgrade_0003 :: "bool \<Rightarrow> ddl list" where
  "upgrade_0003 pg =
     [CreateTable ''provider_credentials''
        [Column ''provider_type'' (providertype_enum 32) False,
         Column ''credential_name'' (SqlString 100) False,
         Column ''encrypted_secret'' (SqlString 4096) False,
         Column ''last_four'' (SqlString 4) True,
         Column ''verified_at'' SqlDateTime True,
         Column ''tenant_id'' SqlUuid False,
         Column ''id'' SqlUuid False,
         Column ''created_at'' SqlDateTime False,
         Column ''updated_at'' SqlDateTime False]
        [PrimaryKey [''id''],
         UniqueConstraint [''tenant_id'', ''provider_type'', ''credential_name''] (Some ''uq_provider_credentials_tenant_provider_name'')],
      CreateIndex ''ix_provider_credentials_tenant_id'' ''provider_credentials'' [''tenant_id''] False,
      CreateTable ''referral_accounts''
        [Column ''user_id'' SqlUuid False,
         Column ''provider_type'' (providertype_enum 32) False,
         Column ''market'' (market_enum 16) False,
         Column ''uid'' (SqlString 128) False,
         Column ''status'' (referralaccountstatus_enum 32) False,
         Column ''compliance_state'' (compliancestate_enum 32) False,
         Column ''last_known_balance'' (SqlNumeric 30 8) True,
         Column ''last_checked_at'' SqlDateTime True,
         Column ''verified_at'' SqlDateTime True,
         Column ''rejection_reason'' (SqlString 500) True,
         Column ''tenant_id'' SqlUuid False,
         Column ''id'' SqlUuid False,
         Column ''created_at'' SqlDateTime False,
         Column ''updated_at'' SqlDateTime False]
        [PrimaryKey [''id''],
         UniqueConstraint [''tenant_id'', ''provider_type'', ''uid''] (Some ''uq_referral_accounts_tenant_provider_uid'')],
      CreateIndex ''ix_referral_accounts_tenant_id'' ''referral_accounts'' [''tenant_id''] False,
      CreateIndex ''ix_referral_accounts_tenant_user'' ''referral_accounts'' [''tenant_id'', ''user_id''] False,
      CreateTable ''referral_program_configs''
        [Column ''provider_type'' (providertype_enum 32) False,
         Column ''market'' (market_enum 16) False,
         Column ''referral_link'' (SqlString 500) False,
         Column ''ib_id'' (SqlString 100) True,
         Column ''minimum_balance'' (SqlNumeric 30 8) False,
         Column ''minimum_trades_per_period'' SqlInteger False,
         Column ''trade_period_days'' SqlInteger False,
         Column ''compliance_grace_period_days'' SqlInteger False,
         Column ''is_active'' SqlBoolean False,
         Column ''tenant_id'' SqlUuid False,
         Column ''id'' SqlUuid False,
         Column ''created_at'' SqlDateTime False,
         Column ''updated_at'' SqlDateTime False]
        [PrimaryKey [''id''],
         UniqueConstraint [''tenant_id'', ''provider_type'', ''market''] (Some ''uq_referral_config_tenant_provider_market'')],
      CreateIndex ''ix_referral_program_configs_tenant_id'' ''referral_program_configs'' [''tenant_id''] False,
      CreateTable ''subscriptions''
        [Column ''user_id'' SqlUuid False,
         Column ''market'' (market_enum 16) False,
         Column ''access_type'' (accesstype_enum 32) False,
         Column ''plan_code'' (SqlString 50) False,
         Column ''status'' (subscriptionstatus_enum 32) False,
         Column ''starts_at'' SqlDateTime True,
         Column ''ends_at'' SqlDateTime True,
         Column ''source_reference'' (SqlString 200) True,
         Column ''tenant_id'' SqlUuid False,
         Column ''id'' SqlUuid False,
         Column ''created_at'' SqlDateTime False,
         Column ''updated_at'' SqlDateTime False]
        [PrimaryKey [''id'']],
      CreateIndex ''ix_subscriptions_tenant_id'' ''subscriptions'' [''tenant_id''] False,
      CreateIndex ''ix_subscriptions_tenant_status'' ''subscriptions'' [''tenant_id'', ''status''] False,
      CreateIndex ''ix_subscriptions_tenant_user'' ''subscriptions'' [''tenant_id'', ''user_id''] False,
      CreateTable ''telegram_bot_configs''
        [Column ''credential_id'' SqlUuid False,
         Column ''bot_username'' (SqlString 100) True,
         Column ''verified_at'' SqlDateTime True,
         Column ''tenant_id'' SqlUuid False,
         Column ''id'' SqlUuid False,
         Column ''created_at'' SqlDateTime False,
         Column ''updated_at'' SqlDateTime False]
        [PrimaryKey [''id''],
         UniqueConstraint [''tenant_id''] (Some ''uq_telegram_bot_configs_tenant'')],
      CreateIndex ''ix_telegram_bot_configs_tenant_id'' ''telegram_bot_configs'' [''tenant_id''] False,
      CreateTable ''telegram_channels''
        [Column ''market'' (market_enum 16) False,
         Column ''chat_id'' SqlBigInteger False,
         Column ''title'' (SqlString 255) True,
         Column ''is_active'' SqlBoolean False,
         Column ''tenant_id'' SqlUuid False,
         Column ''id'' SqlUuid False,
         Column ''created_at'' SqlDateTime False,
         Column ''updated_at'' SqlDateTime False]
        [PrimaryKey [''id''],
         UniqueConstraint [''tenant_id'', ''chat_id''] (Some ''uq_telegram_channels_tenant_chat''),
         UniqueConstraint [''tenant_id'', ''market''] (Some ''uq_telegram_channels_tenant_market'')],
      CreateIndex ''ix_telegram_channels_tenant_id'' ''telegram_channels'' [''tenant_id''] False,
      CreateTable ''telegram_users''
        [Column ''telegram_user_id'' SqlBigInteger False,
         Column ''username'' (SqlString 100) True,
         Column ''first_name'' (SqlString 200) True,
         Column ''language_code'' (SqlString 16) True,
         Column ''tenant_id'' SqlUuid False,
         Column ''id'' SqlUuid False,
         Column ''created_at'' SqlDateTime False,
         Column ''updated_at'' SqlDateTime False]
        [PrimaryKey [''id''],
         UniqueConstraint [''tenant_id'', ''telegram_user_id''] (Some ''uq_telegram_users_tenant_tg_id'')],
      CreateIndex ''ix_telegram_users_tenant_id'' ''telegram_users'' [''tenant_id''] False,
      CreateTable ''tenants''
        [Column ''name'' (SqlString 200) False,
         Column ''slug'' (SqlString 100) False,
         Column ''is_active'' SqlBoolean False,
         Column ''id'' SqlUuid False,
         Column ''created_at'' SqlDateTime False,
         Column ''updated_at'' SqlDateTime False]
        [PrimaryKey [''id''],
         UniqueConstraint [''slug''] None],
      CreateTable ''trading_activity_snapshots''
        [Column ''referral_account_id'' SqlUuid False,
         Column ''period_start'' SqlDateTime False,
         Column ''period_end'' SqlDateTime False,
         Column ''qualifying_trades'' SqlInteger False,
         Column ''balance'' (SqlNumeric 30 8) True,
         Column ''still_under_referral'' SqlBoolean True,
         Column ''provider_state'' (compliancestate_enum 32) False,
         Column ''tenant_id'' SqlUuid False,
         Column ''id'' SqlUuid False,
         Column ''created_at'' SqlDateTime False,
         Column ''updated_at'' SqlDateTime False]
        [PrimaryKey [''id''],
         UniqueConstraint [''tenant_id'', ''referral_account_id'', ''period_start''] (Some ''uq_trading_snapshots_account_period'')],
      CreateIndex ''ix_trading_activity_snapshots_tenant_id'' ''trading_activity_snapshots'' [''tenant_id''] False,
      CreateTable ''vip_memberships''
        [Column ''user_id'' SqlUuid False,
         Column ''channel_id'' SqlUuid False,
         Column ''subscription_id'' SqlUuid True,
         Column ''status'' (membershipstatus_enum 32) False,
         Column ''invite_link'' (SqlString 500) True,
         Column ''invite_issued_at'' SqlDateTime True,
         Column ''joined_at'' SqlDateTime True,
         Column ''revoked_at'' SqlDateTime True,
         Column ''revocation_reason'' (SqlString 500) True,
         Column ''warnings_sent'' SqlInteger False,
         Column ''last_warning_at'' SqlDateTime True,
         Column ''tenant_id'' SqlUuid False,
         Column ''id'' SqlUuid False,
         Column ''created_at'' SqlDateTime False,
         Column ''updated_at'' SqlDateTime False]
        [PrimaryKey [''id''],
         UniqueConstraint [''tenant_id'', ''user_id'', ''channel_id''] (Some ''uq_vip_memberships_tenant_user_channel'')],
      CreateIndex ''ix_vip_memberships_tenant_id'' ''vip_memberships'' [''tenant_id''] False,
      CreateIndex ''ix_vip_memberships_tenant_status'' ''vip_memberships'' [''tenant_id'', ''status''] False,
      AlterType ''payment_records'' ''amount'' (SqlNumeric 30 8)] @
     (if pg then concat (map enable_row_policy NEW_TENANT_SCOPED_TABLES) else [])"

definition downgrade_0003 :: "bool \<Rightarrow> ddl list" where
  "downgrade_0003 pg =
     (if pg then concat (map disable_row_policy NEW_TENANT_SCOPED_TABLES) else []) @
     [AlterType ''payment_records'' ''amount'' (SqlNumeric 12 2),
      DropIndex ''ix_vip_memberships_tenant_status'' ''vip_memberships'',
      DropIndex ''ix_vip_memberships_tenant_id'' ''vip_memberships'',
      DropTable ''vip_memberships'',
      DropIndex ''ix_trading_activity_snapshots_tenant_id'' ''trading_activity_snapshots'',
      DropTable ''trading_activity_snapshots'',
      DropTable ''tenants'',
      DropIndex ''ix_telegram_users_tenant_id'' ''telegram_users'',
      DropTable ''telegram_users'',
      DropIndex ''ix_telegram_channels_tenant_id'' ''telegram_channels'',
      DropTable ''telegram_channels'',
      DropIndex ''ix_telegram_bot_configs_tenant_id'' ''telegram_bot_configs'',
      DropTable ''telegram_bot_configs'',
      DropIndex ''ix_subscriptions_tenant_user'' ''subscriptions'',
      DropIndex ''ix_subscriptions_tenant_status'' ''subscriptions'',
      DropIndex ''ix_subscriptions_tenant_id'' ''subscriptions'',
      DropTable ''subscriptions'',
      DropIndex ''ix_referral_program_configs_tenant_id'' ''referral_program_configs'',
      DropTable ''referral_program_configs'',
      DropIndex ''ix_referral_accounts_tenant_user'' ''referral_accounts'',
      DropIndex ''ix_referral_accounts_tenant_id'' ''referral_accounts'',
      DropTable ''referral_accounts'',
      DropIndex ''ix_provider_credentials_tenant_id'' ''provider_credentials'',
      DropTable ''provider_credentials'']"

definition upgrade_0004 :: "bool \<Rightarrow> ddl list" where
  "upgrade_0004 pg =
     [CreateTable ''job_executions''
        [Column ''job_name'' (SqlString 100) False,
         Column ''period_start'' SqlDateTime False,
         Column ''state'' (jobrunstate_enum 32) False,
         Column ''started_at'' SqlDateTime True,
         Column ''finished_at'' SqlDateTime True,
         Column ''processed'' SqlInteger False,
         Column ''warned'' SqlInteger False,
         Column ''revoked'' SqlInteger False,
         Column ''skipped_unavailable'' SqlInteger False,
         Column ''error'' (SqlString 1000) True,
         Column ''tenant_id'' SqlUuid False,
         Column ''id'' SqlUuid False,
         Column ''created_at'' SqlDateTime False,
         Column ''updated_at'' SqlDateTime False]
        [PrimaryKey [''id''],
         UniqueConstraint [''tenant_id'', ''job_name'', ''period_start''] (Some ''uq_job_executions_tenant_job_period'')],
      CreateIndex ''ix_job_executions_tenant_id'' ''job_executions'' [''tenant_id''] False] @
     (if pg then enable_row_policy ''job_executions'' else [])"

definition downgrade_0004 :: "bool \<Rightarrow> ddl list" where
  "downgrade_0004 pg =
     (if pg then disable_row_policy ''job_executions'' else []) @
     [DropIndex ''ix_job_executions_tenant_id'' ''job_executions'',
      DropTable ''job_executions'']"

definition upgrade_0005 :: "bool \<Rightarrow> ddl list" where
  "upgrade_0005 pg =
     [CreateTable ''webhook_routes''
        [Column ''token'' (SqlString 64) False,
         Column ''tenant_id'' SqlUuid False,
         Column ''provider'' (SqlString 32) False,
         Column ''id'' SqlUuid False,
         Column ''created_at'' SqlDateTime False,
         Column ''updated_at'' SqlDateTime False]
        [PrimaryKey [''id'']],
      CreateIndex ''ix_webhook_routes_tenant_id'' ''webhook_routes'' [''tenant_id''] False,
      CreateIndex ''ix_webhook_routes_token'' ''webhook_routes'' [''token''] True,
      AddColumn ''telegram_users'' (Column ''pending_market'' (market_enum 16) True)]"

definition downgrade_0005 :: "bool \<Rightarrow> ddl list" where
  "downgrade_0005 pg =
     [DropColumn ''telegram_users'' ''pending_market'',
      DropIndex ''ix_webhook_routes_token'' ''webhook_routes'',
      DropIndex ''ix_webhook_routes_tenant_id'' ''webhook_routes'',
      DropTable ''webhook_routes'']"

text \<open>The chain, each revision with the one it revises.\<close>

record revision =
  rev_id :: string
  down_revision :: "string option"
  upgrade :: "bool \<Rightarrow> ddl list"
  downgrade :: "bool \<Rightarrow> ddl list"

definition revisions :: "revision list" where
  "revisions =
     [\<lparr>rev_id = ''0001'', down_revision = None, upgrade = upgrade_0001, downgrade = downgrade_0001\<rparr>,
      \<lparr>rev_id = ''0002'', down_revision = Some ''0001'', upgrade = upgrade_0002, downgrade = downgrade_0002\<rparr>,
      \<lparr>rev_id = ''0003'', down_revision = Some ''0002'', upgrade = upgrade_0003, downgrade = downgrade_0003\<rparr>,
      \<lparr>rev_id = ''0004'', down_revision = Some ''0003'', upgrade = upgrade_0004, downgrade = downgrade_0004\<rparr>,
      \<lparr>rev_id = ''0005'', down_revision = Some ''0004'', upgrade = upgrade_0005, downgrade = downgrade_0005\<rparr>]"

text \<open>What Alembic runs to go from nothing to the \<open>k\<close>-th revision, and from the \<open>k + 1\<close>-st back to the
  \<open>k\<close>-th.\<close>

definition upgrades :: "bool \<Rightarrow> nat \<Rightarrow> ddl list" where
  "upgrades pg k = concat (map (\<lambda>r. upgrade r pg) (take k revisions))"

definition downgrade_step :: "bool \<Rightarrow> nat \<Rightarrow> ddl list" where
  "downgrade_step pg k = downgrade (revisions ! k) pg"

lemma revisions_linked:
  "map down_revision revisions = None # map (Some \<circ> rev_id) (butlast revisions)"
  by (simp add: revisions_def)

subsection \<open>A run on a listed schema\<close>

text \<open>The tables of the program as an association list, in a database that may hold others.\<close>

type_synonym listed = "(string \<times> sql_table) list"

fun replace_table :: "string \<Rightarrow> sql_table \<Rightarrow> listed \<Rightarrow> listed" where
  "replace_table t r [] = [(t, r)]"
| "replace_table t r (p # al) = (if fst p = t then (t, r) # al else p # replace_table t r al)"

fun put :: "string \<Rightarrow> sql_table option option \<Rightarrow> listed \<Rightarrow> listed option" where
  "put t None al = None"
| "put t (Some None) al = Some (filter (\<lambda>p. fst p \<noteq> t) al)"
| "put t (Some (Some r)) al = Some (replace_table t r al)"

fun execute_listed :: "ddl \<Rightarrow> listed option \<Rightarrow> listed option" where
  "execute_listed d None = None"
| "execute_listed d (Some al) = put (table_of d) (alter d (map_of al (table_of d))) al"

fun run_listed :: "ddl list \<Rightarrow> listed option \<Rightarrow> listed option" where
  "run_listed [] st = st"
| "run_listed (d # ds) st = run_listed ds (execute_listed d st)"

lemma run_listed_None: "run_listed ds None = None"
  by (induction ds) simp_all

lemma map_of_replace: "map_of (replace_table t r al) = (map_of al)(t \<mapsto> r)"
  by (induction al) (auto simp: fun_eq_iff)

lemma map_of_remove: "map_of (filter (\<lambda>p. fst p \<noteq> t) al) = (map_of al)(t := None)"
  by (induction al) (auto simp: fun_eq_iff)

lemma map_add_update: "s t = None \<Longrightarrow> (s ++ m)(t := c) = s ++ m(t := c)"
  by (cases c) (auto simp: fun_eq_iff map_add_def)

lemma map_add_absent: "s t = None \<Longrightarrow> (s ++ m) t = m t"
  by (simp add: map_add_def split: option.split)

lemma execute_listed:
  assumes "s (table_of d) = None"
  shows "execute d (s ++ map_of al) = map_option (\<lambda>al'. s ++ map_of al') (execute_listed d (Some al))"
proof -
  have "execute d (s ++ map_of al) =
      map_option (\<lambda>c. s ++ (map_of al)(table_of d := c)) (alter d (map_of al (table_of d)))"
    using assms by (simp add: execute_def map_add_absent map_add_update)
  also have "\<dots> = map_option (\<lambda>al'. s ++ map_of al') (put (table_of d) (alter d (map_of al (table_of d))) al)"
    by (cases "(table_of d, alter d (map_of al (table_of d)), al)" rule: put.cases)
      (simp_all add: map_of_replace map_of_remove)
  finally show ?thesis by simp
qed

lemma run_ddl_listed:
  assumes "list_all (\<lambda>d. s (table_of d) = None) ds"
  shows "run_ddl ds (s ++ map_of al) = map_option (\<lambda>al'. s ++ map_of al') (run_listed ds (Some al))"
  using assms
proof (induction ds arbitrary: al)
  case (Cons d ds)
  then have step: "execute d (s ++ map_of al) = map_option (\<lambda>al'. s ++ map_of al') (execute_listed d (Some al))"
    by (intro execute_listed) simp
  show ?case
  proof (cases "execute_listed d (Some al)")
    case None
    then show ?thesis using step by (simp add: run_listed_None del: execute_listed.simps)
  next
    case (Some al')
    then show ?thesis using step Cons by (simp del: execute_listed.simps)
  qed
qed simp

subsection \<open>Going back\<close>

text \<open>The tables of the program.\<close>

definition own_tables :: "string list" where
  "own_tables =
     TENANT_SCOPED_TABLES @ NEW_TENANT_SCOPED_TABLES @ [''tenants'', ''job_executions'', ''webhook_routes'']"

text \<open>Each revision runs, and its downgrade brings back what was there before it.\<close>

fun states :: "bool \<Rightarrow> revision list \<Rightarrow> listed option \<Rightarrow> listed option list" where
  "states pg [] st = [st]"
| "states pg (r # rs) st = st # states pg rs (run_listed (upgrade r pg) st)"

fun steps_back :: "bool \<Rightarrow> revision list \<Rightarrow> listed option list \<Rightarrow> bool" where
  "steps_back pg (r # rs) (a # b # sts) \<longleftrightarrow>
     b \<noteq> None \<and> run_listed (downgrade r pg) b = a \<and> steps_back pg rs (b # sts)"
| "steps_back pg rs sts \<longleftrightarrow> True"

lemma chain_steps_back_postgres: "steps_back True revisions (states True revisions (Some []))"
  by code_simp

lemma chain_steps_back_sqlite: "steps_back False revisions (states False revisions (Some []))"
  by code_simp

lemma run_listed_append: "run_listed (ds @ es) st = run_listed es (run_listed ds st)"
  by (induction ds arbitrary: st) simp_all

lemma states_Cons: "\<exists>sts. states pg rs st = st # sts"
  by (cases rs) simp_all

lemma steps_back_at:
  assumes "steps_back pg rs (states pg rs st)" and "st \<noteq> None" and "k < length rs"
  shows "run_listed (concat (map (\<lambda>r. upgrade r pg) (take k rs))) st \<noteq> None \<and>
    run_listed (concat (map (\<lambda>r. upgrade r pg) (take (Suc k) rs))) st \<noteq> None \<and>
    run_listed (downgrade (rs ! k) pg) (run_listed (concat (map (\<lambda>r. upgrade r pg) (take (Suc k) rs))) st) =
      run_listed (concat (map (\<lambda>r. upgrade r pg) (take k rs))) st"
  using assms
proof (induction rs arbitrary: k st)
  case (Cons r rs)
  let ?st = "run_listed (upgrade r pg) st"
  obtain sts where "states pg rs ?st = ?st # sts" using states_Cons by blast
  with Cons.prems(1) have step: "?st \<noteq> None" "run_listed (downgrade r pg) ?st = st" "steps_back pg rs (states pg rs ?st)"
    by simp_all
  with Cons.prems Cons.IH [of ?st "k - 1"] show ?case
    by (cases k) (simp_all add: run_listed_append)
qed simp

lemma chain_own:
  "list_all (\<lambda>r. list_all (\<lambda>d. table_of d \<in> set own_tables) (upgrade r True @ downgrade r True)) revisions"
  "list_all (\<lambda>r. list_all (\<lambda>d. table_of d \<in> set own_tables) (upgrade r False @ downgrade r False)) revisions"
  by code_simp+

lemma revision_own:
  assumes "r \<in> set revisions" and "d \<in> set (upgrade r pg) \<or> d \<in> set (downgrade r pg)"
  shows "table_of d \<in> set own_tables"
  using assms chain_own by (cases pg) (auto simp: list_all_iff)

lemma upgrades_own: "d \<in> set (upgrades pg k) \<Longrightarrow> table_of d \<in> set own_tables"
  by (auto simp: upgrades_def intro: revision_own dest: in_set_takeD)

lemma downgrade_own: "k < length revisions \<Longrightarrow> d \<in> set (downgrade_step pg k) \<Longrightarrow> table_of d \<in> set own_tables"
  unfolding downgrade_step_def using revision_own nth_mem by blast

text \<open>A database without the program's tables, upgraded.\<close>

lemma upgrades_listed:
  assumes "\<And>t. t \<in> set own_tables \<Longrightarrow> s t = None"
  shows "run_ddl (upgrades pg k) s = map_option (\<lambda>al. s ++ map_of al) (run_listed (upgrades pg k) (Some []))"
  using run_ddl_listed [of s "upgrades pg k" "[]"] upgrades_own assms by (auto simp: list_all_iff)

text \<open>C19. A downgrade undoes its upgrade: on every database that holds none of the program's tables, whatever
  else it holds, each revision can be applied after the ones before it, and taking it back leaves exactly
  the schema that was there before it, policies, indexes and column types included, on PostgreSQL and on
  SQLite.\<close>

theorem downgrade_undoes_upgrade:
  assumes "\<And>t. t \<in> set own_tables \<Longrightarrow> s t = None" and "k < length revisions"
  shows "\<exists>s0 s1. run_ddl (upgrades pg k) s = Some s0 \<and> run_ddl (upgrades pg (Suc k)) s = Some s1 \<and>
    run_ddl (downgrade_step pg k) s1 = Some s0"
proof -
  have "steps_back pg revisions (states pg revisions (Some []))"
    using chain_steps_back_postgres chain_steps_back_sqlite by (cases pg) simp_all
  from steps_back_at [OF this _ assms(2)] obtain al al' where
    al: "run_listed (upgrades pg k) (Some []) = Some al" "run_listed (upgrades pg (Suc k)) (Some []) = Some al'"
      "run_listed (downgrade_step pg k) (Some al') = Some al"
    by (auto simp: upgrades_def downgrade_step_def)
  have "run_ddl (downgrade_step pg k) (s ++ map_of al') = Some (s ++ map_of al)"
    using run_ddl_listed [of s "downgrade_step pg k" al'] downgrade_own [OF assms(2)] assms(1) al(3)
    by (auto simp: list_all_iff)
  with al(1,2) upgrades_listed [OF assms(1)] show ?thesis by auto
qed

theorem downgrade_undoes_upgrade_witness:
  "\<exists>s0 s1. run_ddl (upgrades True 2) Map.empty = Some s0 \<and> run_ddl (upgrades True 3) Map.empty = Some s1 \<and>
     run_ddl (downgrade_step True 2) s1 = Some s0"
  using downgrade_undoes_upgrade [of Map.empty 2 True] by (simp add: revisions_def numeral_3_eq_3)

end
