(* ===== verification/Schema.thy ===== *)
theory Schema
  imports Migrations
begin

text \<open>
  The schema as the models of \<open>app/adapters/persistence/models\<close> declare it, and how it meets the migrations
  on one side and the tables of the session model on the other: the migrations build what the models declare,
  every row the program can make fits the columns, and the unique constraints and row policies that are built
  are the ones \<open>Session\<close> enforces.
\<close>

subsection \<open>What the models declare\<close>

definition entity_columns :: "sql_column list" where
  "entity_columns =
     [Column ''id'' SqlUuid False, Column ''created_at'' SqlDateTime False, Column ''updated_at'' SqlDateTime False]"

definition entity_model :: "string \<Rightarrow> sql_column list \<Rightarrow> sql_constraint list \<Rightarrow> sql_index list \<Rightarrow> sql_table" where
  "entity_model t cs ks ixs =
     \<lparr>columns = cs @ entity_columns, constraints = PrimaryKey [''id''] # ks, indexes = ixs,
      rls_enabled = False, rls_forced = False, policies = []\<rparr>"

text \<open>\<open>TenantScoped\<close> brings its indexed column along.\<close>

definition scoped_model :: "string \<Rightarrow> sql_column list \<Rightarrow> sql_constraint list \<Rightarrow> sql_index list \<Rightarrow> sql_table" where
  "scoped_model t cs ks ixs =
     entity_model t (cs @ [Column ''tenant_id'' SqlUuid False]) ks
       (Index (''ix_'' @ t @ ''_tenant_id'') [''tenant_id''] False # ixs)"

definition tenants_model :: sql_table where
  "tenants_model = entity_model ''tenants''
     [Column ''name'' (SqlString 200) False,
      Column ''slug'' (SqlString 100) False,
      Column ''is_active'' SqlBoolean False]
     [UniqueConstraint [''slug''] None]
     []"

definition provider_credentials_model :: sql_table where
  "provider_credentials_model = scoped_model ''provider_credentials''
     [Column ''provider_type'' (providertype_enum 32) False,
      Column ''credential_name'' (SqlString 100) False,
      Column ''encrypted_secret'' (SqlString 4096) False,
      Column ''last_four'' (SqlString 4) True,
      Column ''verified_at'' SqlDateTime True]
     [UniqueConstraint [''tenant_id'', ''provider_type'', ''credential_name''] (Some ''uq_provider_credentials_tenant_provider_name'')]
     []"

definition referral_program_configs_model :: sql_table where
  "referral_program_configs_model = scoped_model ''referral_program_configs''
     [Column ''provider_type'' (providertype_enum 32) False,
      Column ''market'' (market_enum 16) False,
      Column ''referral_link'' (SqlString 500) False,
      Column ''ib_id'' (SqlString 100) True,
      Column ''minimum_balance'' (SqlNumeric 30 8) False,
      Column ''minimum_trades_per_period'' SqlInteger False,
      Column ''trade_period_days'' SqlInteger False,
      Column ''compliance_grace_period_days'' SqlInteger False,
      Column ''is_active'' SqlBoolean False]
     [UniqueConstraint [''tenant_id'', ''provider_type'', ''market''] (Some ''uq_referral_config_tenant_provider_market'')]
     []"

definition telegram_channels_model :: sql_table where
  "telegram_channels_model = scoped_model ''telegram_channels''
     [Column ''market'' (market_enum 16) False,
      Column ''chat_id'' SqlBigInteger False,
      Column ''title'' (SqlString 255) True,
      Column ''is_active'' SqlBoolean False]
     [UniqueConstraint [''tenant_id'', ''market''] (Some ''uq_telegram_channels_tenant_market''),
      UniqueConstraint [''tenant_id'', ''chat_id''] (Some ''uq_telegram_channels_tenant_chat'')]
     []"

definition telegram_bot_configs_model :: sql_table where
  "telegram_bot_configs_model = scoped_model ''telegram_bot_configs''
     [Column ''credential_id'' SqlUuid False,
      Column ''bot_username'' (SqlString 100) True,
      Column ''verified_at'' SqlDateTime True]
     [UniqueConstraint [''tenant_id''] (Some ''uq_telegram_bot_configs_tenant'')]
     []"

definition telegram_users_model :: sql_table where
  "telegram_users_model = scoped_model ''telegram_users''
     [Column ''telegram_user_id'' SqlBigInteger False,
      Column ''pending_market'' (market_enum 16) True,
      Column ''username'' (SqlString 100) True,
      Column ''first_name'' (SqlString 200) True,
      Column ''language_code'' (SqlString 16) True]
     [UniqueConstraint [''tenant_id'', ''telegram_user_id''] (Some ''uq_telegram_users_tenant_tg_id'')]
     []"

definition referral_accounts_model :: sql_table where
  "referral_accounts_model = scoped_model ''referral_accounts''
     [Column ''user_id'' SqlUuid False,
      Column ''provider_type'' (providertype_enum 32) False,
      Column ''market'' (market_enum 16) False,
      Column ''uid'' (SqlString 128) False,
      Column ''status'' (referralaccountstatus_enum 32) False,
      Column ''compliance_state'' (compliancestate_enum 32) False,
      Column ''last_known_balance'' (SqlNumeric 30 8) True,
      Column ''last_checked_at'' SqlDateTime True,
      Column ''verified_at'' SqlDateTime True,
      Column ''rejection_reason'' (SqlString 500) True]
     [UniqueConstraint [''tenant_id'', ''provider_type'', ''uid''] (Some ''uq_referral_accounts_tenant_provider_uid'')]
     [Index ''ix_referral_accounts_tenant_user'' [''tenant_id'', ''user_id''] False]"

definition subscriptions_model :: sql_table where
  "subscriptions_model = scoped_model ''subscriptions''
     [Column ''user_id'' SqlUuid False,
      Column ''market'' (market_enum 16) False,
      Column ''access_type'' (accesstype_enum 32) False,
      Column ''plan_code'' (SqlString 50) False,
      Column ''status'' (subscriptionstatus_enum 32) False,
      Column ''starts_at'' SqlDateTime True,
      Column ''ends_at'' SqlDateTime True,
      Column ''source_reference'' (SqlString 200) True]
     []
     [Index ''ix_subscriptions_tenant_user'' [''tenant_id'', ''user_id''] False,
      Index ''ix_subscriptions_tenant_status'' [''tenant_id'', ''status''] False]"

definition vip_memberships_model :: sql_table where
  "vip_memberships_model = scoped_model ''vip_memberships''
     [Column ''user_id'' SqlUuid False,
      Column ''channel_id'' SqlUuid False,
      Column ''subscription_id'' SqlUuid True,
      Column ''status'' (membershipstatus_enum 32) False,
      Column ''invite_link'' (SqlString 500) True,
      Column ''invite_issued_at'' SqlDateTime True,
      Column ''joined_at'' SqlDateTime True,
      Column ''revoked_at'' SqlDateTime True,
      Column ''revocation_reason'' (SqlString 500) True,
      Column ''warnings_sent'' SqlInteger False,
      Column ''last_warning_at'' SqlDateTime True]
     [UniqueConstraint [''tenant_id'', ''user_id'', ''channel_id''] (Some ''uq_vip_memberships_tenant_user_channel'')]
     [Index ''ix_vip_memberships_tenant_status'' [''tenant_id'', ''status''] False]"

definition trading_activity_snapshots_model :: sql_table where
  "trading_activity_snapshots_model = scoped_model ''trading_activity_snapshots''
     [Column ''referral_account_id'' SqlUuid False,
      Column ''period_start'' SqlDateTime False,
      Column ''period_end'' SqlDateTime False,
      Column ''qualifying_trades'' SqlInteger False,
      Column ''balance'' (SqlNumeric 30 8) True,
      Column ''still_under_referral'' SqlBoolean True,
      Column ''provider_state'' (compliancestate_enum 32) False]
     [UniqueConstraint [''tenant_id'', ''referral_account_id'', ''period_start''] (Some ''uq_trading_snapshots_account_period'')]
     []"

definition job_executions_model :: sql_table where
  "job_executions_model = scoped_model ''job_executions''
     [Column ''job_name'' (SqlString 100) False,
      Column ''period_start'' SqlDateTime False,
      Column ''state'' (jobrunstate_enum 32) False,
      Column ''started_at'' SqlDateTime True,
      Column ''finished_at'' SqlDateTime True,
      Column ''processed'' SqlInteger False,
      Column ''warned'' SqlInteger False,
      Column ''revoked'' SqlInteger False,
      Column ''skipped_unavailable'' SqlInteger False,
      Column ''error'' (SqlString 1000) True]
     [UniqueConstraint [''tenant_id'', ''job_name'', ''period_start''] (Some ''uq_job_executions_tenant_job_period'')]
     []"

definition payment_records_model :: sql_table where
  "payment_records_model = scoped_model ''payment_records''
     [Column ''user_id'' SqlUuid False,
      Column ''tx_hash'' (SqlString 255) False,
      Column ''amount'' (SqlNumeric 30 8) False,
      Column ''currency'' (SqlString 10) False,
      Column ''status'' (SqlString 50) False]
     []
     [Index ''ix_payments_tenant_id_id'' [''tenant_id'', ''id''] False,
      Index ''ix_payments_tenant_user'' [''tenant_id'', ''user_id''] False]"

definition webhook_routes_model :: sql_table where
  "webhook_routes_model = entity_model ''webhook_routes''
     [Column ''token'' (SqlString 64) False,
      Column ''tenant_id'' SqlUuid False,
      Column ''provider'' (SqlString 32) False]
     []
     [Index ''ix_webhook_routes_token'' [''token''] True,
      Index ''ix_webhook_routes_tenant_id'' [''tenant_id''] False]"

definition model_tables :: listed where
  "model_tables =
     [(''tenants'', tenants_model),
      (''provider_credentials'', provider_credentials_model),
      (''referral_program_configs'', referral_program_configs_model),
      (''telegram_channels'', telegram_channels_model),
      (''telegram_bot_configs'', telegram_bot_configs_model),
      (''telegram_users'', telegram_users_model),
      (''referral_accounts'', referral_accounts_model),
      (''subscriptions'', subscriptions_model),
      (''vip_memberships'', vip_memberships_model),
      (''trading_activity_snapshots'', trading_activity_snapshots_model),
      (''job_executions'', job_executions_model),
      (''payment_records'', payment_records_model),
      (''webhook_routes'', webhook_routes_model)]"

subsection \<open>What the migrations build\<close>

text \<open>The same tables; the migrations list the columns, constraints and indexes of five of them in another
  order. On PostgreSQL the tenants' tables are secured.\<close>

definition secured :: "bool \<Rightarrow> sql_table \<Rightarrow> sql_table" where
  "secured pg r =
     (if pg then r\<lparr>rls_enabled := True, rls_forced := True,
                   policies := [Policy ''tenant_isolation'' PREDICATE PREDICATE]\<rparr> else r)"

definition payment_columns :: "sql_column list" where
  "payment_columns =
     [Column ''id'' SqlUuid False, Column ''tenant_id'' SqlUuid False, Column ''user_id'' SqlUuid False,
      Column ''tx_hash'' (SqlString 255) False, Column ''amount'' (SqlNumeric 30 8) False,
      Column ''currency'' (SqlString 10) False, Column ''status'' (SqlString 50) False,
      Column ''created_at'' SqlDateTime False, Column ''updated_at'' SqlDateTime False]"

definition user_columns :: "sql_column list" where
  "user_columns =
     [Column ''telegram_user_id'' SqlBigInteger False, Column ''username'' (SqlString 100) True,
      Column ''first_name'' (SqlString 200) True, Column ''language_code'' (SqlString 16) True,
      Column ''tenant_id'' SqlUuid False] @ entity_columns @ [Column ''pending_market'' (market_enum 16) True]"

definition channel_constraints :: "sql_constraint list" where
  "channel_constraints =
     [PrimaryKey [''id''],
      UniqueConstraint [''tenant_id'', ''chat_id''] (Some ''uq_telegram_channels_tenant_chat''),
      UniqueConstraint [''tenant_id'', ''market''] (Some ''uq_telegram_channels_tenant_market'')]"

definition subscription_indexes :: "sql_index list" where
  "subscription_indexes =
     [Index ''ix_subscriptions_tenant_id'' [''tenant_id''] False,
      Index ''ix_subscriptions_tenant_status'' [''tenant_id'', ''status''] False,
      Index ''ix_subscriptions_tenant_user'' [''tenant_id'', ''user_id''] False]"

definition route_indexes :: "sql_index list" where
  "route_indexes =
     [Index ''ix_webhook_routes_tenant_id'' [''tenant_id''] False,
      Index ''ix_webhook_routes_token'' [''token''] True]"

definition head_schema :: "bool \<Rightarrow> listed" where
  "head_schema pg =
     [(''payment_records'', secured pg (payment_records_model\<lparr>columns := payment_columns\<rparr>)),
      (''provider_credentials'', secured pg provider_credentials_model),
      (''referral_accounts'', secured pg referral_accounts_model),
      (''referral_program_configs'', secured pg referral_program_configs_model),
      (''subscriptions'', secured pg (subscriptions_model\<lparr>indexes := subscription_indexes\<rparr>)),
      (''telegram_bot_configs'', secured pg telegram_bot_configs_model),
      (''telegram_channels'', secured pg (telegram_channels_model\<lparr>constraints := channel_constraints\<rparr>)),
      (''telegram_users'', secured pg (telegram_users_model\<lparr>columns := user_columns\<rparr>)),
      (''tenants'', tenants_model),
      (''trading_activity_snapshots'', secured pg trading_activity_snapshots_model),
      (''vip_memberships'', secured pg vip_memberships_model),
      (''job_executions'', secured pg job_executions_model),
      (''webhook_routes'', webhook_routes_model\<lparr>indexes := route_indexes\<rparr>)]"

lemma head_postgres: "run_listed (upgrades True 5) (Some []) = Some (head_schema True)"
  by code_simp

lemma head_sqlite: "run_listed (upgrades False 5) (Some []) = Some (head_schema False)"
  by code_simp

lemma head_of:
  assumes "run_ddl (upgrades pg 5) s = Some s'" and "\<And>t. t \<in> set own_tables \<Longrightarrow> s t = None"
  shows "s' = s ++ map_of (head_schema pg)"
proof -
  have "run_listed (upgrades pg 5) (Some []) = Some (head_schema pg)"
    using head_postgres head_sqlite by (cases pg) simp_all
  with assms upgrades_listed [of s pg 5] show ?thesis by simp
qed

end
