(* ===== verification/SchemaRows.thy ===== *)
theory SchemaRows
  imports Schema
begin

text \<open>
  The rows of the program in the columns of the schema. Each \<open>_row\<close> function is the mapping of a model's
  attributes to its columns (\<open>updated_at\<close> apart); enumerations are stored by the names of their members.
\<close>

subsection \<open>Values\<close>

datatype sql_value =
    VNull | VUuid uuid | VText ustr | VInt int | VDecimal decimal | VTime datetime | VBool bool | VEnum string

fun sql_opt :: "('a \<Rightarrow> sql_value) \<Rightarrow> 'a option \<Rightarrow> sql_value" where
  "sql_opt f None = VNull"
| "sql_opt f (Some x) = f x"

type_synonym sql_row = "(string \<times> sql_value) list"

text \<open>Whether a value is of a column's kind; lengths and precisions are not looked at.\<close>

fun fits_type :: "sql_type \<Rightarrow> sql_value \<Rightarrow> bool" where
  "fits_type SqlUuid (VUuid u) = True"
| "fits_type (SqlString n) (VText s) = True"
| "fits_type (SqlNumeric p q) (VDecimal d) = True"
| "fits_type SqlDateTime (VTime d) = True"
| "fits_type (SqlEnum names n k) (VEnum s) = (s \<in> set names \<and> length s \<le> k)"
| "fits_type SqlInteger (VInt i) = True"
| "fits_type SqlBigInteger (VInt i) = True"
| "fits_type SqlBoolean (VBool b) = True"
| "fits_type ty v = False"

definition fits :: "sql_column \<Rightarrow> sql_value \<Rightarrow> bool" where
  "fits c v \<longleftrightarrow> (if v = VNull then column_nullable c else fits_type (column_type c) v)"

fun fits_cell :: "sql_column \<Rightarrow> sql_value option \<Rightarrow> bool" where
  "fits_cell c None = (column_name c = ''updated_at'')"
| "fits_cell c (Some v) = fits c v"

text \<open>A row fits a table: each column gets a value of its kind, and there is no value without a column.\<close>

definition fits_table :: "sql_table option \<Rightarrow> sql_row \<Rightarrow> bool" where
  "fits_table t row \<longleftrightarrow> (case t of None \<Rightarrow> False
     | Some r \<Rightarrow> list_all (\<lambda>c. fits_cell c (map_of row (column_name c))) (columns r) \<and>
         list_all (\<lambda>p. fst p \<in> set (map column_name (columns r))) row)"

subsection \<open>Names of the members of the enumerations\<close>

fun market_name :: "market \<Rightarrow> string" where
  "market_name CRYPTO = ''CRYPTO''"
| "market_name FOREX = ''FOREX''"

fun provider_type_name :: "provider_type \<Rightarrow> string" where
  "provider_type_name BITUNIX = ''BITUNIX''"
| "provider_type_name EPLANET = ''EPLANET''"
| "provider_type_name TELEGRAM = ''TELEGRAM''"

fun account_status_name :: "referral_account_status \<Rightarrow> string" where
  "account_status_name UNVERIFIED = ''UNVERIFIED''"
| "account_status_name VERIFIED = ''VERIFIED''"
| "account_status_name REJECTED = ''REJECTED''"

fun compliance_state_name :: "compliance_state \<Rightarrow> string" where
  "compliance_state_name CS_COMPLIANT = ''COMPLIANT''"
| "compliance_state_name CS_WARNING = ''WARNING''"
| "compliance_state_name CS_NON_COMPLIANT = ''NON_COMPLIANT''"
| "compliance_state_name CS_SUSPENDED = ''SUSPENDED''"
| "compliance_state_name CS_REVOKED = ''REVOKED''"
| "compliance_state_name CS_PROVIDER_UNAVAILABLE = ''PROVIDER_UNAVAILABLE''"
| "compliance_state_name CS_VERIFICATION_PENDING = ''VERIFICATION_PENDING''"

fun access_type_name :: "access_type \<Rightarrow> string" where
  "access_type_name AT_REFERRAL = ''REFERRAL''"
| "access_type_name AT_PAID = ''PAID''"
| "access_type_name AT_TRIAL = ''TRIAL''"

fun subscription_status_name :: "subscription_status \<Rightarrow> string" where
  "subscription_status_name SS_PENDING = ''PENDING''"
| "subscription_status_name SS_ACTIVE = ''ACTIVE''"
| "subscription_status_name SS_EXPIRED = ''EXPIRED''"
| "subscription_status_name SS_CANCELLED = ''CANCELLED''"

fun membership_status_name :: "membership_status \<Rightarrow> string" where
  "membership_status_name MS_PENDING = ''PENDING''"
| "membership_status_name MS_INVITED = ''INVITED''"
| "membership_status_name MS_ACTIVE = ''ACTIVE''"
| "membership_status_name MS_SUSPENDED = ''SUSPENDED''"
| "membership_status_name MS_EXPIRED = ''EXPIRED''"
| "membership_status_name MS_REVOKED = ''REVOKED''"

fun job_run_state_name :: "job_run_state \<Rightarrow> string" where
  "job_run_state_name RUNNING = ''RUNNING''"
| "job_run_state_name SUCCEEDED = ''SUCCEEDED''"
| "job_run_state_name FAILED = ''FAILED''"

subsection \<open>Rows\<close>

definition entity_row :: "'a entity_scheme \<Rightarrow> sql_row" where
  "entity_row x = [(''id'', VUuid (row_id x)), (''created_at'', VTime (created_at x))]"

definition scoped_row :: "'a scoped_scheme \<Rightarrow> sql_row" where
  "scoped_row x = (''tenant_id'', VUuid (tenant_id x)) # entity_row x"

definition tenant_row :: "tenant \<Rightarrow> sql_row" where
  "tenant_row x = [(''name'', VText (tenant_name x)), (''slug'', VText (slug x)),
     (''is_active'', VBool (tenant_is_active x))] @ entity_row x"

definition telegram_user_row :: "telegram_user \<Rightarrow> sql_row" where
  "telegram_user_row x =
     [(''telegram_user_id'', VInt (telegram_user_id x)),
      (''pending_market'', sql_opt (\<lambda>m. VEnum (market_name m)) (pending_market x)),
      (''username'', sql_opt VText (username x)), (''first_name'', sql_opt VText (first_name x)),
      (''language_code'', sql_opt VText (language_code x))] @ scoped_row x"

definition referral_account_row :: "referral_account \<Rightarrow> sql_row" where
  "referral_account_row x =
     [(''user_id'', VUuid (acc_user_id x)), (''provider_type'', VEnum (provider_type_name (acc_provider_type x))),
      (''market'', VEnum (market_name (acc_market x))), (''uid'', VText (uid x)),
      (''status'', VEnum (account_status_name (acc_status x))),
      (''compliance_state'', VEnum (compliance_state_name (compliance_state x))),
      (''last_known_balance'', sql_opt VDecimal (last_known_balance x)),
      (''last_checked_at'', sql_opt VTime (last_checked_at x)), (''verified_at'', sql_opt VTime (verified_at x)),
      (''rejection_reason'', sql_opt VText (rejection_reason x))] @ scoped_row x"

definition subscription_row :: "subscription \<Rightarrow> sql_row" where
  "subscription_row x =
     [(''user_id'', VUuid (sub_user_id x)), (''market'', VEnum (market_name (sub_market x))),
      (''access_type'', VEnum (access_type_name (access_type x))), (''plan_code'', VText (plan_code x)),
      (''status'', VEnum (subscription_status_name (sub_status x))),
      (''starts_at'', sql_opt VTime (starts_at x)), (''ends_at'', sql_opt VTime (ends_at x)),
      (''source_reference'', sql_opt VText (source_reference x))] @ scoped_row x"

definition vip_membership_row :: "vip_membership \<Rightarrow> sql_row" where
  "vip_membership_row x =
     [(''user_id'', VUuid (mem_user_id x)), (''channel_id'', VUuid (channel_id x)),
      (''subscription_id'', sql_opt VUuid (subscription_id x)),
      (''status'', VEnum (membership_status_name (mem_status x))),
      (''invite_link'', sql_opt VText (invite_link x)),
      (''invite_issued_at'', sql_opt VTime (invite_issued_at x)), (''joined_at'', sql_opt VTime (joined_at x)),
      (''revoked_at'', sql_opt VTime (revoked_at x)),
      (''revocation_reason'', sql_opt VText (revocation_reason x)), (''warnings_sent'', VInt (warnings_sent x)),
      (''last_warning_at'', sql_opt VTime (last_warning_at x))] @ scoped_row x"

definition snapshot_row :: "trading_activity_snapshot \<Rightarrow> sql_row" where
  "snapshot_row x =
     [(''referral_account_id'', VUuid (referral_account_id x)), (''period_start'', VTime (snap_period_start x)),
      (''period_end'', VTime (snap_period_end x)), (''qualifying_trades'', VInt (snap_qualifying_trades x)),
      (''balance'', sql_opt VDecimal (snap_balance x)),
      (''still_under_referral'', sql_opt VBool (still_under_referral x)),
      (''provider_state'', VEnum (compliance_state_name (provider_state x)))] @ scoped_row x"

definition job_execution_row :: "job_execution \<Rightarrow> sql_row" where
  "job_execution_row x =
     [(''job_name'', VText (job_name x)), (''period_start'', VTime (job_period_start x)),
      (''state'', VEnum (job_run_state_name (job_state x))),
      (''started_at'', sql_opt VTime (started_at x)), (''finished_at'', sql_opt VTime (finished_at x)),
      (''processed'', VInt (job_processed x)), (''warned'', VInt (job_warned x)), (''revoked'', VInt (job_revoked x)),
      (''skipped_unavailable'', VInt (job_skipped_unavailable x)),
      (''error'', sql_opt VText (job_error x))] @ scoped_row x"

definition referral_program_config_row :: "referral_program_config \<Rightarrow> sql_row" where
  "referral_program_config_row x =
     [(''provider_type'', VEnum (provider_type_name (cfg_provider_type x))),
      (''market'', VEnum (market_name (cfg_market x))), (''referral_link'', VText (referral_link x)),
      (''ib_id'', sql_opt VText (ib_id x)), (''minimum_balance'', VDecimal (cfg_minimum_balance x)),
      (''minimum_trades_per_period'', VInt (cfg_minimum_trades_per_period x)),
      (''trade_period_days'', VInt (cfg_trade_period_days x)),
      (''compliance_grace_period_days'', VInt (compliance_grace_period_days x)),
      (''is_active'', VBool (cfg_is_active x))] @ scoped_row x"

definition telegram_channel_row :: "telegram_channel \<Rightarrow> sql_row" where
  "telegram_channel_row x =
     [(''market'', VEnum (market_name (ch_market x))), (''chat_id'', VInt (chat_id x)),
      (''title'', sql_opt VText (title x)), (''is_active'', VBool (ch_is_active x))] @ scoped_row x"

definition telegram_bot_config_row :: "telegram_bot_config \<Rightarrow> sql_row" where
  "telegram_bot_config_row x =
     [(''credential_id'', VUuid (credential_id x)), (''bot_username'', sql_opt VText (bot_username x)),
      (''verified_at'', sql_opt VTime (bot_verified_at x))] @ scoped_row x"

definition provider_credential_row :: "provider_credential \<Rightarrow> sql_row" where
  "provider_credential_row x =
     [(''provider_type'', VEnum (provider_type_name (cred_provider_type x))),
      (''credential_name'', VText (credential_name x)), (''encrypted_secret'', VText (encrypted_secret x)),
      (''last_four'', sql_opt VText (cred_last_four x)), (''verified_at'', sql_opt VTime (cred_verified_at x))] @ scoped_row x"

definition payment_row :: "payment_record \<Rightarrow> sql_row" where
  "payment_row x =
     [(''user_id'', VUuid (pay_user_id x)), (''tx_hash'', VText (tx_hash x)), (''amount'', VDecimal (amount x)),
      (''currency'', VText (currency x)), (''status'', VText (pay_status x))] @ scoped_row x"

definition webhook_route_row :: "webhook_route \<Rightarrow> sql_row" where
  "webhook_route_row x =
     [(''token'', VText (token x)), (''tenant_id'', VUuid (route_tenant_id x)), (''provider'', VText (provider x))]
       @ entity_row x"

lemmas row_defs =
  tenant_row_def telegram_user_row_def referral_account_row_def subscription_row_def vip_membership_row_def
  snapshot_row_def job_execution_row_def referral_program_config_row_def telegram_channel_row_def
  telegram_bot_config_row_def provider_credential_row_def payment_row_def webhook_route_row_def
  scoped_row_def entity_row_def

subsection \<open>Rows fit the schema\<close>

text \<open>A nullable column takes whatever an optional attribute holds.\<close>

lemma fits_opt:
  "(\<And>y. f y \<noteq> VNull \<and> fits_type ty (f y)) \<Longrightarrow> fits (Column n ty True) (sql_opt f x)"
  by (cases x) (simp_all add: fits_def)

lemma fits_plain: "v \<noteq> VNull \<Longrightarrow> fits_type ty v \<Longrightarrow> fits (Column n ty nl) v"
  by (simp add: fits_def)

lemma enum_members:
  "fits_type (market_enum 16) (VEnum (market_name m))"
  "fits_type (providertype_enum 32) (VEnum (provider_type_name p))"
  "fits_type (referralaccountstatus_enum 32) (VEnum (account_status_name a))"
  "fits_type (compliancestate_enum 32) (VEnum (compliance_state_name c))"
  "fits_type (accesstype_enum 32) (VEnum (access_type_name x))"
  "fits_type (subscriptionstatus_enum 32) (VEnum (subscription_status_name s))"
  "fits_type (membershipstatus_enum 32) (VEnum (membership_status_name b))"
  "fits_type (jobrunstate_enum 32) (VEnum (job_run_state_name j))"
proof -
  show "fits_type (market_enum 16) (VEnum (market_name m))" by (cases m) (simp_all add: market_enum_def)
  show "fits_type (providertype_enum 32) (VEnum (provider_type_name p))"
    by (cases p) (simp_all add: providertype_enum_def)
  show "fits_type (referralaccountstatus_enum 32) (VEnum (account_status_name a))"
    by (cases a) (simp_all add: referralaccountstatus_enum_def)
  show "fits_type (compliancestate_enum 32) (VEnum (compliance_state_name c))"
    by (cases c) (simp_all add: compliancestate_enum_def)
  show "fits_type (accesstype_enum 32) (VEnum (access_type_name x))" by (cases x) (simp_all add: accesstype_enum_def)
  show "fits_type (subscriptionstatus_enum 32) (VEnum (subscription_status_name s))"
    by (cases s) (simp_all add: subscriptionstatus_enum_def)
  show "fits_type (membershipstatus_enum 32) (VEnum (membership_status_name b))"
    by (cases b) (simp_all add: membershipstatus_enum_def)
  show "fits_type (jobrunstate_enum 32) (VEnum (job_run_state_name j))"
    by (cases j) (simp_all add: jobrunstate_enum_def)
qed

lemma secured_columns [simp]: "columns (secured pg r) = columns r" "constraints (secured pg r) = constraints r"
  "indexes (secured pg r) = indexes r"
  by (simp_all add: secured_def)

lemmas model_defs =
  tenants_model_def provider_credentials_model_def referral_program_configs_model_def telegram_channels_model_def
  telegram_bot_configs_model_def telegram_users_model_def referral_accounts_model_def subscriptions_model_def
  vip_memberships_model_def trading_activity_snapshots_model_def job_executions_model_def payment_records_model_def
  webhook_routes_model_def scoped_model_def entity_model_def entity_columns_def payment_columns_def user_columns_def

lemma head_tables:
  "map_of (head_schema pg) ''telegram_users'' = Some (secured pg (telegram_users_model\<lparr>columns := user_columns\<rparr>))"
  "map_of (head_schema pg) ''referral_accounts'' = Some (secured pg referral_accounts_model)"
  "map_of (head_schema pg) ''subscriptions'' = Some (secured pg (subscriptions_model\<lparr>indexes := subscription_indexes\<rparr>))"
  "map_of (head_schema pg) ''vip_memberships'' = Some (secured pg vip_memberships_model)"
  "map_of (head_schema pg) ''trading_activity_snapshots'' = Some (secured pg trading_activity_snapshots_model)"
  "map_of (head_schema pg) ''job_executions'' = Some (secured pg job_executions_model)"
  "map_of (head_schema pg) ''referral_program_configs'' = Some (secured pg referral_program_configs_model)"
  "map_of (head_schema pg) ''telegram_channels'' = Some (secured pg (telegram_channels_model\<lparr>constraints := channel_constraints\<rparr>))"
  "map_of (head_schema pg) ''telegram_bot_configs'' = Some (secured pg telegram_bot_configs_model)"
  "map_of (head_schema pg) ''provider_credentials'' = Some (secured pg provider_credentials_model)"
  "map_of (head_schema pg) ''payment_records'' = Some (secured pg (payment_records_model\<lparr>columns := payment_columns\<rparr>))"
  "map_of (head_schema pg) ''tenants'' = Some tenants_model"
  "map_of (head_schema pg) ''webhook_routes'' = Some (webhook_routes_model\<lparr>indexes := route_indexes\<rparr>)"
  by (simp_all add: head_schema_def)

lemmas fit_rules = head_tables fits_table_def model_defs row_defs fits_opt fits_plain enum_members

lemma member_rows_fit:
  "fits_table (map_of (head_schema pg) ''telegram_users'') (telegram_user_row u)"
  "fits_table (map_of (head_schema pg) ''referral_accounts'') (referral_account_row a)"
  "fits_table (map_of (head_schema pg) ''subscriptions'') (subscription_row b)"
  "fits_table (map_of (head_schema pg) ''vip_memberships'') (vip_membership_row m)"
  "fits_table (map_of (head_schema pg) ''trading_activity_snapshots'') (snapshot_row s)"
  "fits_table (map_of (head_schema pg) ''job_executions'') (job_execution_row j)"
  by (simp_all add: fit_rules)

lemma setup_rows_fit:
  "fits_table (map_of (head_schema pg) ''referral_program_configs'') (referral_program_config_row c)"
  "fits_table (map_of (head_schema pg) ''telegram_channels'') (telegram_channel_row h)"
  "fits_table (map_of (head_schema pg) ''telegram_bot_configs'') (telegram_bot_config_row b)"
  "fits_table (map_of (head_schema pg) ''provider_credentials'') (provider_credential_row p)"
  "fits_table (map_of (head_schema pg) ''payment_records'') (payment_row y)"
  "fits_table (map_of (head_schema pg) ''tenants'') (tenant_row t)"
  "fits_table (map_of (head_schema pg) ''webhook_routes'') (webhook_route_row r)"
  by (simp_all add: fit_rules)

text \<open>All the rows of a database.\<close>

definition database_fits :: "schema \<Rightarrow> database \<Rightarrow> bool" where
  "database_fits s d \<longleftrightarrow>
     list_all (\<lambda>x. fits_table (s ''tenants'') (tenant_row x)) (tenants d) \<and>
     list_all (\<lambda>x. fits_table (s ''telegram_users'') (telegram_user_row x)) (telegram_users d) \<and>
     list_all (\<lambda>x. fits_table (s ''referral_accounts'') (referral_account_row x)) (referral_accounts d) \<and>
     list_all (\<lambda>x. fits_table (s ''subscriptions'') (subscription_row x)) (subscriptions d) \<and>
     list_all (\<lambda>x. fits_table (s ''vip_memberships'') (vip_membership_row x)) (vip_memberships d) \<and>
     list_all (\<lambda>x. fits_table (s ''trading_activity_snapshots'') (snapshot_row x)) (snapshots d) \<and>
     list_all (\<lambda>x. fits_table (s ''job_executions'') (job_execution_row x)) (job_executions d) \<and>
     list_all (\<lambda>x. fits_table (s ''referral_program_configs'') (referral_program_config_row x)) (referral_configs d) \<and>
     list_all (\<lambda>x. fits_table (s ''telegram_channels'') (telegram_channel_row x)) (channels d) \<and>
     list_all (\<lambda>x. fits_table (s ''telegram_bot_configs'') (telegram_bot_config_row x)) (bot_configs d) \<and>
     list_all (\<lambda>x. fits_table (s ''provider_credentials'') (provider_credential_row x)) (credentials d) \<and>
     list_all (\<lambda>x. fits_table (s ''payment_records'') (payment_row x)) (payments d) \<and>
     list_all (\<lambda>x. fits_table (s ''webhook_routes'') (webhook_route_row x)) (routes d)"

lemma head_at:
  assumes "run_ddl (upgrades pg 5) s = Some s'" and "\<And>t. t \<in> set own_tables \<Longrightarrow> s t = None" and "t \<in> set own_tables"
  shows "s' t = map_of (head_schema pg) t"
  using head_of [OF assms(1,2)] assms(2,3) by (simp add: map_add_absent)

lemma own_table_names:
  "list_all (\<lambda>t. t \<in> set own_tables) [''tenants'', ''telegram_users'', ''referral_accounts'', ''subscriptions'',
     ''vip_memberships'', ''trading_activity_snapshots'', ''job_executions'', ''referral_program_configs'',
     ''telegram_channels'', ''telegram_bot_configs'', ''provider_credentials'', ''payment_records'', ''webhook_routes'']"
  by (simp add: own_tables_def TENANT_SCOPED_TABLES_def NEW_TENANT_SCOPED_TABLES_def)

text \<open>The schema has a place for every row: in a database that the revisions have built, every row that
  the models can hold fits its table: there is a column for each attribute and for each column but
  \<open>updated_at\<close> a value of its kind, members of enumerations are members of the column's enumeration and
  within its length, and only nullable columns get no value.\<close>

theorem every_row_has_its_columns:
  assumes "run_ddl (upgrades pg 5) s = Some s'" and "\<And>t. t \<in> set own_tables \<Longrightarrow> s t = None"
  shows "database_fits s' d"
proof -
  have at: "s' t = map_of (head_schema pg) t" if "t \<in> set own_tables" for t
    by (rule head_at [OF assms that])
  show ?thesis
    using own_table_names by (simp add: database_fits_def at list_all_iff member_rows_fit setup_rows_fit)
qed

theorem every_row_has_its_columns_witness:
  "\<exists>s'. run_ddl (upgrades True 5) Map.empty = Some s' \<and>
     database_fits s' \<lparr>tenants = [\<lparr>row_id = 1, created_at = Aware 0, tenant_name = [], slug = [], tenant_is_active = True\<rparr>],
       telegram_users = [], referral_accounts = [], subscriptions = [], vip_memberships = [], snapshots = [],
       job_executions = [], referral_configs = [], channels = [], bot_configs = [], credentials = [], payments = [],
       routes = []\<rparr>"
proof -
  have "run_ddl (upgrades True 5) Map.empty = Some (map_of (head_schema True))"
    using upgrades_listed [of Map.empty True 5] head_postgres by simp
  with every_row_has_its_columns [OF this] show ?thesis by simp
qed

end
