(* ===== verification/SchemaKeys.thy ===== *)
theory SchemaKeys
  imports SchemaRows
begin

text \<open>
  What the schema promises about rows: no drift between the models and the migrations, a forced policy on
  every table of the tenants, and unique constraints and policies that are those the session model enforces.
\<close>

subsection \<open>No drift\<close>

definition same_items :: "'a list \<Rightarrow> 'a list \<Rightarrow> bool" where
  "same_items xs ys \<longleftrightarrow> length xs = length ys \<and> list_all (\<lambda>x. x \<in> set ys) xs \<and> list_all (\<lambda>y. y \<in> set xs) ys"

text \<open>Equal up to the order of what they list, policies apart, which no model declares.\<close>

definition same_shape :: "sql_table option \<Rightarrow> sql_table \<Rightarrow> bool" where
  "same_shape t m \<longleftrightarrow> (case t of None \<Rightarrow> False
     | Some r \<Rightarrow> same_items (columns r) (columns m) \<and> same_items (constraints r) (constraints m) \<and>
         same_items (indexes r) (indexes m))"

lemma same_items_refl [simp]: "same_items xs xs"
  by (simp add: same_items_def list_all_iff)

lemma reordered:
  "same_items user_columns (columns telegram_users_model)"
  "same_items payment_columns (columns payment_records_model)"
  "same_items channel_constraints (constraints telegram_channels_model)"
  "same_items subscription_indexes (indexes subscriptions_model)"
  "same_items route_indexes (indexes webhook_routes_model)"
  by code_simp+

lemma head_shapes: "list_all (\<lambda>(t, m). same_shape (map_of (head_schema pg) t) m) model_tables"
  by (simp add: model_tables_def head_tables same_shape_def reordered)

text \<open>C20. The migrations and the models agree: after all the revisions, every table a model declares is there
  with the declared columns (their types, lengths and nullability included), constraints and indexes, and
  with no others; there are no tables but these and the ones that were there before.\<close>

theorem migrations_match_the_models:
  assumes "run_ddl (upgrades pg 5) s = Some s'" and "\<And>t. t \<in> set own_tables \<Longrightarrow> s t = None"
  shows "list_all (\<lambda>(t, m). same_shape (s' t) m) model_tables \<and>
    dom s' = dom s \<union> set (map fst model_tables)"
proof -
  have own: "set (map fst model_tables) = set own_tables" "set (map fst (head_schema pg)) = set own_tables"
    by (auto simp: model_tables_def head_schema_def own_tables_def TENANT_SCOPED_TABLES_def NEW_TENANT_SCOPED_TABLES_def)
  have "s' t = map_of (head_schema pg) t" if "(t, m) \<in> set model_tables" for t m
  proof (rule head_at [OF assms])
    from that have "t \<in> set (map fst model_tables)" by force
    then show "t \<in> set own_tables" by (simp only: own(1))
  qed
  then have "list_all (\<lambda>(t, m). same_shape (s' t) m) model_tables"
    using head_shapes [of pg] by (auto simp: list_all_iff)
  moreover have "dom s' = dom s \<union> set (map fst model_tables)"
    using head_of [OF assms] own by (auto simp: dom_map_add dom_map_of_conv_image_fst)
  ultimately show ?thesis ..
qed

lemma built_from_nothing: "run_ddl (upgrades True 5) Map.empty = Some (map_of (head_schema True))"
  using upgrades_listed [of Map.empty True 5] head_postgres by simp

theorem migrations_match_the_models_witness:
  "\<exists>s'. run_ddl (upgrades True 5) Map.empty = Some s' \<and>
     list_all (\<lambda>(t, m). same_shape (s' t) m) model_tables"
  using migrations_match_the_models [OF built_from_nothing] built_from_nothing by auto

subsection \<open>Policies\<close>

lemma head_secured:
  "list_all (\<lambda>(t, r). ''tenant_id'' \<in> set (map column_name (columns r)) \<longrightarrow> t = ''webhook_routes'' \<or>
     rls_enabled r \<and> rls_forced r \<and> policies r = [Policy ''tenant_isolation'' PREDICATE PREDICATE]) (head_schema True)"
  by (simp add: head_schema_def secured_def model_defs)

text \<open>C38. No table of the tenants is without its policy: on PostgreSQL, after all the revisions, every table of
  the program that has a \<open>tenant_id\<close>, apart from the routing table of the webhooks, has row security
  enabled and forced with the one policy \<open>tenant_isolation\<close>, for reading and for writing.\<close>

theorem tenant_tables_have_policies:
  assumes "run_ddl (upgrades True 5) s = Some s'" and "\<And>t. t \<in> set own_tables \<Longrightarrow> s t = None"
    and "t \<in> set own_tables" and "s' t = Some r" and "''tenant_id'' \<in> set (map column_name (columns r))"
    and "t \<noteq> ''webhook_routes''"
  shows "rls_enabled r \<and> rls_forced r \<and> policies r = [Policy ''tenant_isolation'' PREDICATE PREDICATE]"
proof -
  have "map_of (head_schema True) t = Some r" using head_at [OF assms(1-3)] assms(4) by simp
  then have "(t, r) \<in> set (head_schema True)" by (rule map_of_SomeD)
  with head_secured assms(5,6) show ?thesis by (auto simp: list_all_iff)
qed

theorem tenant_tables_have_policies_witness:
  "\<exists>s' r. run_ddl (upgrades True 5) Map.empty = Some s' \<and> s' ''vip_memberships'' = Some r \<and> rls_forced r"
proof -
  have "''vip_memberships'' \<in> set own_tables" using own_table_names by simp
  from tenant_tables_have_policies [OF built_from_nothing _ this head_tables(4)] built_from_nothing head_tables(4)
  show ?thesis by (simp add: model_defs)
qed

subsection \<open>Keys and policies as the session model has them\<close>

text \<open>Equality of keys in a unique index: NULL equals nothing, moments are compared as moments.\<close>

fun same_value :: "sql_value option \<Rightarrow> sql_value option \<Rightarrow> bool" where
  "same_value (Some (VTime a)) (Some (VTime b)) = (as_utc a = as_utc b)"
| "same_value (Some VNull) v = False"
| "same_value (Some v) (Some w) = (v = w)"
| "same_value v w = False"

fun unique_columns :: "sql_constraint \<Rightarrow> string list list" where
  "unique_columns (PrimaryKey cs) = []"
| "unique_columns (UniqueConstraint cs n) = [cs]"

definition unique_column_lists :: "sql_table \<Rightarrow> string list list" where
  "unique_column_lists r =
     concat (map unique_columns (constraints r)) @ map index_columns (filter index_unique (indexes r))"

definition same_key :: "sql_table \<Rightarrow> sql_row \<Rightarrow> sql_row \<Rightarrow> bool" where
  "same_key r x y \<longleftrightarrow>
     list_ex (\<lambda>cs. list_all (\<lambda>c. same_value (map_of x c) (map_of y c)) cs) (unique_column_lists r)"

text \<open>A setting that is not set, or empty, is NULL, and no row equals NULL.\<close>

fun admits :: "sql_predicate \<Rightarrow> (string \<Rightarrow> uuid option) \<Rightarrow> sql_row \<Rightarrow> bool" where
  "admits (EqSetting c k) setting row =
     (case setting k of None \<Rightarrow> False | Some t \<Rightarrow> map_of row c = Some (VUuid t))"

text \<open>Without forced row security the owner, as whom the application connects, sees everything; with it,
  what a policy admits.\<close>

definition passes :: "(sql_policy \<Rightarrow> sql_predicate) \<Rightarrow> sql_table \<Rightarrow> (string \<Rightarrow> uuid option) \<Rightarrow> sql_row \<Rightarrow> bool" where
  "passes f r setting row \<longleftrightarrow>
     \<not> (rls_enabled r \<and> rls_forced r) \<or> list_ex (\<lambda>p. admits (f p) setting row) (policies r)"

definition PG_TENANT_SETTING :: string where
  "PG_TENANT_SETTING = ''app.tenant_id''"

definition settings :: "world \<Rightarrow> string \<Rightarrow> uuid option" where
  "settings w k = (if k = PG_TENANT_SETTING then published w else None)"

text \<open>A table of the session model is backed by a table of the schema when its unique constraints and its
  row policy are those of the schema.\<close>

definition backed ::
  "sql_table option \<Rightarrow> ('a scoped_scheme \<Rightarrow> sql_row) \<Rightarrow> 'a scoped_scheme table \<Rightarrow> bool" where
  "backed t row tbl \<longleftrightarrow> (case t of None \<Rightarrow> False
     | Some r \<Rightarrow> (\<forall>x y. tbl_clash tbl x y \<longleftrightarrow> same_key r (row x) (row y)) \<and>
         (\<forall>w x. postgres w \<longrightarrow> row_policy w x = passes policy_using r (settings w) (row x) \<and>
            row_policy w x = passes policy_check r (settings w) (row x)))"

lemma names_differ [simp]:
  "provider_type_name p = provider_type_name q \<longleftrightarrow> p = q" "market_name m = market_name n \<longleftrightarrow> m = n"
  by (cases p; cases q; simp) (cases m; cases n; simp)

lemma policy_passes:
  assumes "map_of row ''tenant_id'' = Some (VUuid (tenant_id x))" and "postgres w"
  shows "passes policy_using (secured True r) (settings w) row = row_policy w x"
    and "passes policy_check (secured True r) (settings w) row = row_policy w x"
  using assms
  by (auto simp: passes_def secured_def settings_def row_policy_def PREDICATE_def PG_TENANT_SETTING_def split: option.splits)

lemma backedI:
  assumes "t = Some (secured True r)" and "\<And>x. map_of (row x) ''tenant_id'' = Some (VUuid (tenant_id x))"
    and "\<And>x y. tbl_clash tbl x y \<longleftrightarrow> same_key r (row x) (row y)"
  shows "backed t row tbl"
  using assms by (simp add: backed_def policy_passes same_key_def unique_column_lists_def)

lemmas key_defs =
  same_key_def unique_column_lists_def model_defs row_defs table_defs channel_constraints_def subscription_indexes_def

text \<open>Each table in turn.\<close>

lemma tables_backed:
  "backed (map_of (head_schema True) ''telegram_users'') telegram_user_row users_table"
  "backed (map_of (head_schema True) ''referral_accounts'') referral_account_row accounts_table"
  "backed (map_of (head_schema True) ''subscriptions'') subscription_row subscriptions_table"
  "backed (map_of (head_schema True) ''vip_memberships'') vip_membership_row memberships_table"
  "backed (map_of (head_schema True) ''trading_activity_snapshots'') snapshot_row snapshots_table"
  "backed (map_of (head_schema True) ''job_executions'') job_execution_row executions_table"
  "backed (map_of (head_schema True) ''referral_program_configs'') referral_program_config_row configs_table"
  "backed (map_of (head_schema True) ''telegram_channels'') telegram_channel_row channels_table"
  "backed (map_of (head_schema True) ''telegram_bot_configs'') telegram_bot_config_row bot_configs_table"
  "backed (map_of (head_schema True) ''provider_credentials'') provider_credential_row credentials_table"
  "backed (map_of (head_schema True) ''payment_records'') payment_row payments_table"
proof -
  show "backed (map_of (head_schema True) ''telegram_users'') telegram_user_row users_table"
    by (rule backedI [OF head_tables(1)]) (auto simp: key_defs)
  show "backed (map_of (head_schema True) ''referral_accounts'') referral_account_row accounts_table"
    by (rule backedI [OF head_tables(2)]) (auto simp: key_defs)
  show "backed (map_of (head_schema True) ''subscriptions'') subscription_row subscriptions_table"
    by (rule backedI [OF head_tables(3)]) (auto simp: key_defs)
  show "backed (map_of (head_schema True) ''vip_memberships'') vip_membership_row memberships_table"
    by (rule backedI [OF head_tables(4)]) (auto simp: key_defs)
  show "backed (map_of (head_schema True) ''trading_activity_snapshots'') snapshot_row snapshots_table"
    by (rule backedI [OF head_tables(5)]) (auto simp: key_defs)
  show "backed (map_of (head_schema True) ''job_executions'') job_execution_row executions_table"
    by (rule backedI [OF head_tables(6)]) (auto simp: key_defs)
  show "backed (map_of (head_schema True) ''referral_program_configs'') referral_program_config_row configs_table"
    by (rule backedI [OF head_tables(7)]) (auto simp: key_defs)
  show "backed (map_of (head_schema True) ''telegram_channels'') telegram_channel_row channels_table"
    by (rule backedI [OF head_tables(8)]) (auto simp: key_defs)
  show "backed (map_of (head_schema True) ''telegram_bot_configs'') telegram_bot_config_row bot_configs_table"
    by (rule backedI [OF head_tables(9)]) (auto simp: key_defs)
  show "backed (map_of (head_schema True) ''provider_credentials'') provider_credential_row credentials_table"
    by (rule backedI [OF head_tables(10)]) (auto simp: key_defs)
  show "backed (map_of (head_schema True) ''payment_records'') payment_row payments_table"
    by (rule backedI [OF head_tables(11)]) (auto simp: key_defs)
qed

text \<open>C12. The session model enforces the schema and nothing else: in a database that the revisions have built on
  PostgreSQL, two rows clash in a table of the session model exactly when a unique constraint or unique
  index of the built table forbids them to stand together, and the session lets exactly the rows through,
  for reading and for writing, that the built policies admit.\<close>

theorem session_enforces_the_schema:
  assumes "run_ddl (upgrades True 5) s = Some s'" and "\<And>t. t \<in> set own_tables \<Longrightarrow> s t = None"
  shows "backed (s' ''telegram_users'') telegram_user_row users_table \<and>
    backed (s' ''referral_accounts'') referral_account_row accounts_table \<and>
    backed (s' ''subscriptions'') subscription_row subscriptions_table \<and>
    backed (s' ''vip_memberships'') vip_membership_row memberships_table \<and>
    backed (s' ''trading_activity_snapshots'') snapshot_row snapshots_table \<and>
    backed (s' ''job_executions'') job_execution_row executions_table \<and>
    backed (s' ''referral_program_configs'') referral_program_config_row configs_table \<and>
    backed (s' ''telegram_channels'') telegram_channel_row channels_table \<and>
    backed (s' ''telegram_bot_configs'') telegram_bot_config_row bot_configs_table \<and>
    backed (s' ''provider_credentials'') provider_credential_row credentials_table \<and>
    backed (s' ''payment_records'') payment_row payments_table"
proof -
  have "s' t = map_of (head_schema True) t" if "t \<in> set own_tables" for t
    by (rule head_at [OF assms that])
  then show ?thesis using own_table_names by (simp add: tables_backed)
qed

theorem session_enforces_the_schema_witness:
  "\<exists>s'. run_ddl (upgrades True 5) Map.empty = Some s' \<and> backed (s' ''vip_memberships'') vip_membership_row memberships_table"
  using session_enforces_the_schema [OF built_from_nothing] built_from_nothing by simp

text \<open>The names of all indexes and constraints are different, as PostgreSQL asks for.\<close>

fun constraint_names :: "sql_constraint \<Rightarrow> string list" where
  "constraint_names (UniqueConstraint cs (Some n)) = [n]"
| "constraint_names k = []"

lemma names_are_unique:
  "distinct (concat (map (\<lambda>(t, m). concat (map constraint_names (constraints m)) @ map index_name (indexes m)) model_tables))"
  by (simp add: model_tables_def model_defs)

end
