(* ===== verification/Spec2Isabelle.thy ===== *)
theory Spec2Isabelle
  imports Messages DemoSweep DemoService SchemaKeys
begin

text \<open>
  A model of the VIP channel management service and the theorems that make it correct.

  \<^bold>\<open>The program.\<close> Tenants sell access to Telegram channels. A member sends the UID of their exchange
  account to the tenant's bot; \<open>services/referral_onboarding.py\<close> asks the exchange whether the account
  is under the tenant's referral and funded (\<open>domain/eligibility.py\<close>), records the account, entitlement
  and membership, and \<open>services/invite_service.py\<close> mints a single-use invite link. Once per period
  \<open>jobs/membership_monitor.py\<close> claims the period (\<open>jobs/period_lock.py\<close>), asks the exchange again about
  every member and warns, revokes or restores by the rules of \<open>domain/compliance.py\<close>;
  \<open>jobs/scheduler.py\<close> does so for every tenant. Telegram's updates come in through
  \<open>routers/telegram_webhook.py\<close>, which finds the tenant by the token of the path and lets
  \<open>services/bot_conversation.py\<close> answer. An administrator enters credentials, programmes, channels and the
  bot through \<open>routers/admin.py\<close>; payments come in through \<open>routers/webhooks.py\<close>. Rows of different
  tenants live in the same tables; the middleware and \<open>core/tenant_scope.py\<close> bind each request to one
  tenant, and the row policies of the migrations keep the tenants apart.

  \<^bold>\<open>Theories.\<close>
  \<^item> \<open>Prelude\<close>, \<open>PyTime\<close>, \<open>PyDecimal\<close>, \<open>PyText\<close>, \<open>Json\<close>, \<open>Sha1\<close>, \<open>HeaderUuid\<close>: exceptions, strings as lists
    of code points, datetimes as microseconds (naive or aware, range checked), decimal arithmetic, decoded
    JSON, UTF-8 and SHA-1, UUIDs as text: what the code uses of the language and its library.
  \<^item> \<open>Enums\<close>, \<open>Models\<close>: \<open>domain/enums.py\<close> and the ORM classes as datatypes and records.
  \<^item> \<open>Uid\<close>, \<open>Eligibility\<close>, \<open>Compliance\<close>, \<open>Messages\<close>: the pure domain. When exactly an account qualifies and
    a member is warned or revoked, that nobody is removed early in any life of checks, that every spelling of a
    UID is understood, how amounts are shown.
  \<^item> \<open>Effects\<close>, \<open>Session\<close>, \<open>Isolation\<close>, \<open>Ports\<close>, \<open>Repositories\<close>, \<open>Runs\<close>, \<open>Sessions\<close>: effectful code. An
    action takes the world (database, session, call logs, clock and UUID positions) and returns a result or
    exception with the world it leaves. The locales say once, for any relation of the proper kind, that every
    operation keeps it; they are interpreted for tenant isolation, uniqueness of keys, silence, growth of
    the histories, absence of commits and sparing every member.
  \<^item> \<open>Invites\<close>, \<open>Mocks\<close>, \<open>Onboarding\<close>, \<open>PeriodLock\<close>, \<open>Monitor\<close>, \<open>Scheduler\<close>: the services and jobs. What a
    successful submission leaves and a refused one does not touch, that a period is claimed once, that a pass
    changes memberships only by the rules, what a revocation does, that a tenant's turn is stored whole or
    not at all.
  \<^item> \<open>Bitunix\<close>, \<open>TelegramApi\<close>, \<open>Credentials\<close>: the adapters behind the ports and the factory that builds them
    from sealed credentials.
  \<^item> \<open>Conversation\<close>, \<open>Webhook\<close>: the bot. Who is answered, what is stored, and for which tenant.
  \<^item> \<open>Admin\<close>, \<open>AdminSetup\<close>: the administration. What was entered is what is used, a secret is not shown, the
    webhook path leads to its tenant, a passed check means markets on offer.
  \<^item> \<open>Payments\<close>, \<open>Web\<close>: the payment service and the edge: middleware, dependencies, endpoints and statuses.
    A request without a tenant does nothing, one with a tenant stays with it and is stored whole or not at all.
  \<^item> \<open>Removals\<close>, \<open>Turns\<close>: the sweep as a whole. Whoever a pass, a turn or a sweep takes out of a channel, completed
    or not, had a membership that was warned in full; and while the stored secrets can be opened the sweep comes
    to its end with one turn of every active tenant, whatever the exchange, Telegram and the passes do.
  \<^item> \<open>Service\<close>: the running service as histories of requests and sweeps (\<open>serves\<close>). By rule induction over them:
    the keys hold for ever, tenants stay apart, webhook paths stay valid, only a sweep takes members out of
    channels, and never one that was not warned. \<open>main.py\<close> itself starts no scheduler: there the histories
    without a sweep are all there are.
  \<^item> \<open>Migrations\<close>, \<open>Schema\<close>, \<open>SchemaRows\<close>, \<open>SchemaKeys\<close>: the revisions as programs over schemas. Each can be
    taken back; together they build what the models declare, with a policy on every table of the tenants;
    the unique keys and policies that \<open>Session\<close> enforces are those that are built.
  \<^item> \<open>Demo\<close>, \<open>DemoJobs\<close>, \<open>DemoSweep\<close>, \<open>DemoChat\<close>, \<open>DemoWebhook\<close>, \<open>DemoAdmin\<close>, \<open>DemoWeb\<close>,
    \<open>DemoService\<close>: the running
    example on which the theorems about the flows are applied.

  \<^bold>\<open>External code.\<close> The exchange, Telegram, the HTTP client, the Fernet cipher, the source of webhook tokens
  and FastAPI's routing are parameters: records of functions that answer from the history of calls, or plain
  functions; where a theorem relies on their documented behaviour it says so in a hypothesis. Clock, UUID
  source and the text of exceptions are fields of \<open>runtime\<close>. No fuel is used: every loop of the model runs
  over a list.

  \<^bold>\<open>Not modelled.\<close> Widths of columns where rows are written and the \<open>updated_at\<close> column of rows; concurrent
  transactions (requests and sweeps come one after another); log lines and the format of
  \<open>core/logger.py\<close>; the configuration of Alembic (\<open>migrations/env.py\<close>) and of the scheduler's timer; bodies
  of responses beyond the records of the handlers; abstract bases and payloads that nothing uses.
\<close>

end
